theory Spec2Isabelle
  imports Main "HOL-Library.AList"
begin

section \<open>Data model\<close>

text \<open>
  The embedding follows \<^verbatim>\<open>src/modules/lightbox/services/integration.service.ts\<close>
  (class \<^verbatim>\<open>IntegrationService\<close>), with \<^verbatim>\<open>config/env.config.ts\<close> for the
  configuration, and the older stand-alone class \<^verbatim>\<open>LightboxCampaignTrigger\<close> where the two
  differ.

  Conventions.
  \<^item> JavaScript numbers that are identifiers, counts or percentages are \<open>int\<close> (or \<open>nat\<close>
    for a length).
  \<^item> A thrown \<^verbatim>\<open>Error\<close> is its message: an awaited call returns \<open>js_error + 'a\<close>,
    with \<open>Inl m\<close> for a rejection whose \<^verbatim>\<open>error.message\<close> is \<open>m\<close>.
  \<^item> The fixed message texts of the source are Ukrainian; they are written here in ASCII
    transliteration, one constant per literal.
  \<^item> The records of the external SDK (\<^verbatim>\<open>oml_sdk\<close>) carry the fields the code reads.
\<close>

type_synonym js_error = string

record lightboxTVPlacement =
  pl_id :: int
  pl_campaign_id :: int
  pl_channel_id :: int
  pl_brand_id :: int
  pl_target_audience_id :: int
  pl_start_date :: string
  pl_end_date :: string
  pl_budget :: int
  pl_priority :: int
  pl_creative_ids :: "int list"

record lightboxTVCampaign =
  cmp_id :: int
  cmp_name :: string
  cmp_start_date :: string
  cmp_end_date :: string
  cmp_budget :: int
  cmp_advertiser_id :: int
  cmp_status :: string
  cmp_creative_ids :: "int list"
  cmp_placements :: "lightboxTVPlacement list"

record lightboxTVCreative =
  cr_id :: int
  cr_name :: string
  cr_duration :: int
  cr_file_url :: string
  cr_format :: string
  cr_brand_id :: int
  cr_advertiser_id :: int

datatype result_status = Complete | Partial | Failed

record integrationResult =
  success :: bool
  status :: result_status
  project_id :: "int option"
  order_id :: "int option"
  mediaplan_ids :: "int list option"
  commercial_ids :: "int list option"
  spot_ids :: "int list option"
  error :: "string option"
  details :: "string option"

record integrationProgress =
  step :: string
  progress :: int
  message :: string
  timestamp :: string

text \<open>
  \<^verbatim>\<open>IntegrationConfig\<close>: the numeric fields (\<^verbatim>\<open>yearId\<close>, the three default type ids,
  \<^verbatim>\<open>maxRetries\<close>) are read by no method and are left out. The optional
  \<^verbatim>\<open>progressCallback\<close> is the line it writes to the console.
\<close>

record integrationConfig =
  omlBaseUrl :: string
  omlUsername :: string
  omlPassword :: string
  progressCallback :: "(integrationProgress \<Rightarrow> string) option"

subsection \<open>Records of the external platform\<close>

record omlRef =
  ref_id :: int
  ref_name :: string

record commercial =
  com_id :: int
  com_name :: string
  com_duration :: int

record mediaplan =
  mp_id :: int
  mp_date_from :: string
  mp_date_to :: string
  mp_commercials :: "commercial list option"

record spot =
  spot_id :: int
  spot_commercial_id :: int

text \<open>
  The body of a spot attachment. The service sends the two ids; the older variant adds
  \<^verbatim>\<open>position\<close>, \<^verbatim>\<open>priority\<close>, \<^verbatim>\<open>auction_coeff\<close> (kept as its decimal text) and
  \<^verbatim>\<open>force\<close>.
\<close>

record spotData =
  sd_commercial_id :: int
  sd_mediaplan_id :: int
  sd_position :: "string option"
  sd_priority :: "int option"
  sd_auction_coeff :: "string option"
  sd_force :: "bool option"

record block =
  blk_id :: int
  blk_channel_id :: int
  blk_program_release_id :: int
  blk_date_start_at :: string
  blk_duration :: int
  blk_spots :: "spot list option"

record blockWithGrps =
  bwg_block_id :: int
  bwg_block_date_start_at :: string
  bwg_block_duration :: int

record programRelease =
  program_release_id :: int
  pr_blocks :: "blockWithGrps list option"

text \<open>
  The booking grid is a JavaScript object keyed by date; the list holds its entries in
  the order \<^verbatim>\<open>Object.keys\<close> enumerates them.
\<close>

type_synonym bookingGrid = "(string \<times> programRelease list) list"

subsection \<open>Calls awaited by the service\<close>

text \<open>
  Every awaited call is recorded, in order, with its arguments (\<^verbatim>\<open>per_page\<close> for the
  two catalogue listings). The four \<^verbatim>\<open>fetchLightbox...\<close> calls are the stubs that stand
  for the LightboxTV API.
\<close>

datatype call =
    Login string string
  | FetchLightboxAdvertiser int
  | FetchLightboxBrand int
  | FetchLightboxChannel int
  | FetchLightboxTargetAudience int
  | GetAdvertisers
  | GetBrands
  | GetChannels
  | GetTargetAudiences
  | GetChannelBooking int string string
  | GetBlockById int
  | GetCommercials "int option"
  | GetMediaplans int
  | AddSpotToBlock "int option" spotData "bool option"

text \<open>
  The external platform client and the clock. Each answer may depend on the calls made
  before it (the first argument), so that any sequence of answers within the life of
  one service instance is covered. \<open>now n\<close> is the clock reading taken for the
  \<open>n\<close>-th progress entry. Two things are taken from the SDK without its source: a
  rejected call carries an error with a message, and \<^verbatim>\<open>getToken\<close> returns without
  raising.
\<close>

record omlClient =
  login :: "call list \<Rightarrow> string \<Rightarrow> string \<Rightarrow> js_error + unit"
  getAdvertisers :: "call list \<Rightarrow> js_error + omlRef list"
  getBrands :: "call list \<Rightarrow> js_error + omlRef list"
  getChannels :: "call list \<Rightarrow> js_error + omlRef list"
  getTargetAudiences :: "call list \<Rightarrow> js_error + omlRef list"
  getChannelBooking :: "call list \<Rightarrow> int \<Rightarrow> string \<Rightarrow> string \<Rightarrow> js_error + bookingGrid"
  getBlockById :: "call list \<Rightarrow> int \<Rightarrow> js_error + block"
  getCommercials :: "call list \<Rightarrow> int option \<Rightarrow> js_error + commercial list"
  getMediaplans :: "call list \<Rightarrow> int \<Rightarrow> js_error + mediaplan list"
  addSpotToBlock :: "call list \<Rightarrow> int option \<Rightarrow> spotData \<Rightarrow> bool option \<Rightarrow> js_error + block"
  getToken :: "call list \<Rightarrow> string option"
  now :: "nat \<Rightarrow> string"

subsection \<open>The service instance\<close>

text \<open>
  \<^verbatim>\<open>mappingCache\<close> is a \<^verbatim>\<open>Map<string, Map<number, number>>\<close>; both levels are
  association lists in insertion order, which is the order a JavaScript \<^verbatim>\<open>Map\<close>
  iterates in. \<open>trace\<close> and \<open>console\<close> are the calls awaited and the lines written so far.
\<close>

record service =
  config :: integrationConfig
  mappingCache :: "(string \<times> (int \<times> int) list) list"
  progressLog :: "integrationProgress list"
  trace :: "call list"
  console :: "string list"

section \<open>Strings\<close>

definition digit_char :: "nat \<Rightarrow> char" where
  "digit_char d = char_of (48 + d)"

function show_nat :: "nat \<Rightarrow> string" where
  "show_nat n = (if n < 10 then [digit_char n] else show_nat (n div 10) @ [digit_char (n mod 10)])"
  by pat_completeness auto
termination
  by (relation "measure (\<lambda>n. n)") auto

declare show_nat.simps [simp del]

definition show_int :: "int \<Rightarrow> string" where
  "show_int i = (if i < 0 then CHR ''-'' # show_nat (nat (- i)) else show_nat (nat i))"

text \<open>\<^verbatim>\<open>${block?.id}\<close> in a template literal: \<^verbatim>\<open>undefined\<close> prints as its name.\<close>

definition show_opt_int :: "int option \<Rightarrow> string" where
  "show_opt_int x = (case x of None \<Rightarrow> ''undefined'' | Some i \<Rightarrow> show_int i)"

text \<open>\<^verbatim>\<open>Array.prototype.join\<close>.\<close>

fun join :: "string \<Rightarrow> string list \<Rightarrow> string" where
  "join sep [] = []"
| "join sep [x] = x"
| "join sep (x # y # ys) = x @ sep @ join sep (y # ys)"

text \<open>\<^verbatim>\<open>Array.prototype.slice(-3)\<close>: the last three elements, or all of them if fewer.\<close>

definition slice_last3 :: "'a list \<Rightarrow> 'a list" where
  "slice_last3 xs = drop (length xs - 3) xs"

definition newline :: string where
  "newline = [CHR 0x0A]"

definition dquote :: string where
  "dquote = [CHR 0x22]"

definition backslash :: string where
  "backslash = [CHR 0x5C]"

section \<open>Configuration from the environment\<close>

text \<open>\<^verbatim>\<open>EnvConfig.get\<close>: \<^verbatim>\<open>process.env[key] || defaultValue\<close>; the empty string is falsy.\<close>

definition EnvConfig_get :: "(string \<Rightarrow> string option) \<Rightarrow> string \<Rightarrow> string \<Rightarrow> string" where
  "EnvConfig_get penv key defaultValue =
     (case penv key of
        None \<Rightarrow> defaultValue
      | Some v \<Rightarrow> if v = [] then defaultValue else v)"

text \<open>The callback installed by \<^verbatim>\<open>EnvConfig.getOmlConfig\<close>: one console line per entry.\<close>

definition console_progress_line :: "integrationProgress \<Rightarrow> string" where
  "console_progress_line p =
     ''['' @ timestamp p @ ''] '' @ step p @ '' ('' @ show_int (progress p) @ ''%): '' @ message p"

definition getOmlConfig :: "(string \<Rightarrow> string option) \<Rightarrow> integrationConfig" where
  "getOmlConfig penv =
     \<lparr> omlBaseUrl = EnvConfig_get penv ''OML_BASE_URL'' ''https://ge-api.omldev.org'',
       omlUsername = EnvConfig_get penv ''OML_USERNAME'' [],
       omlPassword = EnvConfig_get penv ''OML_PASSWORD'' [],
       progressCallback = Some console_progress_line \<rparr>"

section \<open>Construction\<close>

text \<open>
  The constructor of \<^verbatim>\<open>IntegrationService\<close>: the four tables are created empty, the
  progress log is the empty field initialiser, the configuration comes from the process
  environment. The Nest module registers the class as a provider without a scope, so
  one instance serves every request.
\<close>

definition empty_cache :: "(string \<times> (int \<times> int) list) list" where
  "empty_cache =
     [(''advertisers'', []), (''brands'', []), (''channels'', []), (''targetAudiences'', [])]"

definition new_IntegrationService :: "(string \<Rightarrow> string option) \<Rightarrow> service" where
  "new_IntegrationService penv =
     \<lparr> config = getOmlConfig penv,
       mappingCache = empty_cache,
       progressLog = [],
       trace = [],
       console = [] \<rparr>"

text \<open>The constructor of \<^verbatim>\<open>LightboxCampaignTrigger\<close> takes the configuration.\<close>

definition new_LightboxCampaignTrigger :: "integrationConfig \<Rightarrow> service" where
  "new_LightboxCampaignTrigger cfg =
     \<lparr> config = cfg,
       mappingCache = empty_cache,
       progressLog = [],
       trace = [],
       console = [] \<rparr>"

section \<open>Progress log and console\<close>

definition console_log :: "string \<Rightarrow> service \<Rightarrow> service" where
  "console_log line st = st\<lparr>console := console st @ [line]\<rparr>"

text \<open>\<^verbatim>\<open>console.error\<close> writes to the same console.\<close>

definition console_error :: "string \<Rightarrow> service \<Rightarrow> service" where
  "console_error line st = st\<lparr>console := console st @ [line]\<rparr>"

definition logProgress :: "omlClient \<Rightarrow> string \<Rightarrow> int \<Rightarrow> string \<Rightarrow> service \<Rightarrow> service" where
  "logProgress env stp prog msg st =
     (let progressEntry =
            \<lparr> step = stp, progress = prog, message = msg,
              timestamp = now env (length (progressLog st)) \<rparr>;
          st1 = st\<lparr>progressLog := progressLog st @ [progressEntry]\<rparr>
      in case progressCallback (config st1) of
           None \<Rightarrow> st1
         | Some callback \<Rightarrow> st1\<lparr>console := console st1 @ [callback progressEntry]\<rparr>)"

definition progress_line :: "integrationProgress \<Rightarrow> string" where
  "progress_line p =
     ''- '' @ timestamp p @ '': '' @ step p @ '' ('' @ show_int (progress p) @ ''%) - '' @ message p"

definition getErrorDetails :: "js_error \<Rightarrow> service \<Rightarrow> string" where
  "getErrorDetails msg st =
     ''Pomylka v protsesi intehratsii: '' @ msg @ newline @
     ''Ostanni etapy intehratsii:'' @ newline @
     join newline (map progress_line (slice_last3 (progressLog st)))"

section \<open>Awaited calls\<close>

definition record_call :: "call \<Rightarrow> service \<Rightarrow> service" where
  "record_call c st = st\<lparr>trace := trace st @ [c]\<rparr>"

definition call_login :: "omlClient \<Rightarrow> string \<Rightarrow> string \<Rightarrow> service \<Rightarrow> (js_error + unit) \<times> service" where
  "call_login env u p st = (login env (trace st) u p, record_call (Login u p) st)"

definition call_getAdvertisers :: "omlClient \<Rightarrow> service \<Rightarrow> (js_error + omlRef list) \<times> service" where
  "call_getAdvertisers env st = (getAdvertisers env (trace st), record_call GetAdvertisers st)"

definition call_getBrands :: "omlClient \<Rightarrow> service \<Rightarrow> (js_error + omlRef list) \<times> service" where
  "call_getBrands env st = (getBrands env (trace st), record_call GetBrands st)"

definition call_getChannels :: "omlClient \<Rightarrow> service \<Rightarrow> (js_error + omlRef list) \<times> service" where
  "call_getChannels env st = (getChannels env (trace st), record_call GetChannels st)"

definition call_getTargetAudiences :: "omlClient \<Rightarrow> service \<Rightarrow> (js_error + omlRef list) \<times> service" where
  "call_getTargetAudiences env st =
     (getTargetAudiences env (trace st), record_call GetTargetAudiences st)"

definition call_getChannelBooking ::
  "omlClient \<Rightarrow> int \<Rightarrow> string \<Rightarrow> string \<Rightarrow> service \<Rightarrow> (js_error + bookingGrid) \<times> service" where
  "call_getChannelBooking env ch d1 d2 st =
     (getChannelBooking env (trace st) ch d1 d2, record_call (GetChannelBooking ch d1 d2) st)"

definition call_getBlockById :: "omlClient \<Rightarrow> int \<Rightarrow> service \<Rightarrow> (js_error + block) \<times> service" where
  "call_getBlockById env i st = (getBlockById env (trace st) i, record_call (GetBlockById i) st)"

definition call_getCommercials ::
  "omlClient \<Rightarrow> int option \<Rightarrow> service \<Rightarrow> (js_error + commercial list) \<times> service" where
  "call_getCommercials env per_page st =
     (getCommercials env (trace st) per_page, record_call (GetCommercials per_page) st)"

definition call_getMediaplans ::
  "omlClient \<Rightarrow> int \<Rightarrow> service \<Rightarrow> (js_error + mediaplan list) \<times> service" where
  "call_getMediaplans env per_page st =
     (getMediaplans env (trace st) per_page, record_call (GetMediaplans per_page) st)"

definition call_addSpotToBlock ::
  "omlClient \<Rightarrow> int option \<Rightarrow> spotData \<Rightarrow> bool option \<Rightarrow> service \<Rightarrow> (js_error + block) \<times> service" where
  "call_addSpotToBlock env b d f st =
     (addSpotToBlock env (trace st) b d f, record_call (AddSpotToBlock b d f) st)"

text \<open>The LightboxTV stubs: they resolve at once with a name made from the id.\<close>

definition fetchLightboxAdvertiser :: "int \<Rightarrow> service \<Rightarrow> omlRef \<times> service" where
  "fetchLightboxAdvertiser i st =
     (\<lparr> ref_id = i, ref_name = ''Advertiser '' @ show_int i \<rparr>,
      record_call (FetchLightboxAdvertiser i) st)"

definition fetchLightboxBrand :: "int \<Rightarrow> service \<Rightarrow> omlRef \<times> service" where
  "fetchLightboxBrand i st =
     (\<lparr> ref_id = i, ref_name = ''Brand '' @ show_int i \<rparr>,
      record_call (FetchLightboxBrand i) st)"

definition fetchLightboxChannel :: "int \<Rightarrow> service \<Rightarrow> omlRef \<times> service" where
  "fetchLightboxChannel i st =
     (\<lparr> ref_id = i, ref_name = ''Channel '' @ show_int i \<rparr>,
      record_call (FetchLightboxChannel i) st)"

definition fetchLightboxTargetAudience :: "int \<Rightarrow> service \<Rightarrow> omlRef \<times> service" where
  "fetchLightboxTargetAudience i st =
     (\<lparr> ref_id = i, ref_name = ''TargetAudience '' @ show_int i \<rparr>,
      record_call (FetchLightboxTargetAudience i) st)"

section \<open>The identifier cache\<close>

text \<open>\<^verbatim>\<open>this.mappingCache.get(t)?.has(k)\<close>: a missing table gives \<^verbatim>\<open>undefined\<close>, which is falsy.\<close>

definition cache_has :: "string \<Rightarrow> int \<Rightarrow> service \<Rightarrow> bool" where
  "cache_has entityType k st =
     (case map_of (mappingCache st) entityType of
        None \<Rightarrow> False
      | Some mapping \<Rightarrow> k \<in> set (map fst mapping))"

text \<open>
  \<^verbatim>\<open>this.mappingCache.get(t)?.set(k, v)\<close>: nothing happens without the table;
  \<^verbatim>\<open>Map.set\<close> replaces the value of a present key in place and appends a new key.
\<close>

definition cache_set :: "string \<Rightarrow> int \<Rightarrow> int \<Rightarrow> service \<Rightarrow> service" where
  "cache_set entityType k v st =
     (case map_of (mappingCache st) entityType of
        None \<Rightarrow> st
      | Some mapping \<Rightarrow>
          st\<lparr>mappingCache := AList.update entityType (AList.update k v mapping) (mappingCache st)\<rparr>)"

definition mapping_not_found :: "string \<Rightarrow> int \<Rightarrow> js_error" where
  "mapping_not_found entityType lbxId =
     ''Ne znaideno mapping dlia '' @ entityType @ '' z ID '' @ show_int lbxId"

definition getMappedIdOrThrow :: "string \<Rightarrow> int \<Rightarrow> service \<Rightarrow> js_error + int" where
  "getMappedIdOrThrow entityType lbxId st =
     (case map_of (mappingCache st) entityType of
        None \<Rightarrow> Inl (mapping_not_found entityType lbxId)
      | Some mapping \<Rightarrow>
          (case map_of mapping lbxId of
             None \<Rightarrow> Inl (mapping_not_found entityType lbxId)
           | Some omlId \<Rightarrow> Inr omlId))"

text \<open>The loop of \<^verbatim>\<open>getReverseMappedId\<close> over \<^verbatim>\<open>mapping.entries()\<close>.\<close>

fun first_with_value :: "int \<Rightarrow> (int \<times> int) list \<Rightarrow> int option" where
  "first_with_value omlId [] = None"
| "first_with_value omlId ((lbxId, mappedOmlId) # entries) =
     (if mappedOmlId = omlId then Some lbxId else first_with_value omlId entries)"

definition getReverseMappedId :: "string \<Rightarrow> int \<Rightarrow> service \<Rightarrow> int option" where
  "getReverseMappedId entityType omlId st =
     (case map_of (mappingCache st) entityType of
        None \<Rightarrow> None
      | Some mapping \<Rightarrow> first_with_value omlId mapping)"

section \<open>Authentication and dictionary synchronisation\<close>

definition authenticate :: "omlClient \<Rightarrow> service \<Rightarrow> (js_error + unit) \<times> service" where
  "authenticate env st =
     (case call_login env (omlUsername (config st)) (omlPassword (config st)) st of
        (Inl e, st1) \<Rightarrow> (Inl (''Pomylka autentyfikatsii v OML: '' @ e), st1)
      | (Inr u, st1) \<Rightarrow> (Inr (), st1))"

definition advertiser_not_found :: "string \<Rightarrow> js_error" where
  "advertiser_not_found nm = ''Reklamodavets z imiam '' @ nm @ '' ne znaidenyi v OML''"

definition brand_not_found :: "string \<Rightarrow> js_error" where
  "brand_not_found nm = ''Brend z imiam '' @ nm @ '' ne znaidenyi v OML''"

definition channel_not_found :: "string \<Rightarrow> js_error" where
  "channel_not_found nm = ''Kanal z imiam '' @ nm @ '' ne znaidenyi v OML''"

definition target_audience_not_found :: "string \<Rightarrow> js_error" where
  "target_audience_not_found nm = ''Tsilova audytoriia z imiam '' @ nm @ '' ne znaidena v OML''"

fun syncAdvertisers :: "omlClient \<Rightarrow> int list \<Rightarrow> service \<Rightarrow> (js_error + unit) \<times> service" where
  "syncAdvertisers env [] st = (Inr (), st)"
| "syncAdvertisers env (lbxAdvertiserId # rest) st =
     (if cache_has ''advertisers'' lbxAdvertiserId st then syncAdvertisers env rest st
      else
        (case fetchLightboxAdvertiser lbxAdvertiserId st of
           (advertiserData, st1) \<Rightarrow>
             (case call_getAdvertisers env st1 of
                (Inl e, st2) \<Rightarrow> (Inl e, st2)
              | (Inr omlAdvertisers, st2) \<Rightarrow>
                  (case omlAdvertisers of
                     [] \<Rightarrow> (Inl (advertiser_not_found (ref_name advertiserData)), st2)
                   | a # others \<Rightarrow>
                       syncAdvertisers env rest
                         (cache_set ''advertisers'' lbxAdvertiserId (ref_id a) st2)))))"

fun syncBrands :: "omlClient \<Rightarrow> int list \<Rightarrow> service \<Rightarrow> (js_error + unit) \<times> service" where
  "syncBrands env [] st = (Inr (), st)"
| "syncBrands env (lbxBrandId # rest) st =
     (if cache_has ''brands'' lbxBrandId st then syncBrands env rest st
      else
        (case fetchLightboxBrand lbxBrandId st of
           (brandData, st1) \<Rightarrow>
             (case call_getBrands env st1 of
                (Inl e, st2) \<Rightarrow> (Inl e, st2)
              | (Inr omlBrands, st2) \<Rightarrow>
                  (case omlBrands of
                     [] \<Rightarrow> (Inl (brand_not_found (ref_name brandData)), st2)
                   | b # others \<Rightarrow>
                       syncBrands env rest (cache_set ''brands'' lbxBrandId (ref_id b) st2)))))"

fun syncChannels :: "omlClient \<Rightarrow> int list \<Rightarrow> service \<Rightarrow> (js_error + unit) \<times> service" where
  "syncChannels env [] st = (Inr (), st)"
| "syncChannels env (lbxChannelId # rest) st =
     (if cache_has ''channels'' lbxChannelId st then syncChannels env rest st
      else
        (case fetchLightboxChannel lbxChannelId st of
           (channelData, st1) \<Rightarrow>
             (case call_getChannels env st1 of
                (Inl e, st2) \<Rightarrow> (Inl e, st2)
              | (Inr omlChannels, st2) \<Rightarrow>
                  (case omlChannels of
                     [] \<Rightarrow> (Inl (channel_not_found (ref_name channelData)), st2)
                   | c # others \<Rightarrow>
                       syncChannels env rest (cache_set ''channels'' lbxChannelId (ref_id c) st2)))))"

fun syncTargetAudiences :: "omlClient \<Rightarrow> int list \<Rightarrow> service \<Rightarrow> (js_error + unit) \<times> service" where
  "syncTargetAudiences env [] st = (Inr (), st)"
| "syncTargetAudiences env (lbxTargetAudienceId # rest) st =
     (if cache_has ''targetAudiences'' lbxTargetAudienceId st
      then syncTargetAudiences env rest st
      else
        (case fetchLightboxTargetAudience lbxTargetAudienceId st of
           (targetAudienceData, st1) \<Rightarrow>
             (case call_getTargetAudiences env st1 of
                (Inl e, st2) \<Rightarrow> (Inl e, st2)
              | (Inr omlTargetAudiences, st2) \<Rightarrow>
                  (case omlTargetAudiences of
                     [] \<Rightarrow> (Inl (target_audience_not_found (ref_name targetAudienceData)), st2)
                   | t # others \<Rightarrow>
                       syncTargetAudiences env rest
                         (cache_set ''targetAudiences'' lbxTargetAudienceId (ref_id t) st2)))))"

text \<open>
  \<^verbatim>\<open>new Set<number>()\<close> filled with \<^verbatim>\<open>add\<close> and read with \<^verbatim>\<open>Array.from\<close>: the distinct
  values in the order of their first insertion.
\<close>

fun set_add :: "int list \<Rightarrow> int \<Rightarrow> int list" where
  "set_add s x = (if x \<in> set s then s else s @ [x])"

definition brandIds_of :: "lightboxTVCampaign \<Rightarrow> lightboxTVCreative list \<Rightarrow> int list" where
  "brandIds_of campaign creatives =
     foldl set_add (foldl set_add [] (map pl_brand_id (cmp_placements campaign)))
       (map cr_brand_id creatives)"

definition sync_error :: "js_error \<Rightarrow> js_error" where
  "sync_error e = ''Pomylka synkhronizatsii dovidnykiv: '' @ e"

definition syncReferenceDictionaries ::
  "omlClient \<Rightarrow> lightboxTVCampaign \<Rightarrow> lightboxTVCreative list \<Rightarrow> service \<Rightarrow> (js_error + unit) \<times> service" where
  "syncReferenceDictionaries env campaign creatives st =
     (case syncAdvertisers env [cmp_advertiser_id campaign] st of
        (Inl e, st1) \<Rightarrow> (Inl (sync_error e), st1)
      | (Inr u1, st1) \<Rightarrow>
          (case syncBrands env (brandIds_of campaign creatives) st1 of
             (Inl e, st2) \<Rightarrow> (Inl (sync_error e), st2)
           | (Inr u2, st2) \<Rightarrow>
               (case syncChannels env (map pl_channel_id (cmp_placements campaign)) st2 of
                  (Inl e, st3) \<Rightarrow> (Inl (sync_error e), st3)
                | (Inr u3, st3) \<Rightarrow>
                    (case syncTargetAudiences env
                            (map pl_target_audience_id (cmp_placements campaign)) st3 of
                       (Inl e, st4) \<Rightarrow> (Inl (sync_error e), st4)
                     | (Inr u4, st4) \<Rightarrow> (Inr (), st4)))))"

section \<open>Block search\<close>

text \<open>
  The \<^verbatim>\<open>Block\<close> built from a grid slot; only its \<^verbatim>\<open>id\<close> is read afterwards, for the
  detail lookup.
\<close>

definition block_of_slot :: "int \<Rightarrow> programRelease \<Rightarrow> blockWithGrps \<Rightarrow> block" where
  "block_of_slot omlChannelId programRelease blockWithGrps =
     \<lparr> blk_id = bwg_block_id blockWithGrps,
       blk_channel_id = omlChannelId,
       blk_program_release_id = program_release_id programRelease,
       blk_date_start_at = bwg_block_date_start_at blockWithGrps,
       blk_duration = bwg_block_duration blockWithGrps,
       blk_spots = None \<rparr>"

text \<open>\<^verbatim>\<open>for (const blockWithGrps of availableBlocks)\<close>, pushing onto \<^verbatim>\<open>blocks\<close>.\<close>

fun fetch_available_blocks ::
  "omlClient \<Rightarrow> int \<Rightarrow> programRelease \<Rightarrow> blockWithGrps list \<Rightarrow> block list \<Rightarrow> service \<Rightarrow>
   (js_error + block list) \<times> service" where
  "fetch_available_blocks env ch pr [] blocks st = (Inr blocks, st)"
| "fetch_available_blocks env ch pr (blockWithGrps # rest) blocks st =
     (case call_getBlockById env (blk_id (block_of_slot ch pr blockWithGrps)) st of
        (Inl e, st1) \<Rightarrow> (Inl e, st1)
      | (Inr fullBlock, st1) \<Rightarrow> fetch_available_blocks env ch pr rest (blocks @ [fullBlock]) st1)"

text \<open>\<^verbatim>\<open>for (const programRelease of programReleases)\<close>.\<close>

fun scan_program_releases ::
  "omlClient \<Rightarrow> int \<Rightarrow> programRelease list \<Rightarrow> block list \<Rightarrow> service \<Rightarrow>
   (js_error + block list) \<times> service" where
  "scan_program_releases env ch [] blocks st = (Inr blocks, st)"
| "scan_program_releases env ch (programRelease # rest) blocks st =
     (case pr_blocks programRelease of
        None \<Rightarrow> scan_program_releases env ch rest blocks st
      | Some slots \<Rightarrow>
          (if length slots > 0 then
             (case fetch_available_blocks env ch programRelease (take 5 slots) blocks st of
                (Inl e, st1) \<Rightarrow> (Inl e, st1)
              | (Inr blocks1, st1) \<Rightarrow> scan_program_releases env ch rest blocks1 st1)
           else scan_program_releases env ch rest blocks st))"

text \<open>\<^verbatim>\<open>bookingResponse.data.grid[date] || []\<close>.\<close>

definition grid_at :: "bookingGrid \<Rightarrow> string \<Rightarrow> programRelease list" where
  "grid_at grid date = (case map_of grid date of None \<Rightarrow> [] | Some programReleases \<Rightarrow> programReleases)"

text \<open>\<^verbatim>\<open>for (const date of datesInGrid)\<close>.\<close>

fun scan_dates ::
  "omlClient \<Rightarrow> int \<Rightarrow> bookingGrid \<Rightarrow> string list \<Rightarrow> block list \<Rightarrow> service \<Rightarrow>
   (js_error + block list) \<times> service" where
  "scan_dates env ch grid [] blocks st = (Inr blocks, st)"
| "scan_dates env ch grid (date # rest) blocks st =
     (case scan_program_releases env ch (grid_at grid date) blocks st of
        (Inl e, st1) \<Rightarrow> (Inl e, st1)
      | (Inr blocks1, st1) \<Rightarrow> scan_dates env ch grid rest blocks1 st1)"

definition find_blocks_error :: "js_error \<Rightarrow> js_error" where
  "find_blocks_error e = ''Pomylka pry poshuku blokiv dlia rozmishchennia: '' @ e"

definition findBlocksForPlacement ::
  "omlClient \<Rightarrow> string \<Rightarrow> string \<Rightarrow> service \<Rightarrow> (js_error + block list) \<times> service" where
  "findBlocksForPlacement env start_date end_date st =
     (case getMappedIdOrThrow ''channels'' 9 st of
        Inl e \<Rightarrow> (Inl (find_blocks_error e), st)
      | Inr omlChannelId \<Rightarrow>
          (case call_getChannelBooking env omlChannelId start_date end_date st of
             (Inl e, st1) \<Rightarrow> (Inl (find_blocks_error e), st1)
           | (Inr grid, st1) \<Rightarrow>
               (case scan_dates env omlChannelId grid (map fst grid) [] st1 of
                  (Inl e, st2) \<Rightarrow> (Inl (find_blocks_error e), st2)
                | (Inr blocks, st2) \<Rightarrow> (Inr blocks, st2))))"

section \<open>Commercial matching\<close>

text \<open>\<^verbatim>\<open>for (const creative of creatives)\<close> with \<^verbatim>\<open>find(el => el.id === creative.id)\<close>.\<close>

fun match_creatives :: "commercial list \<Rightarrow> lightboxTVCreative list \<Rightarrow> commercial list \<Rightarrow> commercial list" where
  "match_creatives existing [] omlCommercials = omlCommercials"
| "match_creatives existing (creative # rest) omlCommercials =
     (case find (\<lambda>el. com_id el = cr_id creative) existing of
        Some found \<Rightarrow> match_creatives existing rest (omlCommercials @ [found])
      | None \<Rightarrow> match_creatives existing rest omlCommercials)"

definition find_commercials_error :: "js_error \<Rightarrow> js_error" where
  "find_commercials_error e = ''Pomylka pry poshuku komertsiinykh materialiv: '' @ e"

definition findAndMapCommercials ::
  "omlClient \<Rightarrow> lightboxTVCreative list \<Rightarrow> service \<Rightarrow> (js_error + commercial list) \<times> service" where
  "findAndMapCommercials env creatives st =
     (case call_getCommercials env (Some 10000) st of
        (Inl e, st1) \<Rightarrow> (Inl (find_commercials_error e), st1)
      | (Inr existingCommercials, st1) \<Rightarrow> (Inr (match_creatives existingCommercials creatives []), st1))"

section \<open>Spot reservation\<close>

text \<open>\<^verbatim>\<open>mediaplan?.commercials?.[0]\<close>.\<close>

definition first_commercial :: "mediaplan option \<Rightarrow> commercial option" where
  "first_commercial mediaplan =
     (case mediaplan of
        None \<Rightarrow> None
      | Some m \<Rightarrow>
          (case mp_commercials m of
             None \<Rightarrow> None
           | Some cs \<Rightarrow> (case cs of [] \<Rightarrow> None | c # others \<Rightarrow> Some c)))"

text \<open>The body sent by the service.\<close>

definition plain_spotData :: "int \<Rightarrow> int \<Rightarrow> spotData" where
  "plain_spotData commercial_id mediaplan_id =
     \<lparr> sd_commercial_id = commercial_id, sd_mediaplan_id = mediaplan_id,
       sd_position = None, sd_priority = None, sd_auction_coeff = None, sd_force = None \<rparr>"

text \<open>
  The request description logged when the attachment fails. \<open>extra\<close> is the text of the
  further body fields of the older variant (empty in the service).
\<close>

text \<open>
  The continuation lines of the template literal keep the indentation of the source
  file: 12 spaces in the service, 20 in the older variant.
\<close>

definition curl_indent :: string where
  "curl_indent = replicate 12 CHR '' ''"

definition trigger_curl_indent :: string where
  "trigger_curl_indent = replicate 20 CHR '' ''"

definition spot_body_json :: "int \<Rightarrow> int \<Rightarrow> string \<Rightarrow> string" where
  "spot_body_json commercial_id mediaplan_id extra =
     ''{'' @ dquote @ ''commercial_id'' @ dquote @ '':'' @ show_int commercial_id @ '','' @
     dquote @ ''mediaplan_id'' @ dquote @ '':'' @ show_int mediaplan_id @ extra @ ''}''"

definition curlRequest :: "string \<Rightarrow> string \<Rightarrow> int option \<Rightarrow> string \<Rightarrow> string \<Rightarrow> string" where
  "curlRequest indent baseUrl blockId token body =
     ''curl -X POST '' @ dquote @ baseUrl @ ''/api/blocks/'' @ show_opt_int blockId @ ''/spots'' @
       dquote @ '' '' @ backslash @ newline @
     indent @ ''-H '' @ dquote @ ''Authorization: Bearer '' @ token @ dquote @ '' '' @
       backslash @ newline @
     indent @ ''-H '' @ dquote @ ''Content-Type: application/json'' @ dquote @ '' '' @
       backslash @ newline @
     indent @ ''-d '' @ [CHR 0x27] @ body @ [CHR 0x27]"

text \<open>\<^verbatim>\<open>this.omlClient.getToken() || "TOKEN_NOT_AVAILABLE"\<close>.\<close>

definition token_or_default :: "omlClient \<Rightarrow> service \<Rightarrow> string" where
  "token_or_default env st =
     (case getToken env (trace st) of
        None \<Rightarrow> ''TOKEN_NOT_AVAILABLE''
      | Some t \<Rightarrow> if t = [] then ''TOKEN_NOT_AVAILABLE'' else t)"

definition spot_error_line :: "int option \<Rightarrow> js_error \<Rightarrow> string" where
  "spot_error_line blockId e =
     ''Pomylka bronuvannia spotu v blotsi '' @ show_opt_int blockId @ '': '' @ e"

definition spot_request_line :: "string \<Rightarrow> string" where
  "spot_request_line curl = ''Zapyt, shcho vyklykav pomylku: '' @ curl"

definition log_attach_failure ::
  "omlClient \<Rightarrow> string \<Rightarrow> int option \<Rightarrow> int \<Rightarrow> int \<Rightarrow> string \<Rightarrow> js_error \<Rightarrow> service \<Rightarrow>
   service" where
  "log_attach_failure env indent blockId commercial_id mediaplan_id extra e st =
     console_error
       (spot_request_line
          (curlRequest indent (omlBaseUrl (config st)) blockId (token_or_default env st)
             (spot_body_json commercial_id mediaplan_id extra)))
       (console_error (spot_error_line blockId e) st)"

definition reserve_spots_error :: "js_error \<Rightarrow> js_error" where
  "reserve_spots_error e = ''Pomylka pry bronuvanni spotiv: '' @ e"

definition reserveSpots ::
  "omlClient \<Rightarrow> block option \<Rightarrow> service \<Rightarrow> (js_error + spot list) \<times> service" where
  "reserveSpots env blk st =
     (case call_getMediaplans env 10000 st of
        (Inl e, st1) \<Rightarrow> (Inl (reserve_spots_error e), st1)
      | (Inr mediaplans, st1) \<Rightarrow>
          (let mediaplan = find (\<lambda>el. mp_id el = 42338) mediaplans;
               commercial = first_commercial mediaplan
           in case commercial of
                None \<Rightarrow> (Inr [], console_log ''not found commercial'' st1)
              | Some c \<Rightarrow>
                  (case mediaplan of
                     None \<Rightarrow> (Inr [], console_log ''not found mediaplan'' st1)
                   | Some m \<Rightarrow>
                       (case call_addSpotToBlock env (map_option blk_id blk)
                               (plain_spotData (com_id c) (mp_id m)) None st1 of
                          (Inr updatedBlock, st2) \<Rightarrow> (Inr [], st2)
                        | (Inl e, st2) \<Rightarrow>
                            (Inr [],
                             log_attach_failure env curl_indent (map_option blk_id blk) (com_id c)
                               (mp_id m) [] e st2)))))"

section \<open>The pipeline\<close>

text \<open>\<^verbatim>\<open>blocksForPlacement[0]!\<close>: \<^verbatim>\<open>undefined\<close> for an empty array.\<close>

definition first_block :: "block list \<Rightarrow> block option" where
  "first_block blocks = (case blocks of [] \<Rightarrow> None | b # others \<Rightarrow> Some b)"

definition complete_result :: integrationResult where
  "complete_result =
     \<lparr> success = True, status = Complete, project_id = None, order_id = None,
       mediaplan_ids = None, commercial_ids = None, spot_ids = None, error = None,
       details = Some ''Intehratsiia kampanii uspishno zavershena'' \<rparr>"

definition failed_result :: "js_error \<Rightarrow> string \<Rightarrow> integrationResult" where
  "failed_result msg det =
     \<lparr> success = False, status = Failed, project_id = None, order_id = None,
       mediaplan_ids = None, commercial_ids = None, spot_ids = None, error = Some msg,
       details = Some det \<rparr>"

text \<open>The progress entries of the pipeline, one definition per \<^verbatim>\<open>logProgress\<close> call.\<close>

definition log_start :: "omlClient \<Rightarrow> service \<Rightarrow> service" where
  "log_start env st = logProgress env ''start'' 0 ''Pochatok intehratsii kampanii'' st"

definition log_authentication :: "omlClient \<Rightarrow> service \<Rightarrow> service" where
  "log_authentication env st =
     logProgress env ''authentication'' 5 ''Autentyfikatsiia v OML uspishna'' st"

definition log_sync_dictionaries :: "omlClient \<Rightarrow> service \<Rightarrow> service" where
  "log_sync_dictionaries env st =
     logProgress env ''sync_dictionaries'' 15 ''Dovidnyky synkhronizovano'' st"

definition log_find_blocks :: "omlClient \<Rightarrow> nat \<Rightarrow> service \<Rightarrow> service" where
  "log_find_blocks env n st =
     logProgress env ''find_blocks'' 30
       (''Znaideno '' @ show_nat n @ '' blokiv dlia rozmishchennia'') st"

definition log_map_commercials :: "omlClient \<Rightarrow> nat \<Rightarrow> service \<Rightarrow> service" where
  "log_map_commercials env n st =
     logProgress env ''map_commercials'' 50
       (''Znaideno vidpovidnist dlia '' @ show_nat n @ '' reklamnykh materialiv'') st"

text \<open>The service logs the fixed text \<^verbatim>\<open>1\<close>; the older variant logs the number of spots.\<close>

definition log_reserve_spots :: "omlClient \<Rightarrow> string \<Rightarrow> service \<Rightarrow> service" where
  "log_reserve_spots env n st =
     logProgress env ''reserve_spots'' 80 (''Zabronovano '' @ n @ '' spotiv v OML'') st"

definition log_complete :: "omlClient \<Rightarrow> service \<Rightarrow> service" where
  "log_complete env st = logProgress env ''complete'' 100 ''Intehratsiia uspishno zavershena'' st"

definition log_error :: "omlClient \<Rightarrow> js_error \<Rightarrow> service \<Rightarrow> service" where
  "log_error env msg st = logProgress env ''error'' (- 1) (''Pomylka intehratsii: '' @ msg) st"

text \<open>The body of the \<^verbatim>\<open>try\<close> block of \<^verbatim>\<open>IntegrationService.handleCampaignPublish\<close>.\<close>

definition publish_steps ::
  "omlClient \<Rightarrow> lightboxTVCampaign \<Rightarrow> lightboxTVCreative list \<Rightarrow> service \<Rightarrow>
   (js_error + integrationResult) \<times> service" where
  "publish_steps env campaign creatives st =
     (case authenticate env (log_start env st) of
        (Inl e, st1) \<Rightarrow> (Inl e, st1)
      | (Inr u1, st1) \<Rightarrow>
     (case syncReferenceDictionaries env campaign creatives (log_authentication env st1) of
        (Inl e, st2) \<Rightarrow> (Inl e, st2)
      | (Inr u2, st2) \<Rightarrow>
     (case findBlocksForPlacement env (cmp_start_date campaign) (cmp_end_date campaign)
             (log_sync_dictionaries env st2) of
        (Inl e, st3) \<Rightarrow> (Inl e, st3)
      | (Inr blocksForPlacement, st3) \<Rightarrow>
     (case findAndMapCommercials env creatives
             (log_find_blocks env (length blocksForPlacement) st3) of
        (Inl e, st4) \<Rightarrow> (Inl e, st4)
      | (Inr commercials, st4) \<Rightarrow>
     (case reserveSpots env (first_block blocksForPlacement)
             (log_map_commercials env (length commercials) st4) of
        (Inl e, st5) \<Rightarrow> (Inl e, st5)
      | (Inr spots, st5) \<Rightarrow>
          (Inr complete_result, log_complete env (log_reserve_spots env ''1'' st5)))))))"

definition handleCampaignPublish ::
  "omlClient \<Rightarrow> lightboxTVCampaign \<Rightarrow> lightboxTVCreative list \<Rightarrow> service \<Rightarrow>
   integrationResult \<times> service" where
  "handleCampaignPublish env campaign creatives st =
     (case publish_steps env campaign creatives st of
        (Inr result, st1) \<Rightarrow> (result, st1)
      | (Inl msg, st1) \<Rightarrow>
          (let st2 = log_error env msg st1
           in (failed_result msg (getErrorDetails msg st2), st2)))"

section \<open>The older variant: \<^verbatim>\<open>LightboxCampaignTrigger\<close>\<close>

text \<open>
  The stand-alone class shares the synchronisation, the block search, the cache
  accessors and the progress log with the service, word for word. It differs in the
  three methods below and in being constructed anew for every publication.
\<close>

text \<open>The whole catalogue is returned when it is not empty; the creatives are not read.\<close>

definition trigger_findAndMapCommercials ::
  "omlClient \<Rightarrow> lightboxTVCreative list \<Rightarrow> service \<Rightarrow> (js_error + commercial list) \<times> service" where
  "trigger_findAndMapCommercials env creatives st =
     (case call_getCommercials env None st of
        (Inl e, st1) \<Rightarrow> (Inl (find_commercials_error e), st1)
      | (Inr existingCommercials, st1) \<Rightarrow>
          (Inr (if length existingCommercials > 0 then [] @ existingCommercials else []), st1))"

text \<open>The loop of \<^verbatim>\<open>findCommercialForPlacement\<close>: the last media plan with blocks wins.\<close>

fun scan_mediaplans ::
  "omlClient \<Rightarrow> mediaplan list \<Rightarrow> block option \<Rightarrow> mediaplan option \<Rightarrow> service \<Rightarrow>
   (js_error + block option \<times> mediaplan option) \<times> service" where
  "scan_mediaplans env [] blk mediaplanResult st = (Inr (blk, mediaplanResult), st)"
| "scan_mediaplans env (mediaplan # rest) blk mediaplanResult st =
     (if (case mp_commercials mediaplan of None \<Rightarrow> True | Some cs \<Rightarrow> length cs \<le> 0)
      then scan_mediaplans env rest blk mediaplanResult st
      else
        (case findBlocksForPlacement env (mp_date_from mediaplan) (mp_date_to mediaplan) st of
           (Inl e, st1) \<Rightarrow> (Inl e, st1)
         | (Inr blocks, st1) \<Rightarrow>
             (if length blocks = 0 then scan_mediaplans env rest blk mediaplanResult st1
              else scan_mediaplans env rest (first_block blocks) (Some mediaplan) st1)))"

definition findCommercialForPlacement ::
  "omlClient \<Rightarrow> mediaplan list \<Rightarrow> service \<Rightarrow>
   (js_error + commercial option \<times> mediaplan option \<times> block option) \<times> service" where
  "findCommercialForPlacement env mediaplans st =
     (case scan_mediaplans env mediaplans None None st of
        (Inl e, st1) \<Rightarrow> (Inl e, st1)
      | (Inr (blk, mediaplanResult), st1) \<Rightarrow>
          (Inr (first_commercial mediaplanResult, mediaplanResult, blk), st1))"

definition fixed_spotData :: "int \<Rightarrow> int \<Rightarrow> spotData" where
  "fixed_spotData commercial_id mediaplan_id =
     \<lparr> sd_commercial_id = commercial_id, sd_mediaplan_id = mediaplan_id,
       sd_position = Some ''1F'', sd_priority = Some 1, sd_auction_coeff = Some ''1.05'',
       sd_force = Some True \<rparr>"

definition fixed_extra_json :: string where
  "fixed_extra_json =
     '','' @ dquote @ ''position'' @ dquote @ '':'' @ dquote @ ''1F'' @ dquote @
     '','' @ dquote @ ''priority'' @ dquote @ '':1'' @
     '','' @ dquote @ ''auction_coeff'' @ dquote @ '':1.05'' @
     '','' @ dquote @ ''force'' @ dquote @ '':true''"

text \<open>\<^verbatim>\<open>console.log(addedSpot)\<close>, with the fields of the spot the code reads.\<close>

definition inspect_spot :: "spot option \<Rightarrow> string" where
  "inspect_spot s =
     (case s of
        None \<Rightarrow> ''undefined''
      | Some sp \<Rightarrow>
          ''{ id: '' @ show_int (spot_id sp) @ '', commercial_id: '' @
          show_int (spot_commercial_id sp) @ '' }'')"

text \<open>\<^verbatim>\<open>updatedBlock.spots?.find((s) => s.commercial_id === commercial.id)\<close>.\<close>

definition added_spot :: "block \<Rightarrow> commercial \<Rightarrow> spot option" where
  "added_spot updatedBlock c =
     (case blk_spots updatedBlock of
        None \<Rightarrow> None
      | Some spots \<Rightarrow> find (\<lambda>s. spot_commercial_id s = com_id c) spots)"

definition trigger_reserveSpots :: "omlClient \<Rightarrow> service \<Rightarrow> (js_error + spot list) \<times> service" where
  "trigger_reserveSpots env st =
     (case call_getMediaplans env 1000 st of
        (Inl e, st1) \<Rightarrow> (Inl (reserve_spots_error e), st1)
      | (Inr mediaplans, st1) \<Rightarrow>
     (case findCommercialForPlacement env mediaplans st1 of
        (Inl e, st2) \<Rightarrow> (Inl (reserve_spots_error e), st2)
      | (Inr (commercial, mediaplan, blk), st2) \<Rightarrow>
     (case commercial of
        None \<Rightarrow> (Inr [], console_log ''not found commercial'' st2)
      | Some c \<Rightarrow>
     (case mediaplan of
        None \<Rightarrow> (Inr [], console_log ''not found mediaplan'' st2)
      | Some m \<Rightarrow>
     (case call_addSpotToBlock env (map_option blk_id blk) (fixed_spotData (com_id c) (mp_id m))
             (Some True)
             (console_log ''trying to reserve spot'' (console_log ''found comercial'' st2)) of
        (Inr updatedBlock, st3) \<Rightarrow>
          (Inr (case added_spot updatedBlock c of None \<Rightarrow> [] | Some addedSpot \<Rightarrow> [addedSpot]),
           console_log (inspect_spot (added_spot updatedBlock c))
             (console_log ''Uspishno zabronovano spot'' st3))
      | (Inl e, st3) \<Rightarrow>
          (Inr [],
           log_attach_failure env trigger_curl_indent (map_option blk_id blk) (com_id c) (mp_id m)
             fixed_extra_json e st3))))))"

definition trigger_publish_steps ::
  "omlClient \<Rightarrow> lightboxTVCampaign \<Rightarrow> lightboxTVCreative list \<Rightarrow> service \<Rightarrow>
   (js_error + integrationResult) \<times> service" where
  "trigger_publish_steps env campaign creatives st =
     (case authenticate env (log_start env st) of
        (Inl e, st1) \<Rightarrow> (Inl e, st1)
      | (Inr u1, st1) \<Rightarrow>
     (case syncReferenceDictionaries env campaign creatives (log_authentication env st1) of
        (Inl e, st2) \<Rightarrow> (Inl e, st2)
      | (Inr u2, st2) \<Rightarrow>
     (case trigger_findAndMapCommercials env creatives (log_sync_dictionaries env st2) of
        (Inl e, st4) \<Rightarrow> (Inl e, st4)
      | (Inr commercials, st4) \<Rightarrow>
     (case trigger_reserveSpots env (log_map_commercials env (length commercials) st4) of
        (Inl e, st5) \<Rightarrow> (Inl e, st5)
      | (Inr spots, st5) \<Rightarrow>
          (Inr (complete_result
                  \<lparr> commercial_ids := Some (map com_id commercials),
                    spot_ids := Some (map spot_id spots) \<rparr>),
           log_complete env (log_reserve_spots env (show_nat (length spots)) st5))))))"

definition trigger_handleCampaignPublish ::
  "omlClient \<Rightarrow> lightboxTVCampaign \<Rightarrow> lightboxTVCreative list \<Rightarrow> service \<Rightarrow>
   integrationResult \<times> service" where
  "trigger_handleCampaignPublish env campaign creatives st =
     (case trigger_publish_steps env campaign creatives st of
        (Inr result, st1) \<Rightarrow> (result, st1)
      | (Inl msg, st1) \<Rightarrow>
          (let st2 = log_error env msg st1
           in (failed_result msg (getErrorDetails msg st2), st2)))"

text \<open>The exported function: a new trigger for every publication.\<close>

definition handleLightboxCampaignPublish ::
  "omlClient \<Rightarrow> lightboxTVCampaign \<Rightarrow> lightboxTVCreative list \<Rightarrow> integrationConfig \<Rightarrow>
   integrationResult \<times> service" where
  "handleLightboxCampaignPublish env campaignData creatives cfg =
     trigger_handleCampaignPublish env campaignData creatives (new_LightboxCampaignTrigger cfg)"

section \<open>Example data\<close>

text \<open>The campaign and creatives of \<^verbatim>\<open>publishCampaignExample\<close>.\<close>

definition example_placement_1 :: lightboxTVPlacement where
  "example_placement_1 =
     \<lparr> pl_id = 1001, pl_campaign_id = 12345, pl_channel_id = 9, pl_brand_id = 401,
       pl_target_audience_id = 501, pl_start_date = ''2025-04-24'', pl_end_date = ''2025-04-30'',
       pl_budget = 350000, pl_priority = 1, pl_creative_ids = [201] \<rparr>"

definition example_placement_2 :: lightboxTVPlacement where
  "example_placement_2 =
     \<lparr> pl_id = 1002, pl_campaign_id = 12345, pl_channel_id = 9, pl_brand_id = 401,
       pl_target_audience_id = 501, pl_start_date = ''2025-04-24'', pl_end_date = ''2025-04-30'',
       pl_budget = 650000, pl_priority = 2, pl_creative_ids = [201, 202] \<rparr>"

definition example_campaign :: lightboxTVCampaign where
  "example_campaign =
     \<lparr> cmp_id = 12345, cmp_name = ''Summer Campaign 2025'', cmp_start_date = ''2025-04-24'',
       cmp_end_date = ''2025-04-30'', cmp_budget = 1000000, cmp_advertiser_id = 101,
       cmp_status = ''draft'', cmp_creative_ids = [201, 202],
       cmp_placements = [example_placement_1, example_placement_2] \<rparr>"

definition example_creative_201 :: lightboxTVCreative where
  "example_creative_201 =
     \<lparr> cr_id = 201, cr_name = ''Summer Promo 30s'', cr_duration = 30,
       cr_file_url = ''https://storage.lightboxtv.com/creatives/summer_promo_30s.mp4'',
       cr_format = ''mp4'', cr_brand_id = 401, cr_advertiser_id = 101 \<rparr>"

definition example_creative_202 :: lightboxTVCreative where
  "example_creative_202 =
     \<lparr> cr_id = 202, cr_name = ''Summer Promo 15s'', cr_duration = 15,
       cr_file_url = ''https://storage.lightboxtv.com/creatives/summer_promo_15s.mp4'',
       cr_format = ''mp4'', cr_brand_id = 401, cr_advertiser_id = 101 \<rparr>"

definition example_creatives :: "lightboxTVCreative list" where
  "example_creatives = [example_creative_201, example_creative_202]"

text \<open>
  An external platform on which the whole pipeline succeeds: one entry per dictionary,
  one commercial with id 201, the media plan 42338 carrying it, and a grid with one
  programme of six slots.
\<close>

definition commercial_201 :: commercial where
  "commercial_201 = \<lparr> com_id = 201, com_name = ''Summer Promo 30s'', com_duration = 30 \<rparr>"

definition commercial_201_copy :: commercial where
  "commercial_201_copy = \<lparr> com_id = 201, com_name = ''Summer Promo 30s (v2)'', com_duration = 30 \<rparr>"

definition mediaplan_42338 :: mediaplan where
  "mediaplan_42338 =
     \<lparr> mp_id = 42338, mp_date_from = ''2025-04-24'', mp_date_to = ''2025-04-30'',
       mp_commercials = Some [commercial_201] \<rparr>"

definition slot :: "int \<Rightarrow> blockWithGrps" where
  "slot i = \<lparr> bwg_block_id = i, bwg_block_date_start_at = ''2025-04-26'', bwg_block_duration = 180 \<rparr>"

definition full_block :: "int \<Rightarrow> block" where
  "full_block i =
     \<lparr> blk_id = i, blk_channel_id = 77, blk_program_release_id = 5,
       blk_date_start_at = ''2025-04-26'', blk_duration = 180, blk_spots = None \<rparr>"

definition example_grid :: bookingGrid where
  "example_grid =
     [(''2025-04-26'',
       [\<lparr> program_release_id = 5,
          pr_blocks = Some [slot 1, slot 2, slot 3, slot 4, slot 5, slot 6] \<rparr>])]"

definition good_client :: omlClient where
  "good_client =
     \<lparr> login = (\<lambda>tr u p. Inr ()),
       getAdvertisers = (\<lambda>tr. Inr [\<lparr> ref_id = 11, ref_name = ''Advertiser'' \<rparr>]),
       getBrands = (\<lambda>tr. Inr [\<lparr> ref_id = 44, ref_name = ''Brand'' \<rparr>]),
       getChannels = (\<lambda>tr. Inr [\<lparr> ref_id = 77, ref_name = ''Channel'' \<rparr>]),
       getTargetAudiences = (\<lambda>tr. Inr [\<lparr> ref_id = 55, ref_name = ''Audience'' \<rparr>]),
       getChannelBooking = (\<lambda>tr ch d1 d2. Inr example_grid),
       getBlockById = (\<lambda>tr i. Inr (full_block i)),
       getCommercials = (\<lambda>tr per_page. Inr [commercial_201]),
       getMediaplans = (\<lambda>tr per_page. Inr [mediaplan_42338]),
       addSpotToBlock = (\<lambda>tr b d f.
          Inr ((full_block (case b of None \<Rightarrow> 0 | Some i \<Rightarrow> i))
                 \<lparr> blk_spots := Some [\<lparr> spot_id = 900, spot_commercial_id = sd_commercial_id d \<rparr>] \<rparr>)),
       getToken = (\<lambda>tr. Some ''jwt''),
       now = (\<lambda>n. ''2025-04-26T07:20:00.000Z'') \<rparr>"

text \<open>The process environment with no variable set.\<close>

definition no_env :: "string \<Rightarrow> string option" where
  "no_env key = None"

text \<open>Variations of it: the login is rejected.\<close>

definition rejecting_client :: omlClient where
  "rejecting_client = good_client \<lparr> login := (\<lambda>tr u p. Inl ''401 Unauthorized'') \<rparr>"

text \<open>The catalogue lists two records under the id 201.\<close>

definition duplicate_catalog_client :: omlClient where
  "duplicate_catalog_client =
     good_client \<lparr> getCommercials := (\<lambda>tr per_page. Inr [commercial_201, commercial_201_copy]) \<rparr>"

text \<open>The spot attachment is refused.\<close>

definition attach_failing_client :: omlClient where
  "attach_failing_client = good_client \<lparr> addSpotToBlock := (\<lambda>tr b d f. Inl ''422 Unprocessable'') \<rparr>"

text \<open>No brand is listed.\<close>

definition no_brand_client :: omlClient where
  "no_brand_client = good_client \<lparr> getBrands := (\<lambda>tr. Inr []) \<rparr>"

text \<open>The booking grid is empty.\<close>

definition empty_grid_client :: omlClient where
  "empty_grid_client = good_client \<lparr> getChannelBooking := (\<lambda>tr ch d1 d2. Inr []) \<rparr>"

section \<open>The four dictionaries, uniformly\<close>

text \<open>
  The four synchronisation loops have one shape. \<open>sync_loop\<close> is that shape, with the
  table name, the stub call, the listing call, the listing's answer and the error text
  as parameters; the theorems relate each loop of the source to it.
\<close>

fun sync_loop ::
  "string \<Rightarrow> (int \<Rightarrow> call) \<Rightarrow> call \<Rightarrow> (call list \<Rightarrow> js_error + omlRef list) \<Rightarrow> (int \<Rightarrow> js_error) \<Rightarrow>
   int list \<Rightarrow> service \<Rightarrow> (js_error + unit) \<times> service" where
  "sync_loop ty fetch get answer not_found [] st = (Inr (), st)"
| "sync_loop ty fetch get answer not_found (k # rest) st =
     (if cache_has ty k st then sync_loop ty fetch get answer not_found rest st
      else
        (case answer (trace st @ [fetch k]) of
           Inl e \<Rightarrow> (Inl e, record_call get (record_call (fetch k) st))
         | Inr [] \<Rightarrow> (Inl (not_found k), record_call get (record_call (fetch k) st))
         | Inr (a # others) \<Rightarrow>
             sync_loop ty fetch get answer not_found rest
               (cache_set ty k (ref_id a) (record_call get (record_call (fetch k) st)))))"

datatype entity = Advertisers | Brands | Channels | TargetAudiences

fun table_name :: "entity \<Rightarrow> string" where
  "table_name Advertisers = ''advertisers''"
| "table_name Brands = ''brands''"
| "table_name Channels = ''channels''"
| "table_name TargetAudiences = ''targetAudiences''"

fun sync_of :: "entity \<Rightarrow> omlClient \<Rightarrow> int list \<Rightarrow> service \<Rightarrow> (js_error + unit) \<times> service" where
  "sync_of Advertisers = syncAdvertisers"
| "sync_of Brands = syncBrands"
| "sync_of Channels = syncChannels"
| "sync_of TargetAudiences = syncTargetAudiences"

text \<open>The stub call for a local id.\<close>

fun fetch_of :: "entity \<Rightarrow> int \<Rightarrow> call" where
  "fetch_of Advertisers k = FetchLightboxAdvertiser k"
| "fetch_of Brands k = FetchLightboxBrand k"
| "fetch_of Channels k = FetchLightboxChannel k"
| "fetch_of TargetAudiences k = FetchLightboxTargetAudience k"

text \<open>The remote listing of an entity type.\<close>

fun listing_of :: "entity \<Rightarrow> call" where
  "listing_of Advertisers = GetAdvertisers"
| "listing_of Brands = GetBrands"
| "listing_of Channels = GetChannels"
| "listing_of TargetAudiences = GetTargetAudiences"

fun answer_of :: "entity \<Rightarrow> omlClient \<Rightarrow> call list \<Rightarrow> js_error + omlRef list" where
  "answer_of Advertisers env = getAdvertisers env"
| "answer_of Brands env = getBrands env"
| "answer_of Channels env = getChannels env"
| "answer_of TargetAudiences env = getTargetAudiences env"

fun not_found_of :: "entity \<Rightarrow> int \<Rightarrow> js_error" where
  "not_found_of Advertisers k = advertiser_not_found (''Advertiser '' @ show_int k)"
| "not_found_of Brands k = brand_not_found (''Brand '' @ show_int k)"
| "not_found_of Channels k = channel_not_found (''Channel '' @ show_int k)"
| "not_found_of TargetAudiences k = target_audience_not_found (''TargetAudience '' @ show_int k)"

text \<open>
  The remote lookup made for one local id of an entity type: the stub call for that id,
  then the listing.
\<close>

definition lookup_calls :: "entity \<times> int \<Rightarrow> call list" where
  "lookup_calls ek = [fetch_of (fst ek) (snd ek), listing_of (fst ek)]"

text \<open>
  Synchronisation calls made one after the other within a run: the run ends at the
  first error, as the \<^verbatim>\<open>try\<close> blocks of the pipeline make it.
\<close>

fun sync_sequence ::
  "omlClient \<Rightarrow> (entity \<times> int list) list \<Rightarrow> service \<Rightarrow> (js_error + unit) \<times> service" where
  "sync_sequence env [] st = (Inr (), st)"
| "sync_sequence env ((e, ids) # ops) st =
     (case sync_of e env ids st of
        (Inl err, st1) \<Rightarrow> (Inl err, st1)
      | (Inr u, st1) \<Rightarrow> sync_sequence env ops st1)"

text \<open>The four calls of \<^verbatim>\<open>syncReferenceDictionaries\<close>, in its order.\<close>

definition dictionary_syncs ::
  "lightboxTVCampaign \<Rightarrow> lightboxTVCreative list \<Rightarrow> (entity \<times> int list) list" where
  "dictionary_syncs campaign creatives =
     [(Advertisers, [cmp_advertiser_id campaign]),
      (Brands, brandIds_of campaign creatives),
      (Channels, map pl_channel_id (cmp_placements campaign)),
      (TargetAudiences, map pl_target_audience_id (cmp_placements campaign))]"

text \<open>All four tables exist, as the constructor leaves them.\<close>

definition tables_present :: "service \<Rightarrow> bool" where
  "tables_present st = (\<forall>e. map_of (mappingCache st) (table_name e) \<noteq> None)"

section \<open>The block search, flattened\<close>

text \<open>
  The specification of the block search: the slots looked up for one programme entry
  are its first five; the grid is read date by date, entry by entry, slot by slot.
\<close>

definition entry_slots :: "programRelease \<Rightarrow> int list" where
  "entry_slots programRelease =
     (case pr_blocks programRelease of
        None \<Rightarrow> []
      | Some slots \<Rightarrow> map bwg_block_id (take 5 slots))"

definition grid_entries :: "bookingGrid \<Rightarrow> programRelease list" where
  "grid_entries grid = concat (map (grid_at grid) (map fst grid))"

definition slots_in_grid_order :: "bookingGrid \<Rightarrow> int list" where
  "slots_in_grid_order grid = concat (map entry_slots (grid_entries grid))"

text \<open>Detail lookups made one after the other, each answer appended to the result.\<close>

fun fetch_details ::
  "omlClient \<Rightarrow> int list \<Rightarrow> block list \<Rightarrow> service \<Rightarrow> (js_error + block list) \<times> service" where
  "fetch_details env [] blocks st = (Inr blocks, st)"
| "fetch_details env (i # rest) blocks st =
     (case call_getBlockById env i st of
        (Inl e, st1) \<Rightarrow> (Inl e, st1)
      | (Inr fullBlock, st1) \<Rightarrow> fetch_details env rest (blocks @ [fullBlock]) st1)"


section \<open>Calls of the later steps\<close>


text \<open>
  What an operation may do to the instance: the configuration stays, progress entries,
  calls and console lines are only appended, and a mapping keeps its value.
\<close>

definition grows_to :: "service \<Rightarrow> service \<Rightarrow> bool" where
  "grows_to st st' =
     (config st' = config st
      \<and> (\<exists>entries. progressLog st' = progressLog st @ entries)
      \<and> (\<exists>calls. trace st' = trace st @ calls)
      \<and> (\<forall>ty k v. getMappedIdOrThrow ty k st = Inr v \<longrightarrow> getMappedIdOrThrow ty k st' = Inr v)
      \<and> (tables_present st \<longrightarrow> tables_present st'))"

text \<open>
  An external platform that accepts the login and answers every listing and lookup,
  each dictionary listing with at least one entry.
\<close>

definition always_answers :: "omlClient \<Rightarrow> bool" where
  "always_answers env =
     ((\<forall>tr u p. login env tr u p = Inr ())
      \<and> (\<forall>e tr. \<exists>a others. answer_of e env tr = Inr (a # others))
      \<and> (\<forall>tr ch d1 d2. \<exists>grid. getChannelBooking env tr ch d1 d2 = Inr grid)
      \<and> (\<forall>tr i. \<exists>b. getBlockById env tr i = Inr b)
      \<and> (\<forall>tr per_page. \<exists>cs. getCommercials env tr per_page = Inr cs)
      \<and> (\<forall>tr per_page. \<exists>ms. getMediaplans env tr per_page = Inr ms))"

text \<open>The booking-grid request is refused.\<close>

definition booking_failing_client :: omlClient where
  "booking_failing_client =
     good_client \<lparr> getChannelBooking := (\<lambda>tr ch d1 d2. Inl ''503 Service Unavailable'') \<rparr>"

text \<open>
  The grid is empty and the listing holds two plans under the id 42338: the first
  without commercials, the second with one.
\<close>

definition mediaplan_42338_empty :: mediaplan where
  "mediaplan_42338_empty =
     \<lparr> mp_id = 42338, mp_date_from = ''2025-04-01'', mp_date_to = ''2025-04-10'',
       mp_commercials = Some [] \<rparr>"

definition two_plans_client :: omlClient where
  "two_plans_client =
     empty_grid_client
       \<lparr> getMediaplans := (\<lambda>tr per_page. Inr [mediaplan_42338_empty, mediaplan_42338]) \<rparr>"

text \<open>The spot attachment calls.\<close>

fun attach_call :: "call \<Rightarrow> bool" where
  "attach_call (AddSpotToBlock b d f) = True"
| "attach_call c = False"

text \<open>Every dictionary listing, whenever asked, has at least one entry.\<close>

definition dictionaries_listed :: "omlClient \<Rightarrow> bool" where
  "dictionaries_listed env = (\<forall>e tr. \<exists>a others. answer_of e env tr = Inr (a # others))"

section \<open>Reverse lookup\<close>

lemma first_with_value_Some:
  "first_with_value omlId mapping = Some lbxId \<Longrightarrow> (lbxId, omlId) \<in> set mapping"
  by (induction omlId mapping rule: first_with_value.induct) (auto split: if_splits)

lemma first_with_value_None:
  "(first_with_value omlId mapping = None) = (omlId \<notin> snd ` set mapping)"
  by (induction omlId mapping rule: first_with_value.induct) (auto simp: image_iff)

lemma getReverseMappedId_no_table:
  "map_of (mappingCache st) entityType = None \<Longrightarrow> getReverseMappedId entityType omlId st = None"
  by (simp add: getReverseMappedId_def)

text \<open>
  C9. For an entity type with a table, \<^verbatim>\<open>getReverseMappedId\<close> returns \<^verbatim>\<open>null\<close> exactly
  when no entry of the table has the remote id as its value; and when no two local ids
  are mapped to the same remote id, it returns a local id exactly when that local id is
  mapped to the remote id, so the answer is the unique such local id.
\<close>

theorem getReverseMappedId_unique:
  assumes table: "map_of (mappingCache st) entityType = Some mapping"
      and inj: "\<forall>l1 l2 r. (l1, r) \<in> set mapping \<and> (l2, r) \<in> set mapping \<longrightarrow> l1 = l2"
  shows "(getReverseMappedId entityType omlId st = Some lbxId) = ((lbxId, omlId) \<in> set mapping)
       \<and> (getReverseMappedId entityType omlId st = None) = (omlId \<notin> snd ` set mapping)"
proof -
  have eq: "getReverseMappedId entityType omlId st = first_with_value omlId mapping"
    using table by (simp add: getReverseMappedId_def)
  have "(first_with_value omlId mapping = Some lbxId) = ((lbxId, omlId) \<in> set mapping)"
  proof
    assume "first_with_value omlId mapping = Some lbxId"
    then show "(lbxId, omlId) \<in> set mapping" by (rule first_with_value_Some)
  next
    assume mem: "(lbxId, omlId) \<in> set mapping"
    then have "omlId \<in> snd ` set mapping" by force
    then obtain l where l: "first_with_value omlId mapping = Some l"
      using first_with_value_None [of omlId mapping] by (cases "first_with_value omlId mapping") auto
    then have "(l, omlId) \<in> set mapping" by (rule first_with_value_Some)
    with mem inj have "l = lbxId" by blast
    with l show "first_with_value omlId mapping = Some lbxId" by simp
  qed
  then show ?thesis using eq first_with_value_None [of omlId mapping] by simp
qed

theorem getReverseMappedId_unique_witness:
  "getReverseMappedId ''channels'' 78
     ((new_IntegrationService no_env)
        \<lparr> mappingCache := [(''advertisers'', []), (''channels'', [(9, 77), (10, 78)])] \<rparr>) = Some 10
   \<and> getReverseMappedId ''channels'' 79
     ((new_IntegrationService no_env)
        \<lparr> mappingCache := [(''advertisers'', []), (''channels'', [(9, 77), (10, 78)])] \<rparr>) = None"
proof -
  let ?st = "(new_IntegrationService no_env)
        \<lparr> mappingCache := [(''advertisers'', []), (''channels'', [(9, 77), (10, 78)])] \<rparr>"
  have table: "map_of (mappingCache ?st) ''channels'' = Some [(9, 77), (10, 78)]"
    by simp
  have inj: "\<forall>l1 l2 r. (l1, r) \<in> set [(9::int, 77::int), (10, 78)] \<and> (l2, r) \<in> set [(9, 77), (10, 78)]
       \<longrightarrow> l1 = l2"
    by auto
  show ?thesis
    using getReverseMappedId_unique [OF table inj, of 78 10]
          getReverseMappedId_unique [OF table inj, of 79 0]
    by simp
qed

section \<open>Which fields each primitive changes\<close>

lemma record_call_fields [simp]:
  "trace (record_call c st) = trace st @ [c]"
  "config (record_call c st) = config st"
  "mappingCache (record_call c st) = mappingCache st"
  "progressLog (record_call c st) = progressLog st"
  "console (record_call c st) = console st"
  by (simp_all add: record_call_def)

lemma console_log_fields [simp]:
  "trace (console_log l st) = trace st"
  "config (console_log l st) = config st"
  "mappingCache (console_log l st) = mappingCache st"
  "progressLog (console_log l st) = progressLog st"
  "console (console_log l st) = console st @ [l]"
  by (simp_all add: console_log_def)

lemma console_error_fields [simp]:
  "trace (console_error l st) = trace st"
  "config (console_error l st) = config st"
  "mappingCache (console_error l st) = mappingCache st"
  "progressLog (console_error l st) = progressLog st"
  "console (console_error l st) = console st @ [l]"
  by (simp_all add: console_error_def)

lemma logProgress_fields [simp]:
  "trace (logProgress env s p m st) = trace st"
  "config (logProgress env s p m st) = config st"
  "mappingCache (logProgress env s p m st) = mappingCache st"
  "progressLog (logProgress env s p m st) =
     progressLog st @ [\<lparr> step = s, progress = p, message = m,
                          timestamp = now env (length (progressLog st)) \<rparr>]"
  by (simp_all add: logProgress_def Let_def split: option.splits)

lemma logProgress_console:
  "console (logProgress env s p m st) =
     (case progressCallback (config st) of
        None \<Rightarrow> console st
      | Some callback \<Rightarrow>
          console st @ [callback \<lparr> step = s, progress = p, message = m,
                                   timestamp = now env (length (progressLog st)) \<rparr>])"
  by (simp add: logProgress_def Let_def split: option.splits)

lemma log_attach_failure_fields [simp]:
  "trace (log_attach_failure env i b c m x e st) = trace st"
  "config (log_attach_failure env i b c m x e st) = config st"
  "mappingCache (log_attach_failure env i b c m x e st) = mappingCache st"
  "progressLog (log_attach_failure env i b c m x e st) = progressLog st"
  by (simp_all add: log_attach_failure_def)

section \<open>Failure handling of the pipeline\<close>

lemma slice_last3_snoc:
  "slice_last3 (xs @ [x]) = drop (length xs - 2) xs @ [x]"
  by (simp add: slice_last3_def)

text \<open>
  Where an error of the \<^verbatim>\<open>try\<close> block comes from: it is the error of one of the five
  steps, raised after the steps before it have succeeded.
\<close>

lemma publish_steps_error_origin:
  "(publish_steps env campaign creatives st = (Inl msg, st')) =
   (authenticate env (log_start env st) = (Inl msg, st')
    \<or> (\<exists>s1. authenticate env (log_start env st) = (Inr (), s1)
         \<and> (syncReferenceDictionaries env campaign creatives (log_authentication env s1)
               = (Inl msg, st')
            \<or> (\<exists>s2. syncReferenceDictionaries env campaign creatives (log_authentication env s1)
                       = (Inr (), s2)
                 \<and> (findBlocksForPlacement env (cmp_start_date campaign) (cmp_end_date campaign)
                       (log_sync_dictionaries env s2) = (Inl msg, st')
                    \<or> (\<exists>blocks s3.
                          findBlocksForPlacement env (cmp_start_date campaign)
                            (cmp_end_date campaign) (log_sync_dictionaries env s2)
                            = (Inr blocks, s3)
                        \<and> (findAndMapCommercials env creatives
                              (log_find_blocks env (length blocks) s3) = (Inl msg, st')
                           \<or> (\<exists>cs s4.
                                 findAndMapCommercials env creatives
                                   (log_find_blocks env (length blocks) s3) = (Inr cs, s4)
                               \<and> reserveSpots env (first_block blocks)
                                   (log_map_commercials env (length cs) s4)
                                   = (Inl msg, st')))))))))"
  by (auto simp: publish_steps_def split: prod.splits sum.splits)

lemma authenticate_failure:
  "login env (trace st) (omlUsername (config st)) (omlPassword (config st)) = Inl e \<Longrightarrow>
   fst (authenticate env st) = Inl (''Pomylka autentyfikatsii v OML: '' @ e)"
  by (simp add: authenticate_def call_login_def)

section \<open>Commercial matching\<close>

lemma match_creatives_eq:
  "match_creatives existing creatives acc =
   acc @ List.map_filter (\<lambda>creative. find (\<lambda>el. com_id el = cr_id creative) existing) creatives"
  by (induction existing creatives acc rule: match_creatives.induct)
     (simp_all add: List.map_filter_simps split: option.splits)

lemma find_id_member:
  "find (\<lambda>el. com_id el = i) catalog = Some c \<Longrightarrow> c \<in> set catalog \<and> com_id c = i"
  by (induction catalog) (auto split: if_splits)

lemma find_id_distinct:
  "distinct (map com_id catalog) \<Longrightarrow> c \<in> set catalog \<Longrightarrow>
   find (\<lambda>el. com_id el = com_id c) catalog = Some c"
  by (induction catalog) (auto simp: image_iff)

lemma set_map_filter_find_subset:
  "set (List.map_filter (\<lambda>creative. find (\<lambda>el. com_id el = cr_id creative) catalog) creatives)
   \<subseteq> {c \<in> set catalog. \<exists>creative \<in> set creatives. com_id c = cr_id creative}"
proof
  fix c
  assume "c \<in> set (List.map_filter
                     (\<lambda>creative. find (\<lambda>el. com_id el = cr_id creative) catalog) creatives)"
  then obtain creative where cr: "creative \<in> set creatives"
    and f: "find (\<lambda>el. com_id el = cr_id creative) catalog = Some c"
    by (auto simp: List.map_filter_def)
  from find_id_member [OF f] cr
  show "c \<in> {c \<in> set catalog. \<exists>creative \<in> set creatives. com_id c = cr_id creative}"
    by blast
qed

lemma set_map_filter_find_distinct:
  assumes "distinct (map com_id catalog)"
  shows "set (List.map_filter (\<lambda>creative. find (\<lambda>el. com_id el = cr_id creative) catalog) creatives)
   = {c \<in> set catalog. \<exists>creative \<in> set creatives. com_id c = cr_id creative}"
proof
  show "set (List.map_filter (\<lambda>creative. find (\<lambda>el. com_id el = cr_id creative) catalog) creatives)
   \<subseteq> {c \<in> set catalog. \<exists>creative \<in> set creatives. com_id c = cr_id creative}"
    by (rule set_map_filter_find_subset)
next
  show "{c \<in> set catalog. \<exists>creative \<in> set creatives. com_id c = cr_id creative}
    \<subseteq> set (List.map_filter (\<lambda>creative. find (\<lambda>el. com_id el = cr_id creative) catalog) creatives)"
  proof
    fix c assume "c \<in> {c \<in> set catalog. \<exists>creative \<in> set creatives. com_id c = cr_id creative}"
    then obtain creative where c: "c \<in> set catalog" and cr: "creative \<in> set creatives"
      and eq: "com_id c = cr_id creative" by auto
    from find_id_distinct [OF assms c] eq
    have "find (\<lambda>el. com_id el = cr_id creative) catalog = Some c" by simp
    with cr show "c \<in> set (List.map_filter
        (\<lambda>creative. find (\<lambda>el. com_id el = cr_id creative) catalog) creatives)"
      by (force simp: List.map_filter_def)
  qed
qed

text \<open>
  C1, as amended. When the catalogue request succeeds, \<^verbatim>\<open>findAndMapCommercials\<close> returns,
  in the order of the creatives, the first catalogue record whose id equals the
  creative's id, for every creative that has one. Every returned record is a catalogue
  record whose id is the id of some creative; when the catalogue ids are pairwise
  distinct the returned records are exactly those; and for creatives with ids 201 and
  202 and a catalogue holding the single record 201 the result is that one record.
\<close>

theorem findAndMapCommercials_first_match:
  assumes "getCommercials env (trace st) (Some 10000) = Inr catalog"
  shows "\<exists>matched.
           findAndMapCommercials env creatives st =
             (Inr matched, record_call (GetCommercials (Some 10000)) st)
         \<and> matched = List.map_filter
                        (\<lambda>creative. find (\<lambda>el. com_id el = cr_id creative) catalog) creatives
         \<and> set matched \<subseteq> {c \<in> set catalog. \<exists>creative \<in> set creatives. com_id c = cr_id creative}
         \<and> (distinct (map com_id catalog) \<longrightarrow>
              set matched = {c \<in> set catalog. \<exists>creative \<in> set creatives. com_id c = cr_id creative})
         \<and> (\<forall>c. map cr_id creatives = [201, 202] \<and> catalog = [c] \<and> com_id c = 201 \<longrightarrow>
              matched = [c])"
proof -
  let ?m = "List.map_filter (\<lambda>creative. find (\<lambda>el. com_id el = cr_id creative) catalog) creatives"
  have run: "findAndMapCommercials env creatives st =
               (Inr ?m, record_call (GetCommercials (Some 10000)) st)"
    using assms by (simp add: findAndMapCommercials_def call_getCommercials_def match_creatives_eq)
  have ex: "\<forall>c. map cr_id creatives = [201, 202] \<and> catalog = [c] \<and> com_id c = 201 \<longrightarrow> ?m = [c]"
    by (auto simp: List.map_filter_simps)
  show ?thesis
    using run ex set_map_filter_find_subset [of catalog creatives]
      set_map_filter_find_distinct [of catalog creatives]
    by blast
qed

theorem findAndMapCommercials_first_match_witness:
  "findAndMapCommercials good_client example_creatives (new_IntegrationService no_env) =
     (Inr [commercial_201], record_call (GetCommercials (Some 10000)) (new_IntegrationService no_env))"
proof -
  have h: "getCommercials good_client (trace (new_IntegrationService no_env)) (Some 10000)
             = Inr [commercial_201]"
    by (simp add: good_client_def)
  have ids: "map cr_id example_creatives = [201, 202] \<and> [commercial_201] = [commercial_201]
             \<and> com_id commercial_201 = 201"
    by (simp add: example_creatives_def example_creative_201_def example_creative_202_def
          commercial_201_def)
  from findAndMapCommercials_first_match [OF h, of example_creatives] ids
  show ?thesis by auto
qed

text \<open>
  A catalogue that lists two records under the id 201: only the first is returned, so
  the second is a catalogue record with the id of an input creative that is not in the
  result.
\<close>

theorem findAndMapCommercials_duplicate_id_counterexample:
  "fst (findAndMapCommercials duplicate_catalog_client [example_creative_201]
          (new_IntegrationService no_env)) = Inr [commercial_201]
   \<and> getCommercials duplicate_catalog_client (trace (new_IntegrationService no_env)) (Some 10000)
       = Inr [commercial_201, commercial_201_copy]
   \<and> com_id commercial_201_copy = cr_id example_creative_201
   \<and> commercial_201_copy \<notin> set [commercial_201]"
  by (simp add: findAndMapCommercials_def call_getCommercials_def duplicate_catalog_client_def
        good_client_def commercial_201_def commercial_201_copy_def example_creative_201_def)

text \<open>The older variant returns the whole catalogue, whatever the creatives.\<close>

lemma trigger_findAndMapCommercials_whole_catalog:
  assumes "getCommercials env (trace st) None = Inr catalog"
  shows "trigger_findAndMapCommercials env creatives st =
           (Inr catalog, record_call (GetCommercials None) st)"
  using assms by (simp add: trigger_findAndMapCommercials_def call_getCommercials_def)

section \<open>Spot reservation\<close>

lemma first_commercial_None_mediaplan [simp]: "first_commercial None = None"
  by (simp add: first_commercial_def)

text \<open>The older variant swallows the refusal in the same way.\<close>

lemma trigger_reserveSpots_swallows_attach_failure:
  assumes "getMediaplans env (trace st) 1000 = Inr mediaplans"
      and "findCommercialForPlacement env mediaplans (record_call (GetMediaplans 1000) st)
             = (Inr (commercial, mediaplan, blk), st2)"
  shows "(commercial = None \<or> mediaplan = None \<longrightarrow> fst (trigger_reserveSpots env st) = Inr [])
       \<and> (\<forall>c m e. commercial = Some c \<and> mediaplan = Some m \<and>
            addSpotToBlock env (trace st2) (map_option blk_id blk)
              (fixed_spotData (com_id c) (mp_id m)) (Some True) = Inl e \<longrightarrow>
            fst (trigger_reserveSpots env st) = Inr [])"
  using assms
  by (auto simp: trigger_reserveSpots_def call_getMediaplans_def call_addSpotToBlock_def
        split: option.splits)

section \<open>The identifier cache\<close>

lemma cache_set_fields [simp]:
  "trace (cache_set ty k v st) = trace st"
  "config (cache_set ty k v st) = config st"
  "progressLog (cache_set ty k v st) = progressLog st"
  "console (cache_set ty k v st) = console st"
  by (simp_all add: cache_set_def split: option.splits)

lemma cache_has_iff_mapped:
  "cache_has ty k st = (\<exists>v. getMappedIdOrThrow ty k st = Inr v)"
proof (cases "map_of (mappingCache st) ty")
  case None
  then show ?thesis by (simp add: cache_has_def getMappedIdOrThrow_def)
next
  case (Some m)
  have "(k \<in> fst ` set m) = (map_of m k \<noteq> None)"
    by (simp add: map_of_eq_None_iff)
  then show ?thesis
    by (cases "map_of m k") (simp_all add: cache_has_def getMappedIdOrThrow_def Some)
qed

lemma getMappedIdOrThrow_record_call [simp]:
  "getMappedIdOrThrow ty k (record_call c st) = getMappedIdOrThrow ty k st"
  by (simp add: getMappedIdOrThrow_def)

lemma getMappedIdOrThrow_logProgress [simp]:
  "getMappedIdOrThrow ty k (logProgress env s p m st) = getMappedIdOrThrow ty k st"
  by (simp add: getMappedIdOrThrow_def)

lemma cache_has_record_call [simp]:
  "cache_has ty k (record_call c st) = cache_has ty k st"
  by (simp add: cache_has_def)

lemma table_cache_set:
  "(map_of (mappingCache (cache_set ty k v st)) ty' = None) = (map_of (mappingCache st) ty' = None)"
  by (simp add: cache_set_def AList.update_conv' split: option.splits)

lemma getMappedIdOrThrow_cache_set:
  assumes "map_of (mappingCache st) ty \<noteq> None"
  shows "getMappedIdOrThrow ty' k' (cache_set ty k v st) =
           (if ty' = ty \<and> k' = k then Inr v else getMappedIdOrThrow ty' k' st)"
  using assms
  by (auto simp: getMappedIdOrThrow_def cache_set_def AList.update_conv' split: option.splits)

lemma cache_has_cache_set:
  assumes "map_of (mappingCache st) ty \<noteq> None"
  shows "cache_has ty' k' (cache_set ty k v st) = (ty' = ty \<and> k' = k \<or> cache_has ty' k' st)"
  using assms by (auto simp: cache_has_iff_mapped getMappedIdOrThrow_cache_set)

lemma getMappedIdOrThrow_cache_set_keep:
  "getMappedIdOrThrow ty' k' st = Inr w \<Longrightarrow> \<not> cache_has ty k st \<Longrightarrow>
   getMappedIdOrThrow ty' k' (cache_set ty k v st) = Inr w"
proof (cases "map_of (mappingCache st) ty")
  case None
  then show "getMappedIdOrThrow ty' k' st = Inr w \<Longrightarrow> ?thesis"
    by (simp add: cache_set_def)
next
  case (Some m)
  assume a: "getMappedIdOrThrow ty' k' st = Inr w" and b: "\<not> cache_has ty k st"
  from Some have t: "map_of (mappingCache st) ty \<noteq> None" by simp
  from a b have "\<not> (ty' = ty \<and> k' = k)" by (auto simp: cache_has_iff_mapped)
  with a show ?thesis by (auto simp: getMappedIdOrThrow_cache_set [OF t])
qed

section \<open>The synchronisation loops\<close>

lemma syncAdvertisers_loop:
  "syncAdvertisers env ids st =
   sync_loop ''advertisers'' FetchLightboxAdvertiser GetAdvertisers (getAdvertisers env)
     (not_found_of Advertisers) ids st"
  by (induction ids arbitrary: st)
     (simp_all add: fetchLightboxAdvertiser_def call_getAdvertisers_def
        split: sum.splits list.splits)

lemma syncBrands_loop:
  "syncBrands env ids st =
   sync_loop ''brands'' FetchLightboxBrand GetBrands (getBrands env)
     (not_found_of Brands) ids st"
  by (induction ids arbitrary: st)
     (simp_all add: fetchLightboxBrand_def call_getBrands_def split: sum.splits list.splits)

lemma syncChannels_loop:
  "syncChannels env ids st =
   sync_loop ''channels'' FetchLightboxChannel GetChannels (getChannels env)
     (not_found_of Channels) ids st"
  by (induction ids arbitrary: st)
     (simp_all add: fetchLightboxChannel_def call_getChannels_def split: sum.splits list.splits)

lemma syncTargetAudiences_loop:
  "syncTargetAudiences env ids st =
   sync_loop ''targetAudiences'' FetchLightboxTargetAudience GetTargetAudiences
     (getTargetAudiences env) (not_found_of TargetAudiences) ids st"
  by (induction ids arbitrary: st)
     (simp_all add: fetchLightboxTargetAudience_def call_getTargetAudiences_def
        split: sum.splits list.splits)

lemma sync_of_loop:
  "sync_of e env ids st =
   sync_loop (table_name e) (fetch_of e) (listing_of e) (answer_of e env) (not_found_of e) ids st"
proof (cases e)
  case Advertisers
  have "fetch_of Advertisers = FetchLightboxAdvertiser" by (rule ext) simp
  with Advertisers show ?thesis by (simp add: syncAdvertisers_loop)
next
  case Brands
  have "fetch_of Brands = FetchLightboxBrand" by (rule ext) simp
  with Brands show ?thesis by (simp add: syncBrands_loop)
next
  case Channels
  have "fetch_of Channels = FetchLightboxChannel" by (rule ext) simp
  with Channels show ?thesis by (simp add: syncChannels_loop)
next
  case TargetAudiences
  have "fetch_of TargetAudiences = FetchLightboxTargetAudience" by (rule ext) simp
  with TargetAudiences show ?thesis by (simp add: syncTargetAudiences_loop)
qed

lemma sync_loop_frame:
  "sync_loop ty fetch get answer nf ids st = (r, st') \<Longrightarrow>
   config st' = config st \<and> progressLog st' = progressLog st \<and> console st' = console st"
proof (induction ids arbitrary: st)
  case Nil
  then show ?case by simp
next
  case (Cons k rest)
  show ?case
  proof (cases "cache_has ty k st")
    case True
    with Cons show ?thesis by simp
  next
    case False
    let ?st2 = "record_call get (record_call (fetch k) st)"
    show ?thesis
    proof (cases "answer (trace st @ [fetch k])")
      case (Inl e)
      with False Cons.prems show ?thesis by auto
    next
      case (Inr listing)
      show ?thesis
      proof (cases listing)
        case Nil
        with False Inr Cons.prems show ?thesis by auto
      next
        case (Cons a others)
        with False Inr Cons.prems
        have "sync_loop ty fetch get answer nf rest (cache_set ty k (ref_id a) ?st2) = (r, st')"
          by simp
        from Cons.IH [OF this] show ?thesis by simp
      qed
    qed
  qed
qed

lemma sync_loop_tables:
  "sync_loop ty fetch get answer nf ids st = (r, st') \<Longrightarrow>
   (map_of (mappingCache st') ty' = None) = (map_of (mappingCache st) ty' = None)"
proof (induction ids arbitrary: st)
  case Nil
  then show ?case by simp
next
  case (Cons k rest)
  show ?case
  proof (cases "cache_has ty k st")
    case True
    with Cons show ?thesis by simp
  next
    case False
    let ?st2 = "record_call get (record_call (fetch k) st)"
    show ?thesis
    proof (cases "answer (trace st @ [fetch k])")
      case (Inl e)
      with False Cons.prems show ?thesis by auto
    next
      case (Inr listing)
      show ?thesis
      proof (cases listing)
        case Nil
        with False Inr Cons.prems show ?thesis by auto
      next
        case (Cons a others)
        with False Inr Cons.prems
        have "sync_loop ty fetch get answer nf rest (cache_set ty k (ref_id a) ?st2) = (r, st')"
          by simp
        from Cons.IH [OF this] show ?thesis by (simp add: table_cache_set)
      qed
    qed
  qed
qed

lemma sync_loop_write_once:
  "sync_loop ty fetch get answer nf ids st = (r, st') \<Longrightarrow>
   getMappedIdOrThrow ty' k' st = Inr w \<Longrightarrow> getMappedIdOrThrow ty' k' st' = Inr w"
proof (induction ids arbitrary: st)
  case Nil
  then show ?case by simp
next
  case (Cons k rest)
  show ?case
  proof (cases "cache_has ty k st")
    case True
    with Cons show ?thesis by simp
  next
    case False
    let ?st2 = "record_call get (record_call (fetch k) st)"
    show ?thesis
    proof (cases "answer (trace st @ [fetch k])")
      case (Inl e)
      with False Cons.prems show ?thesis by auto
    next
      case (Inr listing)
      show ?thesis
      proof (cases listing)
        case Nil
        with False Inr Cons.prems show ?thesis by auto
      next
        case (Cons a others)
        with False Inr Cons.prems
        have run: "sync_loop ty fetch get answer nf rest (cache_set ty k (ref_id a) ?st2) = (r, st')"
          by simp
        from False have "\<not> cache_has ty k ?st2" by simp
        with Cons.prems(2)
        have "getMappedIdOrThrow ty' k' (cache_set ty k (ref_id a) ?st2) = Inr w"
          by (simp add: getMappedIdOrThrow_cache_set_keep)
        from Cons.IH [OF run this] show ?thesis .
      qed
    qed
  qed
qed

lemma sync_loop_monotone:
  "sync_loop ty fetch get answer nf ids st = (r, st') \<Longrightarrow>
   cache_has ty' k' st \<Longrightarrow> cache_has ty' k' st'"
  by (auto simp: cache_has_iff_mapped dest: sync_loop_write_once)

lemma sync_loop_success:
  "sync_loop ty fetch get answer nf ids st = (Inr u, st') \<Longrightarrow>
   map_of (mappingCache st) ty \<noteq> None \<Longrightarrow> \<forall>k \<in> set ids. cache_has ty k st'"
proof (induction ids arbitrary: st)
  case Nil
  then show ?case by simp
next
  case (Cons k rest)
  show ?case
  proof (cases "cache_has ty k st")
    case True
    with Cons.prems have run: "sync_loop ty fetch get answer nf rest st = (Inr u, st')" by simp
    from sync_loop_monotone [OF run True] Cons.IH [OF run Cons.prems(2)]
    show ?thesis by simp
  next
    case False
    let ?st2 = "record_call get (record_call (fetch k) st)"
    show ?thesis
    proof (cases "answer (trace st @ [fetch k])")
      case (Inl e)
      with False Cons.prems show ?thesis by auto
    next
      case (Inr listing)
      show ?thesis
      proof (cases listing)
        case Nil
        with False Inr Cons.prems show ?thesis by auto
      next
        case (Cons a others)
        let ?st3 = "cache_set ty k (ref_id a) ?st2"
        from Cons False Inr Cons.prems
        have run: "sync_loop ty fetch get answer nf rest ?st3 = (Inr u, st')"
          by simp
        from Cons.prems(2) have t2: "map_of (mappingCache ?st2) ty \<noteq> None" by simp
        then have t3: "map_of (mappingCache ?st3) ty \<noteq> None" by (simp add: table_cache_set)
        have "cache_has ty k ?st3" by (simp add: cache_has_cache_set [OF t2])
        from sync_loop_monotone [OF run this] Cons.IH [OF run t3]
        show ?thesis by simp
      qed
    qed
  qed
qed

lemma sync_loop_lookups:
  "sync_loop ty fetch get answer nf ids st = (r, st') \<Longrightarrow>
   map_of (mappingCache st) ty \<noteq> None \<Longrightarrow>
   \<exists>ks. trace st' = trace st @ concat (map (\<lambda>k. [fetch k, get]) ks)
      \<and> distinct ks \<and> set ks \<subseteq> set ids \<and> (\<forall>k \<in> set ks. \<not> cache_has ty k st)"
proof (induction ids arbitrary: st)
  case Nil
  then have "trace st' = trace st @ concat (map (\<lambda>k. [fetch k, get]) [])" by simp
  then show ?case by fastforce
next
  case (Cons k rest)
  show ?case
  proof (cases "cache_has ty k st")
    case True
    with Cons.prems have run: "sync_loop ty fetch get answer nf rest st = (r, st')" by simp
    from Cons.IH [OF run Cons.prems(2)] show ?thesis by auto
  next
    case False
    let ?st2 = "record_call get (record_call (fetch k) st)"
    have one: "trace ?st2 = trace st @ concat (map (\<lambda>k. [fetch k, get]) [k])" by simp
    show ?thesis
    proof (cases "answer (trace st @ [fetch k])")
      case (Inl e)
      with False Cons.prems have "st' = ?st2" by auto
      with one False
      have "trace st' = trace st @ concat (map (\<lambda>k. [fetch k, get]) [k])
          \<and> distinct [k] \<and> set [k] \<subseteq> set (k # rest) \<and> (\<forall>k \<in> set [k]. \<not> cache_has ty k st)"
        by simp
      then show ?thesis by blast
    next
      case (Inr listing)
      show ?thesis
      proof (cases listing)
        case Nil
        with Inr False Cons.prems have "st' = ?st2" by auto
        with one False
        have "trace st' = trace st @ concat (map (\<lambda>k. [fetch k, get]) [k])
            \<and> distinct [k] \<and> set [k] \<subseteq> set (k # rest) \<and> (\<forall>k \<in> set [k]. \<not> cache_has ty k st)"
          by simp
        then show ?thesis by blast
      next
        case (Cons a others)
        let ?st3 = "cache_set ty k (ref_id a) ?st2"
        from Cons False Inr Cons.prems
        have run: "sync_loop ty fetch get answer nf rest ?st3 = (r, st')"
          by simp
        from Cons.prems(2) have t2: "map_of (mappingCache ?st2) ty \<noteq> None" by simp
        then have t3: "map_of (mappingCache ?st3) ty \<noteq> None" by (simp add: table_cache_set)
        from Cons.IH [OF run t3] obtain ks where
          tr: "trace st' = trace ?st3 @ concat (map (\<lambda>k. [fetch k, get]) ks)"
          and d: "distinct ks" and sub: "set ks \<subseteq> set rest"
          and fresh: "\<forall>k' \<in> set ks. \<not> cache_has ty k' ?st3"
          by blast
        from fresh have fresh': "\<forall>k' \<in> set ks. k' \<noteq> k \<and> \<not> cache_has ty k' st"
          by (simp add: cache_has_cache_set [OF t2])
        from tr have "trace st' = trace st @ concat (map (\<lambda>k. [fetch k, get]) (k # ks))"
          by simp
        moreover from d fresh' have "distinct (k # ks)" by auto
        moreover from sub have "set (k # ks) \<subseteq> set (k # rest)" by auto
        moreover from fresh' False have "\<forall>k' \<in> set (k # ks). \<not> cache_has ty k' st" by simp
        ultimately show ?thesis by blast
      qed
    qed
  qed
qed

lemma sync_loop_all_mapped:
  "\<forall>k \<in> set ids. cache_has ty k st \<Longrightarrow>
   sync_loop ty fetch get answer nf ids st = (Inr (), st)"
  by (induction ids) simp_all

section \<open>Write-once memoisation\<close>

lemma tables_present_new_IntegrationService: "tables_present (new_IntegrationService penv)"
proof -
  have "map_of empty_cache (table_name e) \<noteq> None" for e
    by (cases e) (simp_all add: empty_cache_def)
  then show ?thesis by (simp add: tables_present_def new_IntegrationService_def)
qed

lemma tables_present_new_LightboxCampaignTrigger: "tables_present (new_LightboxCampaignTrigger cfg)"
proof -
  have "map_of empty_cache (table_name e) \<noteq> None" for e
    by (cases e) (simp_all add: empty_cache_def)
  then show ?thesis by (simp add: tables_present_def new_LightboxCampaignTrigger_def)
qed

lemma syncReferenceDictionaries_sequence:
  "snd (syncReferenceDictionaries env campaign creatives st)
     = snd (sync_sequence env (dictionary_syncs campaign creatives) st)
   \<and> fst (syncReferenceDictionaries env campaign creatives st)
     = (case fst (sync_sequence env (dictionary_syncs campaign creatives) st) of
          Inl e \<Rightarrow> Inl (sync_error e)
        | Inr u \<Rightarrow> Inr ())"
  by (simp add: syncReferenceDictionaries_def dictionary_syncs_def split: prod.splits sum.splits)

lemma lookup_calls_pairs:
  "concat (map (\<lambda>k. [fetch_of e k, listing_of e]) ks) = concat (map lookup_calls (map (Pair e) ks))"
  by (induction ks) (simp_all add: lookup_calls_def)

lemma sync_of_tables_present:
  "sync_of e env ids st = (r, st') \<Longrightarrow> tables_present st \<Longrightarrow> tables_present st'"
  unfolding tables_present_def sync_of_loop
  by (simp add: sync_loop_tables)

lemma sync_of_call:
  assumes run: "sync_of e env ids st = (r, st')"
      and present: "tables_present st"
  shows "\<exists>ks. trace st' = trace st @ concat (map lookup_calls (map (Pair e) ks))
      \<and> distinct ks \<and> set ks \<subseteq> set ids \<and> (\<forall>k \<in> set ks. \<not> cache_has (table_name e) k st)"
proof -
  from present have t: "map_of (mappingCache st) (table_name e) \<noteq> None"
    by (simp add: tables_present_def)
  from sync_loop_lookups [OF run [unfolded sync_of_loop] t]
  show ?thesis by (simp add: lookup_calls_pairs)
qed

text \<open>
  C4. In a run of synchronisation calls that starts with the four tables in place,
  the calls made are the remote lookups of a list of (entity type, local id) pairs in
  which no pair occurs twice; each pair was asked for by one of the calls, and none of
  them was mapped when the run began. Every mapping present at the beginning is still
  there, with the same remote id, at the end. So a mapped id is never looked up again
  and never overwritten, within one call or across calls with overlapping ids.
\<close>

theorem sync_memoization:
  assumes present: "tables_present st"
      and run: "sync_sequence env ops st = (r, st')"
  shows "\<exists>lookups.
           trace st' = trace st @ concat (map lookup_calls lookups)
         \<and> distinct lookups
         \<and> (\<forall>ek \<in> set lookups.
              \<not> cache_has (table_name (fst ek)) (snd ek) st
              \<and> (\<exists>ids. (fst ek, ids) \<in> set ops \<and> snd ek \<in> set ids))
         \<and> (\<forall>ty k v. getMappedIdOrThrow ty k st = Inr v \<longrightarrow> getMappedIdOrThrow ty k st' = Inr v)"
  using present run
proof (induction ops arbitrary: st)
  case Nil
  then have "trace st' = trace st @ concat (map lookup_calls [])" and "st' = st" by simp_all
  then show ?case by fastforce
next
  case (Cons op ops)
  obtain e ids where op: "op = (e, ids)" by (cases op)
  obtain r1 st1 where first: "sync_of e env ids st = (r1, st1)" by (cases "sync_of e env ids st")
  from sync_of_call [OF first Cons.prems(1)] obtain ks where
    tr1: "trace st1 = trace st @ concat (map lookup_calls (map (Pair e) ks))"
    and d1: "distinct ks" and sub1: "set ks \<subseteq> set ids"
    and fresh1: "\<forall>k \<in> set ks. \<not> cache_has (table_name e) k st"
    by blast
  have keep1: "\<And>ty k v. getMappedIdOrThrow ty k st = Inr v \<Longrightarrow> getMappedIdOrThrow ty k st1 = Inr v"
    using first unfolding sync_of_loop by (rule sync_loop_write_once)
  have mono1: "\<And>ty k. cache_has ty k st \<Longrightarrow> cache_has ty k st1"
    using first unfolding sync_of_loop by (rule sync_loop_monotone)
  have asked1: "\<forall>ek \<in> set (map (Pair e) ks).
       \<not> cache_has (table_name (fst ek)) (snd ek) st
       \<and> (\<exists>ids'. (fst ek, ids') \<in> set (op # ops) \<and> snd ek \<in> set ids')"
    using fresh1 sub1 op by auto
  have dist1: "distinct (map (Pair e) ks)"
    using d1 by (simp add: distinct_map inj_on_def)
  show ?case
  proof (cases r1)
    case (Inl err)
    with first op Cons.prems(2) have "st' = st1" by simp
    with tr1 dist1 asked1 keep1 show ?thesis by blast
  next
    case (Inr u)
    with first op Cons.prems(2) have rest: "sync_sequence env ops st1 = (r, st')" by simp
    from sync_of_tables_present [OF first Cons.prems(1)] have p1: "tables_present st1" .
    from Cons.IH [OF p1 rest] obtain lookups where
      tr2: "trace st' = trace st1 @ concat (map lookup_calls lookups)"
      and d2: "distinct lookups"
      and fresh2: "\<forall>ek \<in> set lookups.
              \<not> cache_has (table_name (fst ek)) (snd ek) st1
              \<and> (\<exists>ids. (fst ek, ids) \<in> set ops \<and> snd ek \<in> set ids)"
      and keep2: "\<forall>ty k v. getMappedIdOrThrow ty k st1 = Inr v \<longrightarrow>
                     getMappedIdOrThrow ty k st' = Inr v"
      by blast
    from Cons.prems(1) have t: "map_of (mappingCache st) (table_name e) \<noteq> None"
      by (simp add: tables_present_def)
    from first Inr have "sync_loop (table_name e) (fetch_of e) (listing_of e) (answer_of e env)
                           (not_found_of e) ids st = (Inr u, st1)"
      by (simp add: sync_of_loop)
    from sync_loop_success [OF this t] have cached: "\<forall>k \<in> set ids. cache_has (table_name e) k st1" .
    let ?all = "map (Pair e) ks @ lookups"
    have a: "trace st' = trace st @ concat (map lookup_calls ?all)"
      using tr1 tr2 by simp
    have disjoint: "set (map (Pair e) ks) \<inter> set lookups = {}"
    proof (rule ccontr)
      assume "set (map (Pair e) ks) \<inter> set lookups \<noteq> {}"
      then obtain k where k: "k \<in> set ks" and mem: "(e, k) \<in> set lookups" by auto
      from k sub1 cached have "cache_has (table_name e) k st1" by auto
      moreover from mem fresh2 have "\<not> cache_has (table_name e) k st1" by force
      ultimately show False by simp
    qed
    have b: "distinct ?all"
      using dist1 d2 disjoint by simp
    have c: "\<forall>ek \<in> set ?all.
              \<not> cache_has (table_name (fst ek)) (snd ek) st
              \<and> (\<exists>ids'. (fst ek, ids') \<in> set (op # ops) \<and> snd ek \<in> set ids')"
    proof
      fix ek assume "ek \<in> set ?all"
      then consider "ek \<in> set (map (Pair e) ks)" | "ek \<in> set lookups" by auto
      then show "\<not> cache_has (table_name (fst ek)) (snd ek) st
              \<and> (\<exists>ids'. (fst ek, ids') \<in> set (op # ops) \<and> snd ek \<in> set ids')"
      proof cases
        case 1
        with asked1 show ?thesis by blast
      next
        case 2
        with fresh2 have n: "\<not> cache_has (table_name (fst ek)) (snd ek) st1"
          and ex: "\<exists>ids. (fst ek, ids) \<in> set ops \<and> snd ek \<in> set ids" by auto
        from n mono1 have "\<not> cache_has (table_name (fst ek)) (snd ek) st" by blast
        with ex show ?thesis by auto
      qed
    qed
    have d: "\<forall>ty k v. getMappedIdOrThrow ty k st = Inr v \<longrightarrow> getMappedIdOrThrow ty k st' = Inr v"
      using keep1 keep2 by blast
    from a b c d show ?thesis by blast
  qed
qed


theorem sync_memoization_witness:
  "trace (snd (sync_sequence good_client [(Channels, [9, 9]), (Channels, [9, 10])]
                 (new_IntegrationService no_env)))
     = [FetchLightboxChannel 9, GetChannels, FetchLightboxChannel 10, GetChannels]
   \<and> (\<exists>lookups.
         trace (snd (sync_sequence good_client [(Channels, [9, 9]), (Channels, [9, 10])]
                       (new_IntegrationService no_env)))
           = trace (new_IntegrationService no_env) @ concat (map lookup_calls lookups)
         \<and> distinct lookups)"
proof -
  let ?ops = "[(Channels, [9, 9]), (Channels, [9::int, 10])]"
  let ?st = "new_IntegrationService no_env"
  have run: "sync_sequence good_client ?ops ?st
               = (fst (sync_sequence good_client ?ops ?st), snd (sync_sequence good_client ?ops ?st))"
    by simp
  have tr: "trace (snd (sync_sequence good_client ?ops ?st))
     = [FetchLightboxChannel 9, GetChannels, FetchLightboxChannel 10, GetChannels]"
    by (simp add: cache_has_def cache_set_def fetchLightboxChannel_def call_getChannels_def
          good_client_def new_IntegrationService_def empty_cache_def record_call_def)
  from sync_memoization [OF tables_present_new_IntegrationService run]
  have "\<exists>lookups.
         trace (snd (sync_sequence good_client ?ops ?st))
           = trace ?st @ concat (map lookup_calls lookups)
         \<and> distinct lookups"
    by blast
  with tr show ?thesis by blast
qed

section \<open>Block search\<close>

lemma fetch_available_blocks_flat:
  "fetch_available_blocks env ch pr slots blocks st =
   fetch_details env (map bwg_block_id slots) blocks st"
  by (induction slots arbitrary: blocks st)
     (simp_all add: block_of_slot_def split: prod.splits sum.splits)

lemma fetch_details_append:
  "fetch_details env (xs @ ys) blocks st =
     (case fetch_details env xs blocks st of
        (Inl e, st1) \<Rightarrow> (Inl e, st1)
      | (Inr blocks1, st1) \<Rightarrow> fetch_details env ys blocks1 st1)"
  by (induction xs arbitrary: blocks st) (simp_all split: prod.splits sum.splits)

lemma scan_program_releases_flat:
  "scan_program_releases env ch prs blocks st =
   fetch_details env (concat (map entry_slots prs)) blocks st"
proof (induction prs arbitrary: blocks st)
  case Nil
  then show ?case by simp
next
  case (Cons pr prs)
  show ?case
  proof (cases "pr_blocks pr")
    case None
    with Cons show ?thesis by (simp add: entry_slots_def)
  next
    case (Some slots)
    show ?thesis
    proof (cases "slots = []")
      case True
      with Some Cons show ?thesis by (simp add: entry_slots_def)
    next
      case False
      with Some Cons show ?thesis
        by (simp add: entry_slots_def fetch_available_blocks_flat fetch_details_append
              split: prod.splits sum.splits)
    qed
  qed
qed

lemma scan_dates_flat:
  "scan_dates env ch grid dates blocks st =
   fetch_details env (concat (map entry_slots (concat (map (grid_at grid) dates)))) blocks st"
  by (induction dates arbitrary: blocks st)
     (simp_all add: scan_program_releases_flat fetch_details_append split: prod.splits sum.splits)







lemma findBlocksForPlacement_flat:
  assumes "getMappedIdOrThrow ''channels'' 9 st = Inr ch"
      and "getChannelBooking env (trace st) ch start_date end_date = Inr grid"
  shows "findBlocksForPlacement env start_date end_date st =
           (case fetch_details env (slots_in_grid_order grid) []
                   (record_call (GetChannelBooking ch start_date end_date) st) of
              (Inl e, st2) \<Rightarrow> (Inl (find_blocks_error e), st2)
            | (Inr blocks, st2) \<Rightarrow> (Inr blocks, st2))"
  using assms
  by (simp add: findBlocksForPlacement_def call_getChannelBooking_def scan_dates_flat
        slots_in_grid_order_def grid_entries_def)

lemma good_client_fields [simp]:
  "login good_client tr u p = Inr ()"
  "getAdvertisers good_client tr = Inr [\<lparr> ref_id = 11, ref_name = ''Advertiser'' \<rparr>]"
  "getBrands good_client tr = Inr [\<lparr> ref_id = 44, ref_name = ''Brand'' \<rparr>]"
  "getChannels good_client tr = Inr [\<lparr> ref_id = 77, ref_name = ''Channel'' \<rparr>]"
  "getTargetAudiences good_client tr = Inr [\<lparr> ref_id = 55, ref_name = ''Audience'' \<rparr>]"
  "getChannelBooking good_client tr ch d1 d2 = Inr example_grid"
  "getBlockById good_client tr i = Inr (full_block i)"
  "getCommercials good_client tr per_page = Inr [commercial_201]"
  "getMediaplans good_client tr per_page2 = Inr [mediaplan_42338]"
  "getToken good_client tr = Some ''jwt''"
  by (simp_all add: good_client_def)


section \<open>What each step does to the instance\<close>

lemmas log_defs =
  log_start_def log_authentication_def log_sync_dictionaries_def log_find_blocks_def
  log_map_commercials_def log_reserve_spots_def log_complete_def log_error_def

lemma tables_present_cong:
  "mappingCache st' = mappingCache st \<Longrightarrow> tables_present st' = tables_present st"
  by (simp add: tables_present_def)

lemma getMappedIdOrThrow_cong:
  "mappingCache st' = mappingCache st \<Longrightarrow>
   getMappedIdOrThrow ty k st' = getMappedIdOrThrow ty k st"
  by (simp add: getMappedIdOrThrow_def)

lemma grows_to_refl: "grows_to st st"
  by (simp add: grows_to_def)

lemma grows_to_trans: "grows_to st st1 \<Longrightarrow> grows_to st1 st2 \<Longrightarrow> grows_to st st2"
  unfolding grows_to_def
  by (elim conjE exE) (intro conjI, simp, fastforce, fastforce, blast, blast)

lemma grows_to_same_cache:
  assumes "config st' = config st" and "mappingCache st' = mappingCache st"
      and "progressLog st' = progressLog st @ entries" and "trace st' = trace st @ calls"
  shows "grows_to st st'"
  using assms
  by (simp add: grows_to_def getMappedIdOrThrow_cong [OF assms(2)]
        tables_present_cong [OF assms(2)])

lemma grows_to_logProgress: "grows_to st (logProgress env s p m st)"
  by (rule grows_to_same_cache [where calls = "[]"]) simp_all

lemma grows_to_record_call: "grows_to st (record_call c st)"
  by (rule grows_to_same_cache [where entries = "[]"]) simp_all

lemma grows_to_console_log: "grows_to st (console_log l st)"
  by (rule grows_to_same_cache [where entries = "[]" and calls = "[]"]) simp_all

lemma grows_to_log_attach_failure: "grows_to st (log_attach_failure env i b c m x e st)"
  by (rule grows_to_same_cache [where entries = "[]" and calls = "[]"]) simp_all

lemma authenticate_result:
  "authenticate env st = (r, st') \<Longrightarrow>
   st' = record_call (Login (omlUsername (config st)) (omlPassword (config st))) st"
  by (auto simp: authenticate_def call_login_def split: sum.splits)

lemma sync_loop_calls:
  "sync_loop ty fetch get answer nf ids st = (r, st') \<Longrightarrow>
   \<exists>calls. trace st' = trace st @ calls \<and> set calls \<subseteq> range fetch \<union> {get}"
proof (induction ids arbitrary: st)
  case Nil
  then show ?case by simp
next
  case (Cons k rest)
  show ?case
  proof (cases "cache_has ty k st")
    case True
    with Cons show ?thesis by simp
  next
    case False
    let ?st2 = "record_call get (record_call (fetch k) st)"
    have two: "trace ?st2 = trace st @ [fetch k, get] \<and> set [fetch k, get] \<subseteq> range fetch \<union> {get}"
      by simp
    show ?thesis
    proof (cases "answer (trace st @ [fetch k])")
      case (Inl e)
      with False Cons.prems have "st' = ?st2" by auto
      with two show ?thesis by blast
    next
      case (Inr listing)
      show ?thesis
      proof (cases listing)
        case Nil
        with False Inr Cons.prems have "st' = ?st2" by auto
        with two show ?thesis by blast
      next
        case (Cons a others)
        with False Inr Cons.prems
        have "sync_loop ty fetch get answer nf rest (cache_set ty k (ref_id a) ?st2) = (r, st')"
          by simp
        from Cons.IH [OF this] obtain calls where
          "trace st' = trace st @ [fetch k, get] @ calls" "set calls \<subseteq> range fetch \<union> {get}"
          by auto
        then have "trace st' = trace st @ ([fetch k, get] @ calls)
                 \<and> set ([fetch k, get] @ calls) \<subseteq> range fetch \<union> {get}"
          by auto
        then show ?thesis by blast
      qed
    qed
  qed
qed


lemma sync_of_grows:
  assumes "sync_of e env ids st = (r, st')"
  shows "grows_to st st'"
proof -
  note run = assms [unfolded sync_of_loop]
  from sync_loop_frame [OF run] have "config st' = config st" "progressLog st' = progressLog st @ []"
    by simp_all
  moreover from sync_loop_calls [OF run] have "\<exists>calls. trace st' = trace st @ calls" by blast
  moreover have "\<forall>ty k v. getMappedIdOrThrow ty k st = Inr v \<longrightarrow> getMappedIdOrThrow ty k st' = Inr v"
    using sync_loop_write_once [OF run] by blast
  moreover have "tables_present st \<longrightarrow> tables_present st'"
    using sync_of_tables_present [OF assms] by blast
  ultimately show ?thesis unfolding grows_to_def by blast
qed

lemma sync_sequence_grows:
  "sync_sequence env ops st = (r, st') \<Longrightarrow> grows_to st st'"
proof (induction ops arbitrary: st)
  case Nil
  then show ?case by (simp add: grows_to_refl)
next
  case (Cons op ops)
  obtain e ids where op: "op = (e, ids)" by (cases op)
  obtain r1 st1 where first: "sync_of e env ids st = (r1, st1)" by (cases "sync_of e env ids st")
  show ?case
  proof (cases r1)
    case (Inl err)
    with first op Cons.prems have "st' = st1" by simp
    with sync_of_grows [OF first] show ?thesis by simp
  next
    case (Inr u)
    with first op Cons.prems have "sync_sequence env ops st1 = (r, st')" by simp
    from grows_to_trans [OF sync_of_grows [OF first] Cons.IH [OF this]] show ?thesis .
  qed
qed


lemma syncReferenceDictionaries_grows:
  "syncReferenceDictionaries env campaign creatives st = (r, st') \<Longrightarrow> grows_to st st'"
  using syncReferenceDictionaries_sequence [of env campaign creatives st]
        sync_sequence_grows [of env "dictionary_syncs campaign creatives" st]
  by (metis prod.collapse snd_conv)


lemma log_trace [simp]:
  "trace (log_start env st) = trace st"
  "trace (log_authentication env st) = trace st"
  "trace (log_sync_dictionaries env st) = trace st"
  "trace (log_find_blocks env n st) = trace st"
  "trace (log_map_commercials env n st) = trace st"
  "trace (log_reserve_spots env t st) = trace st"
  "trace (log_complete env st) = trace st"
  "trace (log_error env msg st) = trace st"
  by (simp_all add: log_defs)

lemma log_config [simp]:
  "config (log_start env st) = config st"
  "config (log_authentication env st) = config st"
  "config (log_sync_dictionaries env st) = config st"
  "config (log_find_blocks env n st) = config st"
  "config (log_map_commercials env n st) = config st"
  "config (log_reserve_spots env t st) = config st"
  "config (log_complete env st) = config st"
  "config (log_error env msg st) = config st"
  by (simp_all add: log_defs)

lemma log_mappingCache [simp]:
  "mappingCache (log_start env st) = mappingCache st"
  "mappingCache (log_authentication env st) = mappingCache st"
  "mappingCache (log_sync_dictionaries env st) = mappingCache st"
  "mappingCache (log_find_blocks env n st) = mappingCache st"
  "mappingCache (log_map_commercials env n st) = mappingCache st"
  "mappingCache (log_reserve_spots env t st) = mappingCache st"
  "mappingCache (log_complete env st) = mappingCache st"
  "mappingCache (log_error env msg st) = mappingCache st"
  by (simp_all add: log_defs)

lemma log_grows:
  "grows_to st (log_start env st)"
  "grows_to st (log_authentication env st)"
  "grows_to st (log_sync_dictionaries env st)"
  "grows_to st (log_find_blocks env n st)"
  "grows_to st (log_map_commercials env n st)"
  "grows_to st (log_reserve_spots env t st)"
  "grows_to st (log_complete env st)"
  "grows_to st (log_error env msg st)"
  by (simp_all add: log_defs grows_to_logProgress)

section \<open>A brand without a remote match\<close>


lemma new_IntegrationService_fields [simp]:
  "config (new_IntegrationService penv) = getOmlConfig penv"
  "mappingCache (new_IntegrationService penv) = empty_cache"
  "progressLog (new_IntegrationService penv) = []"
  "trace (new_IntegrationService penv) = []"
  "console (new_IntegrationService penv) = []"
  by (simp_all add: new_IntegrationService_def)

lemma no_brand_client_fields [simp]:
  "login no_brand_client tr u p = Inr ()"
  "getAdvertisers no_brand_client tr = Inr [\<lparr> ref_id = 11, ref_name = ''Advertiser'' \<rparr>]"
  "getBrands no_brand_client tr = Inr []"
  by (simp_all add: no_brand_client_def good_client_def)

lemma brandIds_of_example [simp]: "brandIds_of example_campaign example_creatives = [401]"
  by (simp add: brandIds_of_def example_campaign_def example_creatives_def
        example_placement_1_def example_placement_2_def example_creative_201_def
        example_creative_202_def)

section \<open>Runs on which every step succeeds\<close>

lemma sync_loop_succeeds:
  assumes "\<forall>tr. \<exists>a others. answer tr = Inr (a # others)"
  shows "\<exists>st'. sync_loop ty fetch get answer nf ids st = (Inr (), st')"
proof (induction ids arbitrary: st)
  case Nil
  then show ?case by simp
next
  case (Cons k rest)
  show ?case
  proof (cases "cache_has ty k st")
    case True
    with Cons show ?thesis by simp
  next
    case False
    from assms obtain a others where "answer (trace st @ [fetch k]) = Inr (a # others)" by blast
    with False Cons show ?thesis by simp
  qed
qed

lemma sync_of_succeeds:
  "always_answers env \<Longrightarrow> \<exists>st'. sync_of e env ids st = (Inr (), st')"
  unfolding sync_of_loop by (rule sync_loop_succeeds) (simp add: always_answers_def)

lemma sync_of_success_mapped:
  assumes "sync_of e env ids st = (Inr u, st')" and "tables_present st"
  shows "\<forall>k \<in> set ids. cache_has (table_name e) k st'"
proof -
  from assms(2) have "map_of (mappingCache st) (table_name e) \<noteq> None"
    by (simp add: tables_present_def)
  from sync_loop_success [OF assms(1) [unfolded sync_of_loop] this] show ?thesis .
qed

lemma sync_of_monotone:
  "sync_of e env ids st = (r, st') \<Longrightarrow> cache_has ty k st \<Longrightarrow> cache_has ty k st'"
  unfolding sync_of_loop by (rule sync_loop_monotone)

lemma syncReferenceDictionaries_succeeds:
  assumes "always_answers env"
  shows "\<exists>st'. syncReferenceDictionaries env campaign creatives st = (Inr (), st')"
proof -
  from sync_of_succeeds [OF assms, of Advertisers] obtain st1 where
    a: "syncAdvertisers env [cmp_advertiser_id campaign] st = (Inr (), st1)"
    by (auto simp del: syncAdvertisers.simps)
  from sync_of_succeeds [OF assms, of Brands] obtain st2 where
    b: "syncBrands env (brandIds_of campaign creatives) st1 = (Inr (), st2)" by auto
  from sync_of_succeeds [OF assms, of Channels] obtain st3 where
    c: "syncChannels env (map pl_channel_id (cmp_placements campaign)) st2 = (Inr (), st3)"
    by auto
  from sync_of_succeeds [OF assms, of TargetAudiences] obtain st4 where
    d: "syncTargetAudiences env (map pl_target_audience_id (cmp_placements campaign)) st3
          = (Inr (), st4)" by auto
  from a b c d show ?thesis
    by (simp add: syncReferenceDictionaries_def del: syncAdvertisers.simps)
qed

lemma syncReferenceDictionaries_channels_mapped:
  assumes run: "syncReferenceDictionaries env campaign creatives st = (Inr (), st')"
      and present: "tables_present st"
  shows "\<forall>p \<in> set (cmp_placements campaign). cache_has ''channels'' (pl_channel_id p) st'"
proof -
  from run obtain st1 st2 st3 where
    a: "sync_of Advertisers env [cmp_advertiser_id campaign] st = (Inr (), st1)" and
    b: "sync_of Brands env (brandIds_of campaign creatives) st1 = (Inr (), st2)" and
    c: "sync_of Channels env (map pl_channel_id (cmp_placements campaign)) st2 = (Inr (), st3)" and
    d: "sync_of TargetAudiences env (map pl_target_audience_id (cmp_placements campaign)) st3
          = (Inr (), st')"
    by (auto simp: syncReferenceDictionaries_def simp del: syncAdvertisers.simps
          split: prod.splits sum.splits)
  from sync_of_tables_present [OF b sync_of_tables_present [OF a present]]
  have "tables_present st2" .
  from sync_of_success_mapped [OF c this]
  have "\<forall>k \<in> set (map pl_channel_id (cmp_placements campaign)). cache_has ''channels'' k st3"
    by simp
  with sync_of_monotone [OF d] show ?thesis by auto
qed

lemma syncReferenceDictionaries_tables_present:
  "syncReferenceDictionaries env campaign creatives st = (r, st') \<Longrightarrow> tables_present st \<Longrightarrow>
   tables_present st'"
  using syncReferenceDictionaries_grows [of env campaign creatives st r st']
  by (simp add: grows_to_def)

lemma fetch_details_succeeds:
  assumes "\<forall>tr i. \<exists>b. getBlockById env tr i = Inr b"
  shows "\<exists>bs st'. fetch_details env ids blocks st = (Inr bs, st')"
proof (induction ids arbitrary: blocks st)
  case Nil
  then show ?case by simp
next
  case (Cons i ids)
  from assms obtain b where "getBlockById env (trace st) i = Inr b" by blast
  with Cons show ?case by (simp add: call_getBlockById_def)
qed

lemma fetch_details_grows:
  "fetch_details env ids blocks st = (r, st') \<Longrightarrow>
   config st' = config st \<and> mappingCache st' = mappingCache st
   \<and> progressLog st' = progressLog st \<and> (\<exists>calls. trace st' = trace st @ calls)"
proof (induction ids arbitrary: blocks st)
  case Nil
  then show ?case by simp
next
  case (Cons i ids)
  show ?case
  proof (cases "getBlockById env (trace st) i")
    case (Inl e)
    with Cons.prems show ?thesis by (auto simp: call_getBlockById_def)
  next
    case (Inr b)
    with Cons.prems
    have "fetch_details env ids (blocks @ [b]) (record_call (GetBlockById i) st) = (r, st')"
      by (simp add: call_getBlockById_def)
    from Cons.IH [OF this] show ?thesis by auto
  qed
qed

lemma findBlocksForPlacement_grows:
  assumes "findBlocksForPlacement env d1 d2 st = (r, st')"
  shows "config st' = config st \<and> mappingCache st' = mappingCache st
   \<and> progressLog st' = progressLog st \<and> (\<exists>calls. trace st' = trace st @ calls)"
proof (cases "getMappedIdOrThrow ''channels'' 9 st")
  case (Inl e)
  with assms show ?thesis by (auto simp: findBlocksForPlacement_def)
next
  case (Inr ch)
  show ?thesis
  proof (cases "getChannelBooking env (trace st) ch d1 d2")
    case (Inl e)
    with Inr assms show ?thesis
      by (auto simp: findBlocksForPlacement_def call_getChannelBooking_def)
  next
    case (Inr grid)
    let ?st1 = "record_call (GetChannelBooking ch d1 d2) st"
    obtain r2 st2 where fd: "fetch_details env (slots_in_grid_order grid) [] ?st1 = (r2, st2)"
      by (cases "fetch_details env (slots_in_grid_order grid) [] ?st1")
    with assms findBlocksForPlacement_flat [OF \<open>getMappedIdOrThrow ''channels'' 9 st = Inr ch\<close> Inr]
    have "st' = st2" by (auto split: sum.splits)
    with fetch_details_grows [OF fd] show ?thesis by auto
  qed
qed

lemma findBlocksForPlacement_succeeds:
  assumes "always_answers env" and "cache_has ''channels'' 9 st"
  shows "\<exists>blocks st'. findBlocksForPlacement env d1 d2 st = (Inr blocks, st')"
proof -
  from assms(2) obtain ch where ch: "getMappedIdOrThrow ''channels'' 9 st = Inr ch"
    by (auto simp: cache_has_iff_mapped)
  from assms(1) obtain grid where grid: "getChannelBooking env (trace st) ch d1 d2 = Inr grid"
    unfolding always_answers_def by blast
  from assms(1) have "\<forall>tr i. \<exists>b. getBlockById env tr i = Inr b"
    by (simp add: always_answers_def)
  from fetch_details_succeeds [OF this] obtain bs st' where
    "fetch_details env (slots_in_grid_order grid) []
       (record_call (GetChannelBooking ch d1 d2) st) = (Inr bs, st')" by blast
  then show ?thesis by (simp add: findBlocksForPlacement_flat [OF ch grid])
qed

lemma findBlocksForPlacement_empty_grid:
  assumes "getMappedIdOrThrow ''channels'' 9 st = Inr ch"
      and "getChannelBooking env (trace st) ch d1 d2 = Inr []"
  shows "findBlocksForPlacement env d1 d2 st = (Inr [], record_call (GetChannelBooking ch d1 d2) st)"
  by (simp add: findBlocksForPlacement_flat [OF assms] slots_in_grid_order_def grid_entries_def)

lemma findAndMapCommercials_result:
  "findAndMapCommercials env creatives st = (r, st') \<Longrightarrow>
   st' = record_call (GetCommercials (Some 10000)) st"
  by (auto simp: findAndMapCommercials_def call_getCommercials_def split: sum.splits)

lemma reserveSpots_grows:
  assumes "reserveSpots env blk st = (r, st')"
  shows "config st' = config st \<and> mappingCache st' = mappingCache st
   \<and> progressLog st' = progressLog st \<and> (\<exists>calls. trace st' = trace st @ calls)"
  using assms
  by (auto simp: reserveSpots_def call_getMediaplans_def call_addSpotToBlock_def Let_def
        split: sum.splits option.splits)

lemma reserveSpots_attach:
  assumes "getMediaplans env (trace st) 10000 = Inr mediaplans"
      and "find (\<lambda>el. mp_id el = 42338) mediaplans = Some m"
      and "mp_commercials m = Some (c # others)"
  shows "fst (reserveSpots env blk st) = Inr []
       \<and> trace (snd (reserveSpots env blk st)) =
           trace st @ [GetMediaplans 10000,
                       AddSpotToBlock (map_option blk_id blk) (plain_spotData (com_id c) 42338) None]"
proof -
  from assms(2) have "mp_id m = 42338" by (auto simp: find_Some_iff)
  with assms show ?thesis
    by (simp add: reserveSpots_def call_getMediaplans_def call_addSpotToBlock_def Let_def
          first_commercial_def split: sum.splits)
qed

lemma cache_has_cong:
  "mappingCache st' = mappingCache st \<Longrightarrow> cache_has ty k st' = cache_has ty k st"
  by (simp add: cache_has_def)

lemma authenticate_succeeds:
  "always_answers env \<Longrightarrow>
   authenticate env st =
     (Inr (), record_call (Login (omlUsername (config st)) (omlPassword (config st))) st)"
  by (simp add: always_answers_def authenticate_def call_login_def)

lemma findAndMapCommercials_succeeds:
  "always_answers env \<Longrightarrow>
   \<exists>cs. findAndMapCommercials env creatives st =
          (Inr cs, record_call (GetCommercials (Some 10000)) st)"
proof -
  assume "always_answers env"
  then obtain catalog where "getCommercials env (trace st) (Some 10000) = Inr catalog"
    unfolding always_answers_def by blast
  then show ?thesis by (simp add: findAndMapCommercials_def call_getCommercials_def)
qed

lemma reserveSpots_succeeds:
  "always_answers env \<Longrightarrow> \<exists>st'. reserveSpots env blk st = (Inr [], st')"
proof -
  assume "always_answers env"
  then obtain ms where "getMediaplans env (trace st) 10000 = Inr ms"
    unfolding always_answers_def by blast
  then show ?thesis
    by (simp add: reserveSpots_def call_getMediaplans_def call_addSpotToBlock_def Let_def
          split: sum.splits option.splits)
qed

lemma publish_steps_result:
  "publish_steps env campaign creatives st = (Inr result, st') \<Longrightarrow> result = complete_result"
  by (auto simp: publish_steps_def split: prod.splits sum.splits)

text \<open>
  The end-to-end success scenario: on a platform that answers everything, with the
  tables in place and a placement on channel 9, the \<^verbatim>\<open>try\<close> block runs to its end.
\<close>

lemma publish_steps_succeeds:
  assumes env: "always_answers env"
      and present: "tables_present st"
      and ch9: "9 \<in> pl_channel_id ` set (cmp_placements campaign)"
  shows "\<exists>st'. publish_steps env campaign creatives st = (Inr complete_result, st')"
proof -
  let ?st0 = "log_start env st"
  let ?st1 = "record_call (Login (omlUsername (config ?st0)) (omlPassword (config ?st0))) ?st0"
  have auth: "authenticate env ?st0 = (Inr (), ?st1)"
    by (rule authenticate_succeeds [OF env])
  have p1: "tables_present (log_authentication env ?st1)"
    using present by (simp add: tables_present_def)
  from syncReferenceDictionaries_succeeds [OF env] obtain st2 where
    sync: "syncReferenceDictionaries env campaign creatives (log_authentication env ?st1)
             = (Inr (), st2)" by blast
  from syncReferenceDictionaries_channels_mapped [OF sync p1] ch9
  have "cache_has ''channels'' 9 st2" by auto
  then have "cache_has ''channels'' 9 (log_sync_dictionaries env st2)"
    by (simp add: cache_has_def)
  from findBlocksForPlacement_succeeds [OF env this] obtain blocks st3 where
    blocks: "findBlocksForPlacement env (cmp_start_date campaign) (cmp_end_date campaign)
               (log_sync_dictionaries env st2) = (Inr blocks, st3)" by blast
  from findAndMapCommercials_succeeds [OF env] obtain cs st4 where
    coms: "findAndMapCommercials env creatives (log_find_blocks env (length blocks) st3)
             = (Inr cs, st4)" by blast
  from reserveSpots_succeeds [OF env] obtain st5 where
    spots: "reserveSpots env (first_block blocks) (log_map_commercials env (length cs) st4)
              = (Inr [], st5)" by blast
  from auth sync blocks coms spots show ?thesis
    by (simp add: publish_steps_def)
qed

section \<open>An empty block search\<close>

text \<open>
  C10, as amended. When every step up to the commercial matching succeeds, the block
  search returns the empty list, and the first plan with id 42338 in the media-plan
  listing carries at least one commercial, \<^verbatim>\<open>handleCampaignPublish\<close> does not fail: the
  attachment call is made with no block id (\<^verbatim>\<open>undefined\<close>) for that plan's first
  commercial, and the result is the complete one. Only the first plan with the id is
  read (\<^verbatim>\<open>Array.find\<close>): a plan with commercials listed after one without is not used.
\<close>

theorem publish_with_no_block:
  assumes auth: "authenticate env (log_start env st) = (Inr (), st1)"
      and sync: "syncReferenceDictionaries env campaign creatives (log_authentication env st1)
                   = (Inr (), st2)"
      and blocks: "findBlocksForPlacement env (cmp_start_date campaign) (cmp_end_date campaign)
                     (log_sync_dictionaries env st2) = (Inr [], st3)"
      and coms: "findAndMapCommercials env creatives (log_find_blocks env 0 st3)
                   = (Inr commercials, st4)"
      and plans: "getMediaplans env (trace st4) 10000 = Inr mediaplans"
      and plan: "find (\<lambda>el. mp_id el = 42338) mediaplans = Some m"
      and com: "mp_commercials m = Some (c # others)"
  shows "success (fst (handleCampaignPublish env campaign creatives st))
       \<and> status (fst (handleCampaignPublish env campaign creatives st)) = Complete
       \<and> trace (snd (handleCampaignPublish env campaign creatives st)) =
           trace st4 @ [GetMediaplans 10000,
                        AddSpotToBlock None (plain_spotData (com_id c) 42338) None]"
proof -
  let ?st4 = "log_map_commercials env (length commercials) st4"
  have plans': "getMediaplans env (trace ?st4) 10000 = Inr mediaplans"
    using plans by simp
  obtain r5 st5 where spots: "reserveSpots env None ?st4 = (r5, st5)"
    by (cases "reserveSpots env None ?st4")
  from reserveSpots_attach [OF plans' plan com, of None] spots
  have r5: "r5 = Inr []"
    and t5: "trace st5 = trace st4 @ [GetMediaplans 10000,
                        AddSpotToBlock None (plain_spotData (com_id c) 42338) None]"
    by simp_all
  from auth sync blocks coms spots r5
  have "publish_steps env campaign creatives st =
          (Inr complete_result, log_complete env (log_reserve_spots env ''1'' st5))"
    by (simp add: publish_steps_def first_block_def)
  then have "handleCampaignPublish env campaign creatives st =
          (complete_result, log_complete env (log_reserve_spots env ''1'' st5))"
    by (simp add: handleCampaignPublish_def)
  with t5 show ?thesis by (simp add: complete_result_def)
qed

lemma always_answers_empty_grid_client: "always_answers empty_grid_client"
proof -
  have "\<exists>a others. answer_of e empty_grid_client tr = Inr (a # others)" for e tr
    by (cases e) (simp_all add: empty_grid_client_def good_client_def)
  then show ?thesis
    by (simp add: always_answers_def) (simp add: empty_grid_client_def good_client_def)
qed

theorem publish_with_no_block_witness:
  "success (fst (handleCampaignPublish empty_grid_client example_campaign example_creatives
                   (new_IntegrationService no_env)))
   \<and> (\<exists>calls. trace (snd (handleCampaignPublish empty_grid_client example_campaign
                             example_creatives (new_IntegrationService no_env)))
               = calls @ [GetMediaplans 10000,
                          AddSpotToBlock None (plain_spotData 201 42338) None])"
proof -
  let ?env = "empty_grid_client"
  let ?st = "new_IntegrationService no_env"
  note env = always_answers_empty_grid_client
  let ?st0 = "log_start ?env ?st"
  let ?st1 = "record_call (Login (omlUsername (config ?st0)) (omlPassword (config ?st0))) ?st0"
  have auth: "authenticate ?env ?st0 = (Inr (), ?st1)"
    by (rule authenticate_succeeds [OF env])
  have p1: "tables_present (log_authentication ?env ?st1)"
    using tables_present_new_IntegrationService [of no_env] by (simp add: tables_present_def)
  from syncReferenceDictionaries_succeeds [OF env] obtain st2 where
    sync: "syncReferenceDictionaries ?env example_campaign example_creatives
             (log_authentication ?env ?st1) = (Inr (), st2)" by blast
  have "9 \<in> pl_channel_id ` set (cmp_placements example_campaign)"
    by (simp add: example_campaign_def example_placement_1_def)
  with syncReferenceDictionaries_channels_mapped [OF sync p1]
  have "cache_has ''channels'' 9 st2" by auto
  then obtain ch where ch: "getMappedIdOrThrow ''channels'' 9 (log_sync_dictionaries ?env st2) = Inr ch"
    by (auto simp: cache_has_iff_mapped getMappedIdOrThrow_def)
  have grid: "getChannelBooking ?env (trace (log_sync_dictionaries ?env st2)) ch
                (cmp_start_date example_campaign) (cmp_end_date example_campaign) = Inr []"
    by (simp add: empty_grid_client_def)
  note blocks = findBlocksForPlacement_empty_grid [OF ch grid]
  from findAndMapCommercials_succeeds [OF env] obtain cs st4 where
    coms: "findAndMapCommercials ?env example_creatives
             (log_find_blocks ?env 0
                (record_call (GetChannelBooking ch (cmp_start_date example_campaign)
                   (cmp_end_date example_campaign)) (log_sync_dictionaries ?env st2)))
             = (Inr cs, st4)" by blast
  have plans: "getMediaplans ?env (trace st4) 10000 = Inr [mediaplan_42338]"
    by (simp add: empty_grid_client_def good_client_def)
  have plan: "find (\<lambda>el. mp_id el = 42338) [mediaplan_42338] = Some mediaplan_42338"
    by (simp add: mediaplan_42338_def)
  have com: "mp_commercials mediaplan_42338 = Some (commercial_201 # [])"
    by (simp add: mediaplan_42338_def)
  from publish_with_no_block [OF auth sync blocks coms plans plan com]
  show ?thesis by (auto simp: commercial_201_def)
qed

section \<open>The whole pipeline only adds to the instance\<close>

lemma authenticate_grows: "authenticate env st = (r, st') \<Longrightarrow> grows_to st st'"
  by (drule authenticate_result) (simp add: grows_to_record_call)

lemma findBlocksForPlacement_grows_to:
  "findBlocksForPlacement env d1 d2 st = (r, st') \<Longrightarrow> grows_to st st'"
  by (drule findBlocksForPlacement_grows)
     (auto intro: grows_to_same_cache [where entries = "[]"])

lemma findAndMapCommercials_grows_to:
  "findAndMapCommercials env creatives st = (r, st') \<Longrightarrow> grows_to st st'"
  by (drule findAndMapCommercials_result) (simp add: grows_to_record_call)

lemma reserveSpots_grows_to:
  "reserveSpots env blk st = (r, st') \<Longrightarrow> grows_to st st'"
  by (drule reserveSpots_grows)
     (auto intro: grows_to_same_cache [where entries = "[]"])

lemma publish_steps_grows:
  assumes "publish_steps env campaign creatives st = (r, st')"
  shows "grows_to (log_start env st) st'"
proof -
  let ?s0 = "log_start env st"
  obtain r1 s1 where a: "authenticate env ?s0 = (r1, s1)" by (cases "authenticate env ?s0")
  have g1: "grows_to ?s0 s1" by (rule authenticate_grows [OF a])
  show ?thesis
  proof (cases r1)
    case (Inl e)
    with a assms have "st' = s1" by (simp add: publish_steps_def)
    with g1 show ?thesis by simp
  next
    case Inr1: (Inr u1)
    let ?s1 = "log_authentication env s1"
    obtain r2 s2 where b: "syncReferenceDictionaries env campaign creatives ?s1 = (r2, s2)"
      by (cases "syncReferenceDictionaries env campaign creatives ?s1")
    have g2: "grows_to ?s0 s2"
      using g1 log_grows(2) [of s1 env] syncReferenceDictionaries_grows [OF b]
      by (blast intro: grows_to_trans)
    show ?thesis
    proof (cases r2)
      case (Inl e)
      with a Inr1 b assms have "st' = s2" by (simp add: publish_steps_def)
      with g2 show ?thesis by simp
    next
      case Inr2: (Inr u2)
      let ?s2 = "log_sync_dictionaries env s2"
      obtain r3 s3 where c: "findBlocksForPlacement env (cmp_start_date campaign)
                               (cmp_end_date campaign) ?s2 = (r3, s3)"
        by (cases "findBlocksForPlacement env (cmp_start_date campaign)
                     (cmp_end_date campaign) ?s2")
      have g3: "grows_to ?s0 s3"
        using g2 log_grows(3) [of s2 env] findBlocksForPlacement_grows_to [OF c]
        by (blast intro: grows_to_trans)
      show ?thesis
      proof (cases r3)
        case (Inl e)
        with a Inr1 b Inr2 c assms have "st' = s3" by (simp add: publish_steps_def)
        with g3 show ?thesis by simp
      next
        case Inr3: (Inr blocks)
        let ?s3 = "log_find_blocks env (length blocks) s3"
        obtain r4 s4 where d: "findAndMapCommercials env creatives ?s3 = (r4, s4)"
          by (cases "findAndMapCommercials env creatives ?s3")
        have g4: "grows_to ?s0 s4"
          using g3 log_grows(4) [of s3 env "length blocks"] findAndMapCommercials_grows_to [OF d]
          by (blast intro: grows_to_trans)
        show ?thesis
        proof (cases r4)
          case (Inl e)
          with a Inr1 b Inr2 c Inr3 d assms have "st' = s4" by (simp add: publish_steps_def)
          with g4 show ?thesis by simp
        next
          case Inr4: (Inr cs)
          let ?s4 = "log_map_commercials env (length cs) s4"
          obtain r5 s5 where e: "reserveSpots env (first_block blocks) ?s4 = (r5, s5)"
            by (cases "reserveSpots env (first_block blocks) ?s4")
          have g5: "grows_to ?s0 s5"
            using g4 log_grows(5) [of s4 env "length cs"] reserveSpots_grows_to [OF e]
            by (blast intro: grows_to_trans)
          show ?thesis
          proof (cases r5)
            case (Inl err)
            with a Inr1 b Inr2 c Inr3 d Inr4 e assms have "st' = s5"
              by (simp add: publish_steps_def)
            with g5 show ?thesis by simp
          next
            case (Inr spots)
            with a Inr1 b Inr2 c Inr3 d Inr4 e assms
            have "st' = log_complete env (log_reserve_spots env ''1'' s5)"
              by (simp add: publish_steps_def)
            with g5 log_grows(6) [of s5 env "''1''"]
                 log_grows(7) [of "log_reserve_spots env ''1'' s5" env]
            show ?thesis by (blast intro: grows_to_trans)
          qed
        qed
      qed
    qed
  qed
qed

lemma handleCampaignPublish_grows:
  assumes "handleCampaignPublish env campaign creatives st = (r, st')"
  shows "grows_to (log_start env st) st'"
proof -
  obtain r1 s1 where steps: "publish_steps env campaign creatives st = (r1, s1)"
    by (cases "publish_steps env campaign creatives st")
  from publish_steps_grows [OF steps] have g: "grows_to (log_start env st) s1" .
  show ?thesis
  proof (cases r1)
    case (Inl msg)
    with steps assms have "st' = log_error env msg s1"
      by (simp add: handleCampaignPublish_def Let_def)
    with g log_grows(8) [of s1 env msg] show ?thesis by (blast intro: grows_to_trans)
  next
    case (Inr result)
    with steps assms have "st' = s1" by (simp add: handleCampaignPublish_def)
    with g show ?thesis by simp
  qed
qed

lemma grows_to_cache_has: "grows_to st st' \<Longrightarrow> cache_has ty k st \<Longrightarrow> cache_has ty k st'"
  by (auto simp: grows_to_def cache_has_iff_mapped)

lemma publish_steps_success_channels:
  assumes run: "publish_steps env campaign creatives st = (Inr result, st')"
      and present: "tables_present st"
  shows "\<forall>p \<in> set (cmp_placements campaign). cache_has ''channels'' (pl_channel_id p) st'"
proof -
  from run obtain s1 s2 s3 blocks s4 cs s5 spots where
    a: "authenticate env (log_start env st) = (Inr (), s1)" and
    b: "syncReferenceDictionaries env campaign creatives (log_authentication env s1) = (Inr (), s2)" and
    c: "findBlocksForPlacement env (cmp_start_date campaign) (cmp_end_date campaign)
          (log_sync_dictionaries env s2) = (Inr blocks, s3)" and
    d: "findAndMapCommercials env creatives (log_find_blocks env (length blocks) s3) = (Inr cs, s4)" and
    e: "reserveSpots env (first_block blocks) (log_map_commercials env (length cs) s4)
          = (Inr spots, s5)" and
    f: "st' = log_complete env (log_reserve_spots env ''1'' s5)"
    by (auto simp: publish_steps_def split: prod.splits sum.splits)
  from authenticate_result [OF a] present
  have "tables_present (log_authentication env s1)" by (simp add: tables_present_def)
  from syncReferenceDictionaries_channels_mapped [OF b this]
  have m2: "\<forall>p \<in> set (cmp_placements campaign). cache_has ''channels'' (pl_channel_id p) s2" .
  have "grows_to s2 st'"
    using log_grows(3) [of s2 env] findBlocksForPlacement_grows_to [OF c]
      log_grows(4) [of s3 env "length blocks"] findAndMapCommercials_grows_to [OF d]
      log_grows(5) [of s4 env "length cs"] reserveSpots_grows_to [OF e]
      log_grows(6) [of s5 env "''1''"] log_grows(7) [of "log_reserve_spots env ''1'' s5" env] f
    by (blast intro: grows_to_trans)
  with m2 show ?thesis by (blast intro: grows_to_cache_has)
qed

lemma always_answers_good_client: "always_answers good_client"
proof -
  have "\<exists>a others. answer_of e good_client tr = Inr (a # others)" for e tr
    by (cases e) simp_all
  then show ?thesis by (simp add: always_answers_def)
qed

lemma example_campaign_channel_9: "9 \<in> pl_channel_id ` set (cmp_placements example_campaign)"
  by (simp add: example_campaign_def example_placement_1_def)

lemma good_run:
  "\<exists>st'. publish_steps good_client example_campaign example_creatives (new_IntegrationService penv)
          = (Inr complete_result, st')"
  by (rule publish_steps_succeeds [OF always_answers_good_client
        tables_present_new_IntegrationService example_campaign_channel_9])

section \<open>The result of a successful run\<close>

text \<open>
  C5, as amended. When every step of the \<^verbatim>\<open>try\<close> block of the service succeeds,
  \<^verbatim>\<open>handleCampaignPublish\<close> returns the complete result: \<open>success = True\<close>,
  \<open>status = Complete\<close> and the fixed details text. The result carries no ids: the lists
  of commercial ids and of spot ids are absent, as are the error and the other optional
  fields.
\<close>

theorem publish_success_result:
  assumes "publish_steps env campaign creatives st = (Inr result, st')"
  shows "handleCampaignPublish env campaign creatives st = (result, st')
       \<and> success result \<and> status result = Complete
       \<and> details result = Some ''Intehratsiia kampanii uspishno zavershena''
       \<and> commercial_ids result = None \<and> spot_ids result = None
       \<and> mediaplan_ids result = None \<and> project_id result = None \<and> order_id result = None
       \<and> error result = None"
  using assms publish_steps_result [OF assms]
  by (simp add: handleCampaignPublish_def complete_result_def)

theorem publish_success_result_witness:
  "success (fst (handleCampaignPublish good_client example_campaign example_creatives
                   (new_IntegrationService no_env)))
   \<and> status (fst (handleCampaignPublish good_client example_campaign example_creatives
                   (new_IntegrationService no_env))) = Complete
   \<and> details (fst (handleCampaignPublish good_client example_campaign example_creatives
                   (new_IntegrationService no_env)))
       = Some ''Intehratsiia kampanii uspishno zavershena''"
proof -
  from good_run [of no_env] obtain st' where
    run: "publish_steps good_client example_campaign example_creatives (new_IntegrationService no_env)
            = (Inr complete_result, st')" by blast
  from publish_success_result [OF run] show ?thesis by simp
qed

text \<open>
  A run on which every step succeeds and the commercial 201 matches the creative 201:
  the result is complete and holds neither the list of commercial ids nor the list of
  spot ids. (The catalogue of this platform is the same at every point of the run.)
\<close>

theorem publish_success_without_ids_counterexample:
  "status (fst (handleCampaignPublish good_client example_campaign example_creatives
                  (new_IntegrationService no_env))) = Complete
   \<and> commercial_ids (fst (handleCampaignPublish good_client example_campaign example_creatives
                  (new_IntegrationService no_env))) = None
   \<and> spot_ids (fst (handleCampaignPublish good_client example_campaign example_creatives
                  (new_IntegrationService no_env))) = None
   \<and> fst (findAndMapCommercials good_client example_creatives (new_IntegrationService no_env))
       = Inr [commercial_201]"
proof -
  from good_run [of no_env] obtain st' where
    run: "publish_steps good_client example_campaign example_creatives (new_IntegrationService no_env)
            = (Inr complete_result, st')" by blast
  then have "fst (handleCampaignPublish good_client example_campaign example_creatives
                    (new_IntegrationService no_env)) = complete_result"
    by (simp add: handleCampaignPublish_def)
  moreover have "fst (findAndMapCommercials good_client example_creatives
                        (new_IntegrationService no_env)) = Inr [commercial_201]"
    by (simp add: findAndMapCommercials_def call_getCommercials_def example_creatives_def
          example_creative_201_def example_creative_202_def commercial_201_def)
  ultimately show ?thesis by (simp add: complete_result_def)
qed

text \<open>The older variant does carry the ids of the commercials and of the reserved spots.\<close>

lemma trigger_publish_success_result:
  assumes "trigger_publish_steps env campaign creatives st = (Inr result, st')"
  shows "\<exists>st2 commercials st4 spots st5.
           trigger_findAndMapCommercials env creatives (log_sync_dictionaries env st2)
             = (Inr commercials, st4)
         \<and> trigger_reserveSpots env (log_map_commercials env (length commercials) st4)
             = (Inr spots, st5)
         \<and> trigger_handleCampaignPublish env campaign creatives st = (result, st')
         \<and> success result \<and> status result = Complete
         \<and> commercial_ids result = Some (map com_id commercials)
         \<and> spot_ids result = Some (map spot_id spots)"
proof -
  from assms obtain s1 s2 commercials s4 spots s5 where
    "authenticate env (log_start env st) = (Inr (), s1)"
    "syncReferenceDictionaries env campaign creatives (log_authentication env s1) = (Inr (), s2)"
    and c: "trigger_findAndMapCommercials env creatives (log_sync_dictionaries env s2)
          = (Inr commercials, s4)"
    and d: "trigger_reserveSpots env (log_map_commercials env (length commercials) s4)
          = (Inr spots, s5)"
    and r: "result = complete_result \<lparr> commercial_ids := Some (map com_id commercials),
                                       spot_ids := Some (map spot_id spots) \<rparr>"
    by (auto simp: trigger_publish_steps_def split: prod.splits sum.splits)
  have h: "trigger_handleCampaignPublish env campaign creatives st = (result, st')"
    using assms by (simp add: trigger_handleCampaignPublish_def)
  have s: "success result \<and> status result = Complete
         \<and> commercial_ids result = Some (map com_id commercials)
         \<and> spot_ids result = Some (map spot_id spots)"
    using r by (simp add: complete_result_def)
  from c d h s show ?thesis by blast
qed

section \<open>The state of the instance across runs\<close>

text \<open>
  C7, as amended. The identifier cache and the progress log belong to the service
  instance. A newly constructed instance has the four tables empty and an empty log.
  \<^verbatim>\<open>handleCampaignPublish\<close> never empties them: every call appends at least one entry to
  the log it finds and keeps every mapping it finds. Only the stand-alone
  \<^verbatim>\<open>handleLightboxCampaignPublish\<close> starts each run from a new instance.
\<close>

theorem instance_state_outlives_run:
  assumes "handleCampaignPublish env campaign creatives st = (r, st')"
  shows "(\<exists>entries. entries \<noteq> [] \<and> progressLog st' = progressLog st @ entries)
       \<and> (\<forall>ty k v. getMappedIdOrThrow ty k st = Inr v \<longrightarrow> getMappedIdOrThrow ty k st' = Inr v)
       \<and> progressLog (new_IntegrationService penv) = []
       \<and> mappingCache (new_IntegrationService penv) = empty_cache
       \<and> handleLightboxCampaignPublish env campaign creatives cfg =
           trigger_handleCampaignPublish env campaign creatives (new_LightboxCampaignTrigger cfg)
       \<and> progressLog (new_LightboxCampaignTrigger cfg) = []
       \<and> mappingCache (new_LightboxCampaignTrigger cfg) = empty_cache"
proof -
  from handleCampaignPublish_grows [OF assms] have g: "grows_to (log_start env st) st'" .
  then obtain entries where "progressLog st' = progressLog (log_start env st) @ entries"
    by (auto simp: grows_to_def)
  then have "progressLog st' = progressLog st @
      (\<lparr> step = ''start'', progress = 0, message = ''Pochatok intehratsii kampanii'',
         timestamp = now env (length (progressLog st)) \<rparr> # entries)"
    by (simp add: log_start_def)
  then have a: "\<exists>entries. entries \<noteq> [] \<and> progressLog st' = progressLog st @ entries"
    by blast
  from g have b: "\<forall>ty k v. getMappedIdOrThrow ty k st = Inr v \<longrightarrow>
                    getMappedIdOrThrow ty k st' = Inr v"
    by (simp add: grows_to_def getMappedIdOrThrow_def)
  from a b show ?thesis
    by (simp add: handleLightboxCampaignPublish_def new_LightboxCampaignTrigger_def)
qed

theorem instance_state_outlives_run_witness:
  "\<exists>entries. entries \<noteq> []
     \<and> progressLog (snd (handleCampaignPublish good_client example_campaign example_creatives
                           (new_IntegrationService no_env)))
       = progressLog (new_IntegrationService no_env) @ entries"
proof -
  have "handleCampaignPublish good_client example_campaign example_creatives
          (new_IntegrationService no_env)
        = (fst (handleCampaignPublish good_client example_campaign example_creatives
                  (new_IntegrationService no_env)),
           snd (handleCampaignPublish good_client example_campaign example_creatives
                  (new_IntegrationService no_env)))"
    by simp
  from instance_state_outlives_run [OF this] show ?thesis by blast
qed

text \<open>
  After one call on a new instance, the instance on which the next call starts has a
  progress log that is not empty and a mapping for the channel 9, which the new
  instance did not have.
\<close>

theorem second_run_starts_from_first_counterexample:
  "progressLog (snd (handleCampaignPublish good_client example_campaign example_creatives
                       (new_IntegrationService no_env))) \<noteq> []
   \<and> cache_has ''channels'' 9
       (snd (handleCampaignPublish good_client example_campaign example_creatives
               (new_IntegrationService no_env)))
   \<and> progressLog (new_IntegrationService no_env) = []
   \<and> \<not> cache_has ''channels'' 9 (new_IntegrationService no_env)"
proof -
  let ?st = "new_IntegrationService no_env"
  from good_run [of no_env] obtain st' where
    run: "publish_steps good_client example_campaign example_creatives ?st
            = (Inr complete_result, st')" by blast
  then have h: "handleCampaignPublish good_client example_campaign example_creatives ?st
                  = (complete_result, st')"
    by (simp add: handleCampaignPublish_def)
  from handleCampaignPublish_grows [OF h]
  obtain entries where "progressLog st' = progressLog (log_start good_client ?st) @ entries"
    by (auto simp: grows_to_def)
  then have a: "progressLog st' \<noteq> []" by (simp add: log_start_def)
  from publish_steps_success_channels [OF run tables_present_new_IntegrationService]
       example_campaign_channel_9
  have b: "cache_has ''channels'' 9 st'" by auto
  have c: "\<not> cache_has ''channels'' 9 ?st"
    by (simp add: cache_has_def empty_cache_def)
  from a b c h show ?thesis by simp
qed

section \<open>The failed result\<close>

lemma sync_of_frame:
  "sync_of e env ids st = (r, st') \<Longrightarrow>
   config st' = config st \<and> progressLog st' = progressLog st \<and> console st' = console st"
  unfolding sync_of_loop by (rule sync_loop_frame)

lemma sync_sequence_frame:
  "sync_sequence env ops st = (r, st') \<Longrightarrow>
   config st' = config st \<and> progressLog st' = progressLog st \<and> console st' = console st"
proof (induction ops arbitrary: st)
  case Nil
  then show ?case by simp
next
  case (Cons op ops)
  obtain e ids where op: "op = (e, ids)" by (cases op)
  obtain r1 st1 where first: "sync_of e env ids st = (r1, st1)" by (cases "sync_of e env ids st")
  show ?case
  proof (cases r1)
    case (Inl err)
    with first op Cons.prems have "st' = st1" by simp
    with sync_of_frame [OF first] show ?thesis by simp
  next
    case (Inr u)
    with first op Cons.prems have "sync_sequence env ops st1 = (r, st')" by simp
    from Cons.IH [OF this] sync_of_frame [OF first] show ?thesis by simp
  qed
qed

lemma syncReferenceDictionaries_frame:
  "syncReferenceDictionaries env campaign creatives st = (r, st') \<Longrightarrow>
   config st' = config st \<and> progressLog st' = progressLog st \<and> console st' = console st"
  using syncReferenceDictionaries_sequence [of env campaign creatives st]
        sync_sequence_frame [of env "dictionary_syncs campaign creatives" st]
  by (metis prod.collapse snd_conv)

lemma sync_of_succeeds_listed:
  "dictionaries_listed env \<Longrightarrow> \<exists>st'. sync_of e env ids st = (Inr (), st')"
  unfolding sync_of_loop by (rule sync_loop_succeeds) (simp add: dictionaries_listed_def)

lemma syncReferenceDictionaries_succeeds_listed:
  assumes "dictionaries_listed env"
  shows "\<exists>st'. syncReferenceDictionaries env campaign creatives st = (Inr (), st')"
proof -
  from sync_of_succeeds_listed [OF assms, of Advertisers] obtain st1 where
    a: "syncAdvertisers env [cmp_advertiser_id campaign] st = (Inr (), st1)"
    by (auto simp del: syncAdvertisers.simps)
  from sync_of_succeeds_listed [OF assms, of Brands] obtain st2 where
    b: "syncBrands env (brandIds_of campaign creatives) st1 = (Inr (), st2)" by auto
  from sync_of_succeeds_listed [OF assms, of Channels] obtain st3 where
    c: "syncChannels env (map pl_channel_id (cmp_placements campaign)) st2 = (Inr (), st3)"
    by auto
  from sync_of_succeeds_listed [OF assms, of TargetAudiences] obtain st4 where
    d: "syncTargetAudiences env (map pl_target_audience_id (cmp_placements campaign)) st3
          = (Inr (), st4)" by auto
  from a b c d show ?thesis
    by (simp add: syncReferenceDictionaries_def del: syncAdvertisers.simps)
qed

lemma authenticate_accepts:
  "login env (trace st) (omlUsername (config st)) (omlPassword (config st)) = Inr () \<Longrightarrow>
   authenticate env st =
     (Inr (), record_call (Login (omlUsername (config st)) (omlPassword (config st))) st)"
  by (simp add: authenticate_def call_login_def)

lemma findBlocksForPlacement_booking_rejected:
  assumes "getMappedIdOrThrow ''channels'' 9 st = Inr ch"
      and "getChannelBooking env (trace st) ch d1 d2 = Inl e"
  shows "findBlocksForPlacement env d1 d2 st =
           (Inl (find_blocks_error e), record_call (GetChannelBooking ch d1 d2) st)"
  using assms by (simp add: findBlocksForPlacement_def call_getChannelBooking_def)

text \<open>
  C2. \<^verbatim>\<open>handleCampaignPublish\<close> has no failing outcome: whenever a step of the
  \<^verbatim>\<open>try\<close> block raises an error with message \<open>msg\<close>, the call returns a result with
  \<open>success = False\<close>, \<open>status = Failed\<close> and \<open>error = msg\<close>. The entry with step
  \<open>error\<close> and progress \<open>-1\<close> is appended to the progress log, and the details are
  the message followed by one line for each of the last three entries of the log (all
  of them if there are fewer), the error entry being the last.
\<close>

theorem handleCampaignPublish_failure:
  assumes "publish_steps env campaign creatives st = (Inl msg, st1)"
  shows "success (fst (handleCampaignPublish env campaign creatives st)) = False
       \<and> status (fst (handleCampaignPublish env campaign creatives st)) = Failed
       \<and> error (fst (handleCampaignPublish env campaign creatives st)) = Some msg
       \<and> progressLog (snd (handleCampaignPublish env campaign creatives st)) =
           progressLog st1 @
           [\<lparr> step = ''error'', progress = - 1, message = ''Pomylka intehratsii: '' @ msg,
              timestamp = now env (length (progressLog st1)) \<rparr>]
       \<and> details (fst (handleCampaignPublish env campaign creatives st)) =
           Some (''Pomylka v protsesi intehratsii: '' @ msg @ [CHR 0x0A] @
                 ''Ostanni etapy intehratsii:'' @ [CHR 0x0A] @
                 join [CHR 0x0A]
                   (map (\<lambda>p. ''- '' @ timestamp p @ '': '' @ step p @ '' ('' @
                              show_int (progress p) @ ''%) - '' @ message p)
                      (drop (length (progressLog
                                       (snd (handleCampaignPublish env campaign creatives st))) - 3)
                         (progressLog (snd (handleCampaignPublish env campaign creatives st))))))"
proof -
  have progress_line_eq: "progress_line =
      (\<lambda>p. ''- '' @ timestamp p @ '': '' @ step p @ '' ('' @ show_int (progress p) @ ''%) - '' @
            message p)"
    by (rule ext) (simp add: progress_line_def)
  from assms show ?thesis
    by (simp add: handleCampaignPublish_def Let_def failed_result_def getErrorDetails_def
          log_error_def slice_last3_def newline_def progress_line_eq)
qed

lemma booking_failing_client_fields [simp]:
  "login booking_failing_client tr u p = Inr ()"
  "getChannelBooking booking_failing_client tr ch d1 d2 = Inl ''503 Service Unavailable''"
  "now booking_failing_client n = ''2025-04-26T07:20:00.000Z''"
  by (simp_all add: booking_failing_client_def good_client_def)

lemma dictionaries_listed_booking_failing_client: "dictionaries_listed booking_failing_client"
proof -
  have "\<exists>a others. answer_of e booking_failing_client tr = Inr (a # others)" for e tr
    by (cases e) (simp_all add: booking_failing_client_def good_client_def)
  then show ?thesis by (simp add: dictionaries_listed_def)
qed

lemma digit_char_values:
  "digit_char 0 = CHR ''0''" "digit_char 1 = CHR ''1''" "digit_char 2 = CHR ''2''"
  "digit_char 3 = CHR ''3''" "digit_char 4 = CHR ''4''" "digit_char 5 = CHR ''5''"
  "digit_char 6 = CHR ''6''" "digit_char 7 = CHR ''7''" "digit_char 8 = CHR ''8''"
  "digit_char 9 = CHR ''9''" "digit_char (Suc 0) = CHR ''1''"
  by code_simp+

lemma show_int_examples:
  "show_int 0 = ''0''" "show_int 5 = ''5''" "show_int 15 = ''15''" "show_int (- 1) = ''-1''"
  "show_int 1 = ''1''" "show_int 201 = ''201''" "show_int 42338 = ''42338''"
  by (simp_all add: show_int_def show_nat.simps digit_char_values)

theorem handleCampaignPublish_failure_witness:
  "success (fst (handleCampaignPublish booking_failing_client example_campaign example_creatives
                   (new_IntegrationService no_env))) = False
   \<and> status (fst (handleCampaignPublish booking_failing_client example_campaign
                   example_creatives (new_IntegrationService no_env))) = Failed
   \<and> error (fst (handleCampaignPublish booking_failing_client example_campaign
                   example_creatives (new_IntegrationService no_env)))
       = Some ''Pomylka pry poshuku blokiv dlia rozmishchennia: 503 Service Unavailable''
   \<and> map step (progressLog (snd (handleCampaignPublish booking_failing_client example_campaign
                   example_creatives (new_IntegrationService no_env))))
       = [''start'', ''authentication'', ''sync_dictionaries'', ''error'']
   \<and> details (fst (handleCampaignPublish booking_failing_client example_campaign
                   example_creatives (new_IntegrationService no_env)))
       = Some (''Pomylka v protsesi intehratsii: '' @
               ''Pomylka pry poshuku blokiv dlia rozmishchennia: 503 Service Unavailable'' @
               [CHR 0x0A] @ ''Ostanni etapy intehratsii:'' @ [CHR 0x0A] @
               ''- 2025-04-26T07:20:00.000Z: authentication (5%) - '' @
               ''Autentyfikatsiia v OML uspishna'' @ [CHR 0x0A] @
               ''- 2025-04-26T07:20:00.000Z: sync_dictionaries (15%) - '' @
               ''Dovidnyky synkhronizovano'' @ [CHR 0x0A] @
               ''- 2025-04-26T07:20:00.000Z: error (-1%) - Pomylka intehratsii: '' @
               ''Pomylka pry poshuku blokiv dlia rozmishchennia: 503 Service Unavailable'')"
proof -
  let ?env = "booking_failing_client"
  let ?init = "new_IntegrationService no_env"
  let ?msg = "''Pomylka pry poshuku blokiv dlia rozmishchennia: 503 Service Unavailable''"
  let ?started = "log_start ?env ?init"
  let ?loggedin = "record_call (Login (omlUsername (config ?started)) (omlPassword (config ?started))) ?started"
  have auth: "authenticate ?env ?started = (Inr (), ?loggedin)"
    by (rule authenticate_accepts) simp
  have p1: "tables_present (log_authentication ?env ?loggedin)"
    using tables_present_new_IntegrationService [of no_env] by (simp add: tables_present_def)
  from syncReferenceDictionaries_succeeds_listed [OF dictionaries_listed_booking_failing_client]
  obtain st2 where
    sync: "syncReferenceDictionaries ?env example_campaign example_creatives
             (log_authentication ?env ?loggedin) = (Inr (), st2)" by blast
  from syncReferenceDictionaries_channels_mapped [OF sync p1] example_campaign_channel_9
  have "cache_has ''channels'' 9 st2" by auto
  then obtain ch where ch: "getMappedIdOrThrow ''channels'' 9 (log_sync_dictionaries ?env st2) = Inr ch"
    by (auto simp: cache_has_iff_mapped getMappedIdOrThrow_def)
  let ?rejected = "record_call (GetChannelBooking ch (cmp_start_date example_campaign)
                 (cmp_end_date example_campaign)) (log_sync_dictionaries ?env st2)"
  have blocks: "findBlocksForPlacement ?env (cmp_start_date example_campaign)
                  (cmp_end_date example_campaign) (log_sync_dictionaries ?env st2)
                = (Inl ?msg, ?rejected)"
    using findBlocksForPlacement_booking_rejected [OF ch, of ?env _ _ "''503 Service Unavailable''"]
    by (simp add: find_blocks_error_def)
  have steps: "publish_steps ?env example_campaign example_creatives ?init = (Inl ?msg, ?rejected)"
    using auth sync blocks by (simp add: publish_steps_def)
  from syncReferenceDictionaries_frame [OF sync]
  have log3: "progressLog (log_sync_dictionaries ?env st2) =
     [\<lparr> step = ''start'', progress = 0, message = ''Pochatok intehratsii kampanii'',
         timestamp = ''2025-04-26T07:20:00.000Z'' \<rparr>,
      \<lparr> step = ''authentication'', progress = 5, message = ''Autentyfikatsiia v OML uspishna'',
         timestamp = ''2025-04-26T07:20:00.000Z'' \<rparr>,
      \<lparr> step = ''sync_dictionaries'', progress = 15, message = ''Dovidnyky synkhronizovano'',
         timestamp = ''2025-04-26T07:20:00.000Z'' \<rparr>]"
    by (simp add: log_defs)
  let ?run = "handleCampaignPublish ?env example_campaign example_creatives ?init"
  let ?e2 = "\<lparr> step = ''authentication'', progress = 5,
                message = ''Autentyfikatsiia v OML uspishna'',
                timestamp = ''2025-04-26T07:20:00.000Z'' \<rparr>"
  let ?e3 = "\<lparr> step = ''sync_dictionaries'', progress = 15,
                message = ''Dovidnyky synkhronizovano'',
                timestamp = ''2025-04-26T07:20:00.000Z'' \<rparr>"
  let ?e4 = "\<lparr> step = ''error'', progress = - 1, message = ''Pomylka intehratsii: '' @ ?msg,
                timestamp = ''2025-04-26T07:20:00.000Z'' \<rparr>"
  note inst = handleCampaignPublish_failure [OF steps]
  from inst have res: "success (fst ?run) = False" "status (fst ?run) = Failed"
    "error (fst ?run) = Some ?msg"
    by blast+
  from inst have "progressLog (snd ?run) = progressLog ?rejected @
           [\<lparr> step = ''error'', progress = - 1, message = ''Pomylka intehratsii: '' @ ?msg,
              timestamp = now ?env (length (progressLog ?rejected)) \<rparr>]"
    by blast
  then have log4: "progressLog (snd ?run) =
     [\<lparr> step = ''start'', progress = 0, message = ''Pochatok intehratsii kampanii'',
         timestamp = ''2025-04-26T07:20:00.000Z'' \<rparr>, ?e2, ?e3, ?e4]"
    by (simp add: log3)
  then have last3: "drop (length (progressLog (snd ?run)) - 3) (progressLog (snd ?run))
                      = [?e2, ?e3, ?e4]"
    by simp
  from inst have "details (fst ?run) =
           Some (''Pomylka v protsesi intehratsii: '' @ ?msg @ [CHR 0x0A] @
                 ''Ostanni etapy intehratsii:'' @ [CHR 0x0A] @
                 join [CHR 0x0A]
                   (map (\<lambda>p. ''- '' @ timestamp p @ '': '' @ step p @ '' ('' @
                              show_int (progress p) @ ''%) - '' @ message p)
                      (drop (length (progressLog (snd ?run)) - 3) (progressLog (snd ?run)))))"
    by blast
  then have det: "details (fst ?run) =
           Some (''Pomylka v protsesi intehratsii: '' @ ?msg @ [CHR 0x0A] @
                 ''Ostanni etapy intehratsii:'' @ [CHR 0x0A] @
                 join [CHR 0x0A]
                   (map (\<lambda>p. ''- '' @ timestamp p @ '': '' @ step p @ '' ('' @
                              show_int (progress p) @ ''%) - '' @ message p)
                      [?e2, ?e3, ?e4]))"
    by (simp only: last3)
  have steps4: "map step (progressLog (snd ?run))
       = [''start'', ''authentication'', ''sync_dictionaries'', ''error'']"
    by (simp add: log4)
  from res steps4 det show ?thesis
    by (simp add: show_int_examples)
qed

section \<open>A refused spot attachment\<close>

text \<open>
  C3. Once the media-plan listing has been fetched, \<^verbatim>\<open>reserveSpots\<close> returns the
  empty list and never an error: when no commercial or media plan is found, and also
  when the attachment call is refused. In that last case two lines are written to the
  console and nothing else happens: the error line, and the request that failed as a
  \<^verbatim>\<open>curl\<close> command with the method and address, the bearer token (or
  \<^verbatim>\<open>TOKEN_NOT_AVAILABLE\<close>), the content type and the JSON body of the two ids.
\<close>

theorem reserveSpots_swallows_attach_failure:
  assumes "getMediaplans env (trace st) 10000 = Inr mediaplans"
  shows "fst (reserveSpots env blk st) = Inr []
       \<and> mappingCache (snd (reserveSpots env blk st)) = mappingCache st
       \<and> progressLog (snd (reserveSpots env blk st)) = progressLog st
       \<and> (first_commercial (find (\<lambda>el. mp_id el = 42338) mediaplans) = None \<longrightarrow>
            trace (snd (reserveSpots env blk st)) = trace st @ [GetMediaplans 10000]
            \<and> console (snd (reserveSpots env blk st)) = console st @ [''not found commercial''])
       \<and> (\<forall>m c e.
            find (\<lambda>el. mp_id el = 42338) mediaplans = Some m \<and>
            first_commercial (Some m) = Some c \<and>
            addSpotToBlock env (trace st @ [GetMediaplans 10000]) (map_option blk_id blk)
              \<lparr> sd_commercial_id = com_id c, sd_mediaplan_id = mp_id m, sd_position = None,
                sd_priority = None, sd_auction_coeff = None, sd_force = None \<rparr> None = Inl e \<longrightarrow>
            trace (snd (reserveSpots env blk st)) =
              trace st @
              [GetMediaplans 10000,
               AddSpotToBlock (map_option blk_id blk)
                 \<lparr> sd_commercial_id = com_id c, sd_mediaplan_id = mp_id m, sd_position = None,
                   sd_priority = None, sd_auction_coeff = None, sd_force = None \<rparr> None]
            \<and> console (snd (reserveSpots env blk st)) =
              console st @
              [''Pomylka bronuvannia spotu v blotsi '' @
                 (case blk of None \<Rightarrow> ''undefined'' | Some b \<Rightarrow> show_int (blk_id b)) @
                 '': '' @ e,
               ''Zapyt, shcho vyklykav pomylku: '' @
               ''curl -X POST '' @ [CHR 0x22] @ omlBaseUrl (config st) @ ''/api/blocks/'' @
                 (case blk of None \<Rightarrow> ''undefined'' | Some b \<Rightarrow> show_int (blk_id b)) @
                 ''/spots'' @ [CHR 0x22] @ '' '' @ [CHR 0x5C, CHR 0x0A] @
               ''            -H '' @ [CHR 0x22] @ ''Authorization: Bearer '' @
                 (case getToken env (trace (snd (reserveSpots env blk st))) of
                    None \<Rightarrow> ''TOKEN_NOT_AVAILABLE''
                  | Some t \<Rightarrow> if t = [] then ''TOKEN_NOT_AVAILABLE'' else t) @
                 [CHR 0x22] @ '' '' @ [CHR 0x5C, CHR 0x0A] @
               ''            -H '' @ [CHR 0x22] @ ''Content-Type: application/json'' @
                 [CHR 0x22] @ '' '' @ [CHR 0x5C, CHR 0x0A] @
               ''            -d '' @ [CHR 0x27] @
                 ''{'' @ [CHR 0x22] @ ''commercial_id'' @ [CHR 0x22] @ '':'' @
                 show_int (com_id c) @ '','' @ [CHR 0x22] @ ''mediaplan_id'' @ [CHR 0x22] @
                 '':'' @ show_int (mp_id m) @ ''}'' @ [CHR 0x27]])"
proof -
  have a: "fst (reserveSpots env blk st) = Inr []"
    using assms
    by (simp add: reserveSpots_def call_getMediaplans_def call_addSpotToBlock_def Let_def
          split: option.splits sum.splits)
  have b: "first_commercial (find (\<lambda>el. mp_id el = 42338) mediaplans) = None \<longrightarrow>
            trace (snd (reserveSpots env blk st)) = trace st @ [GetMediaplans 10000]
            \<and> console (snd (reserveSpots env blk st)) = console st @ [''not found commercial'']"
    using assms by (simp add: reserveSpots_def call_getMediaplans_def Let_def)
  have indent: "curl_indent = ''            ''"
    by (simp add: curl_indent_def numeral_eq_Suc)
  have c: "\<forall>m c e.
            find (\<lambda>el. mp_id el = 42338) mediaplans = Some m \<and>
            first_commercial (Some m) = Some c \<and>
            addSpotToBlock env (trace st @ [GetMediaplans 10000]) (map_option blk_id blk)
              \<lparr> sd_commercial_id = com_id c, sd_mediaplan_id = mp_id m, sd_position = None,
                sd_priority = None, sd_auction_coeff = None, sd_force = None \<rparr> None = Inl e \<longrightarrow>
            trace (snd (reserveSpots env blk st)) =
              trace st @
              [GetMediaplans 10000,
               AddSpotToBlock (map_option blk_id blk)
                 \<lparr> sd_commercial_id = com_id c, sd_mediaplan_id = mp_id m, sd_position = None,
                   sd_priority = None, sd_auction_coeff = None, sd_force = None \<rparr> None]
            \<and> console (snd (reserveSpots env blk st)) =
              console st @
              [''Pomylka bronuvannia spotu v blotsi '' @
                 (case blk of None \<Rightarrow> ''undefined'' | Some b \<Rightarrow> show_int (blk_id b)) @
                 '': '' @ e,
               ''Zapyt, shcho vyklykav pomylku: '' @
               ''curl -X POST '' @ [CHR 0x22] @ omlBaseUrl (config st) @ ''/api/blocks/'' @
                 (case blk of None \<Rightarrow> ''undefined'' | Some b \<Rightarrow> show_int (blk_id b)) @
                 ''/spots'' @ [CHR 0x22] @ '' '' @ [CHR 0x5C, CHR 0x0A] @
               ''            -H '' @ [CHR 0x22] @ ''Authorization: Bearer '' @
                 (case getToken env (trace (snd (reserveSpots env blk st))) of
                    None \<Rightarrow> ''TOKEN_NOT_AVAILABLE''
                  | Some t \<Rightarrow> if t = [] then ''TOKEN_NOT_AVAILABLE'' else t) @
                 [CHR 0x22] @ '' '' @ [CHR 0x5C, CHR 0x0A] @
               ''            -H '' @ [CHR 0x22] @ ''Content-Type: application/json'' @
                 [CHR 0x22] @ '' '' @ [CHR 0x5C, CHR 0x0A] @
               ''            -d '' @ [CHR 0x27] @
                 ''{'' @ [CHR 0x22] @ ''commercial_id'' @ [CHR 0x22] @ '':'' @
                 show_int (com_id c) @ '','' @ [CHR 0x22] @ ''mediaplan_id'' @ [CHR 0x22] @
                 '':'' @ show_int (mp_id m) @ ''}'' @ [CHR 0x27]]"
    using assms
    by (cases blk)
       (simp_all add: reserveSpots_def call_getMediaplans_def call_addSpotToBlock_def Let_def
          log_attach_failure_def token_or_default_def plain_spotData_def spot_error_line_def
          spot_request_line_def curlRequest_def spot_body_json_def show_opt_int_def indent
          dquote_def backslash_def newline_def console_error_def)
  have d: "mappingCache (snd (reserveSpots env blk st)) = mappingCache st
         \<and> progressLog (snd (reserveSpots env blk st)) = progressLog st"
    using reserveSpots_grows [of env blk st "fst (reserveSpots env blk st)"
            "snd (reserveSpots env blk st)"]
    by simp
  from a b c d show ?thesis by blast
qed

lemma attach_failing_client_fields [simp]:
  "getMediaplans attach_failing_client tr per_page = Inr [mediaplan_42338]"
  "addSpotToBlock attach_failing_client tr b d f = Inl ''422 Unprocessable''"
  "getToken attach_failing_client tr = Some ''jwt''"
  by (simp_all add: attach_failing_client_def good_client_def)

theorem reserveSpots_swallows_attach_failure_witness:
  "fst (reserveSpots attach_failing_client (Some (full_block 1)) (new_IntegrationService no_env))
     = Inr []
   \<and> trace (snd (reserveSpots attach_failing_client (Some (full_block 1))
                    (new_IntegrationService no_env)))
     = [GetMediaplans 10000,
        AddSpotToBlock (Some 1)
          \<lparr> sd_commercial_id = 201, sd_mediaplan_id = 42338, sd_position = None,
            sd_priority = None, sd_auction_coeff = None, sd_force = None \<rparr> None]
   \<and> console (snd (reserveSpots attach_failing_client (Some (full_block 1))
                    (new_IntegrationService no_env)))
     = [''Pomylka bronuvannia spotu v blotsi 1: 422 Unprocessable'',
        ''Zapyt, shcho vyklykav pomylku: curl -X POST '' @ [CHR 0x22] @
        ''https://ge-api.omldev.org/api/blocks/1/spots'' @ [CHR 0x22] @ '' '' @
        [CHR 0x5C, CHR 0x0A] @
        ''            -H '' @ [CHR 0x22] @ ''Authorization: Bearer jwt'' @ [CHR 0x22] @ '' '' @
        [CHR 0x5C, CHR 0x0A] @
        ''            -H '' @ [CHR 0x22] @ ''Content-Type: application/json'' @ [CHR 0x22] @
        '' '' @ [CHR 0x5C, CHR 0x0A] @
        ''            -d '' @ [CHR 0x27] @ ''{'' @ [CHR 0x22] @ ''commercial_id'' @ [CHR 0x22] @
        '':201,'' @ [CHR 0x22] @ ''mediaplan_id'' @ [CHR 0x22] @ '':42338}'' @ [CHR 0x27]]"
proof -
  let ?blk = "Some (full_block 1)"
  let ?init = "new_IntegrationService no_env"
  let ?run = "reserveSpots attach_failing_client ?blk ?init"
  have h: "getMediaplans attach_failing_client (trace ?init) 10000 = Inr [mediaplan_42338]"
    by simp
  have f: "find (\<lambda>el. mp_id el = 42338) [mediaplan_42338] = Some mediaplan_42338
           \<and> first_commercial (Some mediaplan_42338) = Some commercial_201
           \<and> addSpotToBlock attach_failing_client (trace ?init @ [GetMediaplans 10000])
               (map_option blk_id ?blk)
               \<lparr> sd_commercial_id = com_id commercial_201,
                 sd_mediaplan_id = mp_id mediaplan_42338, sd_position = None,
                 sd_priority = None, sd_auction_coeff = None, sd_force = None \<rparr> None
             = Inl ''422 Unprocessable''"
    by (simp add: mediaplan_42338_def first_commercial_def)
  note inst = reserveSpots_swallows_attach_failure [OF h, of ?blk]
  from inst have a: "fst ?run = Inr []" by (rule conjunct1)
  from inst f
  have b: "trace (snd ?run) = trace ?init @
              [GetMediaplans 10000,
               AddSpotToBlock (map_option blk_id ?blk)
                 \<lparr> sd_commercial_id = com_id commercial_201,
                   sd_mediaplan_id = mp_id mediaplan_42338, sd_position = None,
                   sd_priority = None, sd_auction_coeff = None, sd_force = None \<rparr> None]
            \<and> console (snd ?run) =
              console ?init @
              [''Pomylka bronuvannia spotu v blotsi '' @
                 (case ?blk of None \<Rightarrow> ''undefined'' | Some b \<Rightarrow> show_int (blk_id b)) @
                 '': '' @ ''422 Unprocessable'',
               ''Zapyt, shcho vyklykav pomylku: '' @
               ''curl -X POST '' @ [CHR 0x22] @ omlBaseUrl (config ?init) @ ''/api/blocks/'' @
                 (case ?blk of None \<Rightarrow> ''undefined'' | Some b \<Rightarrow> show_int (blk_id b)) @
                 ''/spots'' @ [CHR 0x22] @ '' '' @ [CHR 0x5C, CHR 0x0A] @
               ''            -H '' @ [CHR 0x22] @ ''Authorization: Bearer '' @
                 (case getToken attach_failing_client (trace (snd ?run)) of
                    None \<Rightarrow> ''TOKEN_NOT_AVAILABLE''
                  | Some t \<Rightarrow> if t = [] then ''TOKEN_NOT_AVAILABLE'' else t) @
                 [CHR 0x22] @ '' '' @ [CHR 0x5C, CHR 0x0A] @
               ''            -H '' @ [CHR 0x22] @ ''Content-Type: application/json'' @
                 [CHR 0x22] @ '' '' @ [CHR 0x5C, CHR 0x0A] @
               ''            -d '' @ [CHR 0x27] @
                 ''{'' @ [CHR 0x22] @ ''commercial_id'' @ [CHR 0x22] @ '':'' @
                 show_int (com_id commercial_201) @ '','' @ [CHR 0x22] @ ''mediaplan_id'' @
                 [CHR 0x22] @ '':'' @ show_int (mp_id mediaplan_42338) @ ''}'' @ [CHR 0x27]]"
    by blast
  have url: "omlBaseUrl (getOmlConfig no_env) = ''https://ge-api.omldev.org''"
    by (simp add: getOmlConfig_def EnvConfig_get_def no_env_def)
  have ids: "com_id commercial_201 = 201" "mp_id mediaplan_42338 = 42338"
            "blk_id (full_block 1) = 1"
    by (simp_all add: commercial_201_def mediaplan_42338_def full_block_def)
  from a b show ?thesis
    by (simp add: ids url show_int_examples)
qed

section \<open>The example run, call by call\<close>

lemma cache_has_log [simp]:
  "cache_has ty k (log_start env st) = cache_has ty k st"
  "cache_has ty k (log_authentication env st) = cache_has ty k st"
  "cache_has ty k (log_sync_dictionaries env st) = cache_has ty k st"
  "cache_has ty k (log_find_blocks env n st) = cache_has ty k st"
  "cache_has ty k (log_map_commercials env n st) = cache_has ty k st"
  "cache_has ty k (log_reserve_spots env t st) = cache_has ty k st"
  "cache_has ty k (log_complete env st) = cache_has ty k st"
  "cache_has ty k (log_error env msg st) = cache_has ty k st"
  by (simp_all add: cache_has_def)

lemma getMappedIdOrThrow_log [simp]:
  "getMappedIdOrThrow ty k (log_start env st) = getMappedIdOrThrow ty k st"
  "getMappedIdOrThrow ty k (log_authentication env st) = getMappedIdOrThrow ty k st"
  "getMappedIdOrThrow ty k (log_sync_dictionaries env st) = getMappedIdOrThrow ty k st"
  "getMappedIdOrThrow ty k (log_find_blocks env n st) = getMappedIdOrThrow ty k st"
  "getMappedIdOrThrow ty k (log_map_commercials env n st) = getMappedIdOrThrow ty k st"
  "getMappedIdOrThrow ty k (log_reserve_spots env t st) = getMappedIdOrThrow ty k st"
  "getMappedIdOrThrow ty k (log_complete env st) = getMappedIdOrThrow ty k st"
  "getMappedIdOrThrow ty k (log_error env msg st) = getMappedIdOrThrow ty k st"
  by (simp_all add: getMappedIdOrThrow_def)

text \<open>
  The dictionary synchronisation of the example campaign on an instance with empty
  tables, when every listing has one entry (11, 44, 77 and 55): one lookup per
  distinct id, and the mappings 401 to 44 and 9 to 77.
\<close>

lemma example_sync_run:
  assumes adv: "\<And>tr. getAdvertisers env tr = Inr [\<lparr> ref_id = 11, ref_name = ''Advertiser'' \<rparr>]"
      and br: "\<And>tr. getBrands env tr = Inr [\<lparr> ref_id = 44, ref_name = ''Brand'' \<rparr>]"
      and chn: "\<And>tr. getChannels env tr = Inr [\<lparr> ref_id = 77, ref_name = ''Channel'' \<rparr>]"
      and ta: "\<And>tr. getTargetAudiences env tr = Inr [\<lparr> ref_id = 55, ref_name = ''Audience'' \<rparr>]"
      and empty: "mappingCache st = empty_cache"
  shows "\<exists>st'. syncReferenceDictionaries env example_campaign example_creatives st = (Inr (), st')
           \<and> trace st' = trace st @
               [FetchLightboxAdvertiser 101, GetAdvertisers, FetchLightboxBrand 401, GetBrands,
                FetchLightboxChannel 9, GetChannels, FetchLightboxTargetAudience 501,
                GetTargetAudiences]
           \<and> getMappedIdOrThrow ''brands'' 401 st' = Inr 44
           \<and> getMappedIdOrThrow ''channels'' 9 st' = Inr 77
           \<and> progressLog st' = progressLog st \<and> config st' = config st"
proof -
  have present: "map_of (mappingCache st) ty \<noteq> None"
    if "ty \<in> {''advertisers'', ''brands'', ''channels'', ''targetAudiences''}" for ty
    using that by (auto simp: empty empty_cache_def)
  have fresh: "\<not> cache_has ty k st" for ty k
    by (simp add: cache_has_def empty empty_cache_def)
  let ?s1 = "cache_set ''advertisers'' 101 11
               (record_call GetAdvertisers (record_call (FetchLightboxAdvertiser 101) st))"
  have a: "syncAdvertisers env [cmp_advertiser_id example_campaign] st = (Inr (), ?s1)"
    by (simp add: example_campaign_def fresh fetchLightboxAdvertiser_def call_getAdvertisers_def
          adv)
  have p1: "map_of (mappingCache ?s1) ty = map_of (mappingCache st) ty" if "ty \<noteq> ''advertisers''" for ty
    using that by (simp add: cache_set_def AList.update_conv' split: option.splits)
  have f1: "\<not> cache_has ty k ?s1" if "ty \<noteq> ''advertisers''" for ty k
    using that by (simp add: cache_has_def p1 empty empty_cache_def)
  let ?s2 = "cache_set ''brands'' 401 44
               (record_call GetBrands (record_call (FetchLightboxBrand 401) ?s1))"
  have b: "syncBrands env (brandIds_of example_campaign example_creatives) ?s1 = (Inr (), ?s2)"
    by (simp add: f1 fetchLightboxBrand_def call_getBrands_def br)
  have t1: "map_of (mappingCache (record_call GetBrands (record_call (FetchLightboxBrand 401) ?s1)))
              ''brands'' \<noteq> None"
    using present [of "''brands''"] by (simp add: p1)
  have m2: "getMappedIdOrThrow ''brands'' 401 ?s2 = Inr 44"
    by (simp add: getMappedIdOrThrow_cache_set [OF t1])
  have p2: "map_of (mappingCache ?s2) ty = map_of (mappingCache st) ty"
    if "ty \<noteq> ''advertisers''" "ty \<noteq> ''brands''" for ty
    using that by (simp add: cache_set_def AList.update_conv' split: option.splits)
  have f2: "\<not> cache_has ''channels'' k ?s2" for k
    by (simp add: cache_has_def p2 empty empty_cache_def)
  let ?s3 = "cache_set ''channels'' 9 77
               (record_call GetChannels (record_call (FetchLightboxChannel 9) ?s2))"
  have t2: "map_of (mappingCache (record_call GetChannels (record_call (FetchLightboxChannel 9) ?s2)))
              ''channels'' \<noteq> None"
    using present [of "''channels''"] by (simp add: p2)
  have h3: "cache_has ''channels'' 9 ?s3"
    by (simp add: cache_has_cache_set [OF t2])
  have c: "syncChannels env (map pl_channel_id (cmp_placements example_campaign)) ?s2
             = (Inr (), ?s3)"
    using h3
    by (simp add: example_campaign_def example_placement_1_def example_placement_2_def f2
          fetchLightboxChannel_def call_getChannels_def chn)
  have m3: "getMappedIdOrThrow ''channels'' 9 ?s3 = Inr 77"
    by (simp add: getMappedIdOrThrow_cache_set [OF t2])
  have p3: "map_of (mappingCache ?s3) ty = map_of (mappingCache st) ty"
    if "ty \<noteq> ''advertisers''" "ty \<noteq> ''brands''" "ty \<noteq> ''channels''" for ty
    using that by (simp add: cache_set_def AList.update_conv' split: option.splits)
  have f3: "\<not> cache_has ''targetAudiences'' k ?s3" for k
    by (simp add: cache_has_def p3 empty empty_cache_def)
  let ?s4 = "cache_set ''targetAudiences'' 501 55
               (record_call GetTargetAudiences (record_call (FetchLightboxTargetAudience 501) ?s3))"
  have t3: "map_of (mappingCache (record_call GetTargetAudiences
               (record_call (FetchLightboxTargetAudience 501) ?s3))) ''targetAudiences'' \<noteq> None"
    using present [of "''targetAudiences''"] by (simp add: p3)
  have h4: "cache_has ''targetAudiences'' 501 ?s4"
    by (simp add: cache_has_cache_set [OF t3])
  have d: "syncTargetAudiences env (map pl_target_audience_id (cmp_placements example_campaign)) ?s3
             = (Inr (), ?s4)"
    using h4
    by (simp add: example_campaign_def example_placement_1_def example_placement_2_def f3
          fetchLightboxTargetAudience_def call_getTargetAudiences_def ta)
  have run: "syncReferenceDictionaries env example_campaign example_creatives st = (Inr (), ?s4)"
    using a b c d by (simp add: syncReferenceDictionaries_def del: syncAdvertisers.simps)
  have keep: "getMappedIdOrThrow ''brands'' 401 ?s4 = Inr 44"
             "getMappedIdOrThrow ''channels'' 9 ?s4 = Inr 77"
    using m2 m3 sync_loop_write_once [OF c [unfolded syncChannels_loop]]
      sync_loop_write_once [OF d [unfolded syncTargetAudiences_loop]]
    by blast+
  have tr: "trace ?s4 = trace st @
               [FetchLightboxAdvertiser 101, GetAdvertisers, FetchLightboxBrand 401, GetBrands,
                FetchLightboxChannel 9, GetChannels, FetchLightboxTargetAudience 501,
                GetTargetAudiences]"
    by simp
  have fr: "progressLog ?s4 = progressLog st \<and> config ?s4 = config st" by simp
  from run keep tr fr show ?thesis by blast
qed

section \<open>A brand whose listing is empty\<close>







section \<open>Two plans under the id 42338\<close>

lemma reserveSpots_not_found:
  assumes "getMediaplans env (trace st) 10000 = Inr mediaplans"
      and "first_commercial (find (\<lambda>el. mp_id el = 42338) mediaplans) = None"
  shows "reserveSpots env blk st =
           (Inr [], console_log ''not found commercial'' (record_call (GetMediaplans 10000) st))"
  using assms by (simp add: reserveSpots_def call_getMediaplans_def Let_def)

lemma two_plans_client_fields [simp]:
  "login two_plans_client tr u p = Inr ()"
  "getAdvertisers two_plans_client tr = Inr [\<lparr> ref_id = 11, ref_name = ''Advertiser'' \<rparr>]"
  "getBrands two_plans_client tr = Inr [\<lparr> ref_id = 44, ref_name = ''Brand'' \<rparr>]"
  "getChannels two_plans_client tr = Inr [\<lparr> ref_id = 77, ref_name = ''Channel'' \<rparr>]"
  "getTargetAudiences two_plans_client tr = Inr [\<lparr> ref_id = 55, ref_name = ''Audience'' \<rparr>]"
  "getChannelBooking two_plans_client tr ch d1 d2 = Inr []"
  "getCommercials two_plans_client tr per_page = Inr [commercial_201]"
  "getMediaplans two_plans_client tr per_page2 = Inr [mediaplan_42338_empty, mediaplan_42338]"
  by (simp_all add: two_plans_client_def empty_grid_client_def good_client_def)

text \<open>
  The block search returns the empty list and the listing holds a plan with id 42338
  that carries a commercial, but after another plan with that id that carries none:
  the run ends with the complete result, its last call is the media-plan listing, and
  no attachment call is made.
\<close>

theorem second_plan_is_not_read_counterexample:
  "status (fst (handleCampaignPublish two_plans_client example_campaign example_creatives
                  (new_IntegrationService no_env))) = Complete
   \<and> trace (snd (handleCampaignPublish two_plans_client example_campaign example_creatives
                   (new_IntegrationService no_env)))
     = [Login [] [], FetchLightboxAdvertiser 101, GetAdvertisers, FetchLightboxBrand 401,
        GetBrands, FetchLightboxChannel 9, GetChannels, FetchLightboxTargetAudience 501,
        GetTargetAudiences, GetChannelBooking 77 ''2025-04-24'' ''2025-04-30'',
        GetCommercials (Some 10000), GetMediaplans 10000]
   \<and> filter attach_call
        (trace (snd (handleCampaignPublish two_plans_client example_campaign example_creatives
                       (new_IntegrationService no_env)))) = []
   \<and> getChannelBooking two_plans_client
        [Login [] [], FetchLightboxAdvertiser 101, GetAdvertisers, FetchLightboxBrand 401,
         GetBrands, FetchLightboxChannel 9, GetChannels, FetchLightboxTargetAudience 501,
         GetTargetAudiences] 77 ''2025-04-24'' ''2025-04-30'' = Inr []
   \<and> getMediaplans two_plans_client
        [Login [] [], FetchLightboxAdvertiser 101, GetAdvertisers, FetchLightboxBrand 401,
         GetBrands, FetchLightboxChannel 9, GetChannels, FetchLightboxTargetAudience 501,
         GetTargetAudiences, GetChannelBooking 77 ''2025-04-24'' ''2025-04-30'',
         GetCommercials (Some 10000)] 10000
       = Inr [mediaplan_42338_empty, mediaplan_42338]
   \<and> mp_id mediaplan_42338 = 42338
   \<and> mp_commercials mediaplan_42338 = Some [commercial_201]"
proof -
  let ?env = "two_plans_client"
  let ?init = "new_IntegrationService no_env"
  let ?started = "log_start ?env ?init"
  let ?loggedin = "record_call (Login (omlUsername (config ?started))
                     (omlPassword (config ?started))) ?started"
  have auth: "authenticate ?env ?started = (Inr (), ?loggedin)"
    by (rule authenticate_accepts) simp
  have "mappingCache (log_authentication ?env ?loggedin) = empty_cache" by simp
  from example_sync_run [of ?env "log_authentication ?env ?loggedin", OF _ _ _ _ this]
  obtain synced where
    sync: "syncReferenceDictionaries ?env example_campaign example_creatives
             (log_authentication ?env ?loggedin) = (Inr (), synced)"
    and tr2: "trace synced = trace (log_authentication ?env ?loggedin) @
               [FetchLightboxAdvertiser 101, GetAdvertisers, FetchLightboxBrand 401, GetBrands,
                FetchLightboxChannel 9, GetChannels, FetchLightboxTargetAudience 501,
                GetTargetAudiences]"
    and ch: "getMappedIdOrThrow ''channels'' 9 synced = Inr 77"
    by auto
  let ?searched = "record_call (GetChannelBooking 77 (cmp_start_date example_campaign)
                     (cmp_end_date example_campaign)) (log_sync_dictionaries ?env synced)"
  have ch': "getMappedIdOrThrow ''channels'' 9 (log_sync_dictionaries ?env synced) = Inr 77"
    using ch by simp
  have grid: "getChannelBooking ?env (trace (log_sync_dictionaries ?env synced)) 77
                (cmp_start_date example_campaign) (cmp_end_date example_campaign) = Inr []"
    by simp
  note blocks = findBlocksForPlacement_empty_grid [OF ch' grid]
  let ?matched = "record_call (GetCommercials (Some 10000)) (log_find_blocks ?env 0 ?searched)"
  have "getCommercials ?env (trace (log_find_blocks ?env 0 ?searched)) (Some 10000)
          = Inr [commercial_201]" by simp
  then obtain cs where
    coms: "findAndMapCommercials ?env example_creatives (log_find_blocks ?env 0 ?searched)
             = (Inr cs, ?matched)"
    by (simp add: findAndMapCommercials_def call_getCommercials_def)
  let ?listed = "console_log ''not found commercial''
                   (record_call (GetMediaplans 10000) (log_map_commercials ?env (length cs) ?matched))"
  have plans: "getMediaplans ?env (trace (log_map_commercials ?env (length cs) ?matched)) 10000
                 = Inr [mediaplan_42338_empty, mediaplan_42338]" by simp
  have none: "first_commercial (find (\<lambda>el. mp_id el = 42338)
                [mediaplan_42338_empty, mediaplan_42338]) = None"
    by (simp add: mediaplan_42338_empty_def first_commercial_def)
  note spots = reserveSpots_not_found [OF plans none, of None]
  have steps: "publish_steps ?env example_campaign example_creatives ?init =
          (Inr complete_result, log_complete ?env (log_reserve_spots ?env ''1'' ?listed))"
    using auth sync blocks coms spots by (simp add: publish_steps_def first_block_def)
  then have h: "handleCampaignPublish ?env example_campaign example_creatives ?init =
          (complete_result, log_complete ?env (log_reserve_spots ?env ''1'' ?listed))"
    by (simp add: handleCampaignPublish_def)
  have user: "omlUsername (getOmlConfig no_env) = []" "omlPassword (getOmlConfig no_env) = []"
    by (simp_all add: getOmlConfig_def EnvConfig_get_def no_env_def)
  have dates: "cmp_start_date example_campaign = ''2025-04-24''"
              "cmp_end_date example_campaign = ''2025-04-30''"
    by (simp_all add: example_campaign_def)
  have tr: "trace (log_complete ?env (log_reserve_spots ?env ''1'' ?listed))
     = [Login [] [], FetchLightboxAdvertiser 101, GetAdvertisers, FetchLightboxBrand 401,
        GetBrands, FetchLightboxChannel 9, GetChannels, FetchLightboxTargetAudience 501,
        GetTargetAudiences, GetChannelBooking 77 ''2025-04-24'' ''2025-04-30'',
        GetCommercials (Some 10000), GetMediaplans 10000]"
    using tr2 by (simp add: user dates)
  have plan: "mp_id mediaplan_42338 = 42338 \<and> mp_commercials mediaplan_42338 = Some [commercial_201]"
    by (simp add: mediaplan_42338_def)
  from h tr plan show ?thesis by (simp add: complete_result_def)
qed

end
